theory Spec2Isabelle
  imports Complex_Main
begin

section \<open>Scalar function tables\<close>

text \<open>
  The engine of \<^verbatim>\<open>nn.ts\<close> computes with JavaScript numbers. They are modelled as
  \<^typ>\<open>real\<close>: finite doubles without rounding. Counters that are only incremented and
  compared with zero (\<^verbatim>\<open>numAccumulatedDers\<close>, the Adam iteration) are \<^typ>\<open>nat\<close>.
\<close>

text \<open>\<^verbatim>\<open>ErrorFunction\<close> is an interface with two function members.\<close>

record ErrorFunction =
  error :: "real \<Rightarrow> real \<Rightarrow> real"
  der :: "real \<Rightarrow> real \<Rightarrow> real"

definition SQUARE :: ErrorFunction where
  "SQUARE = \<lparr> error = (\<lambda>output target. 0.5 * (output - target) ^ 2),
              der = (\<lambda>output target. output - target) \<rparr>"

text \<open>The built-in activation functions (\<^verbatim>\<open>Activations\<close>), as a tagged variant.\<close>

datatype ActivationFunction = TANH | RELU | SIGMOID | LINEAR

fun activation_output :: "ActivationFunction \<Rightarrow> real \<Rightarrow> real" where
  "activation_output TANH x = tanh x"
| "activation_output RELU x = max 0 x"
| "activation_output SIGMOID x = 1 / (1 + exp (- x))"
| "activation_output LINEAR x = x"

fun activation_der :: "ActivationFunction \<Rightarrow> real \<Rightarrow> real" where
  "activation_der TANH x = (let out = activation_output TANH x in 1 - out * out)"
| "activation_der RELU x = (if x \<le> 0 then 0 else 1)"
| "activation_der SIGMOID x = (let out = activation_output SIGMOID x in out * (1 - out))"
| "activation_der LINEAR x = 1"

text \<open>
  The built-in regularization functions. A link holds one of them or \<^verbatim>\<open>null\<close>
  (\<^term>\<open>None\<close>); the test \<^verbatim>\<open>link.regularization === RegularizationFunction.L1\<close> is
  equality with \<open>Some L1\<close>.
\<close>

datatype RegularizationFunction = L1 | L2

fun regularization_output :: "RegularizationFunction \<Rightarrow> real \<Rightarrow> real" where
  "regularization_output L1 w = \<bar>w\<bar>"
| "regularization_output L2 w = 0.5 * w * w"

fun regularization_der :: "RegularizationFunction \<Rightarrow> real \<Rightarrow> real" where
  "regularization_der L1 w = (if w < 0 then - 1 else if w > 0 then 1 else 0)"
| "regularization_der L2 w = w"

section \<open>Graph primitives\<close>

text \<open>
  A \<^verbatim>\<open>Link\<close> object is referenced from two places: the \<^verbatim>\<open>inputLinks\<close> of its
  destination node and the \<^verbatim>\<open>outputs\<close> of its source node. The model stores each link
  once, in the \<open>inputLinks\<close> of its destination; \<open>source\<close> is the position of the source
  node in the previous layer (\<^verbatim>\<open>buildNetwork\<close> only links adjacent layers), and the
  \<^verbatim>\<open>outputs\<close> list of a node is read off the next layer (function \<open>outputs\<close> below).
  The \<^verbatim>\<open>id\<close> strings are display labels that no operation reads; they are left out.
\<close>

record Link =
  source :: nat
  weight :: real
  isDead :: bool
  errorDer :: real
  accErrorDer :: real
  numAccumulatedDers :: nat
  regularization :: "RegularizationFunction option"
  mWeight :: real
  vWeight :: real

record Node =
  inputLinks :: "Link list"
  bias :: real
  totalInput :: real
  "output" :: real
  totalBatchInput :: "real list"
  batchOutput :: "real list"
  outputDer :: real
  inputDer :: real
  accInputDer :: real
  numAccumulatedDers :: nat
  activation :: ActivationFunction
  mBias :: real
  vBias :: real
  bnGamma :: real
  bnBeta :: real
  bnMean :: real
  bnVariance :: real
  bnEpsilon :: real
  bnNormalized :: real
  lnGamma :: real
  lnBeta :: real
  lnNormalized :: real
  lnMean :: real
  lnVariance :: real
  lnEpsilon :: real
  bnGammaGrad :: real
  bnBetaGrad :: real
  lnGammaGrad :: real
  lnBetaGrad :: real

type_synonym network = "Node list list"

text \<open>
  The exceptions of the engine. \<open>ShapeMismatch\<close> is the \<^verbatim>\<open>Error\<close> thrown by the explicit
  length checks. \<open>TypeError\<close> is what JavaScript raises when a property of \<^verbatim>\<open>undefined\<close>
  is read (an empty network, an empty last layer, an empty batch). \<open>NotANumber\<close> is not an
  exception: it marks a run in which the code reads a missing array slot, gets
  \<^verbatim>\<open>undefined\<close> and carries on computing with \<^verbatim>\<open>NaN\<close>; such values are outside the
  reals, and the model stops there.
\<close>

datatype error = ShapeMismatch | TypeError | NotANumber

section \<open>Network builder\<close>

text \<open>
  The constructors. \<^verbatim>\<open>totalInput\<close> and \<^verbatim>\<open>output\<close> have no initialiser in the source
  (they are unset until the first forward pass); the model starts them at 0. The value drawn
  by \<^verbatim>\<open>Math.random()\<close> for a link is the parameter \<open>r\<close>.
\<close>

definition new_Node :: "ActivationFunction \<Rightarrow> bool \<Rightarrow> Node" where
  "new_Node act initZero =
     \<lparr> inputLinks = [], bias = (if initZero then 0 else 0.1), totalInput = 0, output = 0,
       totalBatchInput = [], batchOutput = [], outputDer = 0, inputDer = 0,
       accInputDer = 0, numAccumulatedDers = 0, activation = act,
       mBias = (if initZero then 0 else 0.1), vBias = (if initZero then 0 else 0.1),
       bnGamma = 1, bnBeta = 0, bnMean = 0, bnVariance = 1, bnEpsilon = 1 / 10 ^ 8,
       bnNormalized = 0, lnGamma = 1, lnBeta = 0, lnNormalized = 0, lnMean = 0,
       lnVariance = 0, lnEpsilon = 1 / 10 ^ 8, bnGammaGrad = 0, bnBetaGrad = 0,
       lnGammaGrad = 0, lnBetaGrad = 0 \<rparr>"

definition new_Link :: "nat \<Rightarrow> RegularizationFunction option \<Rightarrow> bool \<Rightarrow> real \<Rightarrow> Link" where
  "new_Link src reg initZero r =
     \<lparr> source = src, weight = (if initZero then 0 else r - 0.5), isDead = False,
       errorDer = 0, accErrorDer = 0, numAccumulatedDers = 0, regularization = reg,
       mWeight = 0, vWeight = 0 \<rparr>"

text \<open>
  \<open>rnd layerIdx i j\<close> is the random draw of the link from node \<open>j\<close> of layer
  \<open>layerIdx - 1\<close> to node \<open>i\<close> of layer \<open>layerIdx\<close>. The \<^verbatim>\<open>normalization\<close> argument is
  passed on to the node constructor, which ignores it.
\<close>

definition buildNetwork ::
  "nat list \<Rightarrow> ActivationFunction \<Rightarrow> string \<Rightarrow> ActivationFunction \<Rightarrow>
   RegularizationFunction option \<Rightarrow> bool \<Rightarrow> (nat \<Rightarrow> nat \<Rightarrow> nat \<Rightarrow> real) \<Rightarrow> network" where
  "buildNetwork networkShape act normalization outputActivation reg initZero rnd =
     (let numLayers = length networkShape in
      map (\<lambda>layerIdx.
        let isOutputLayer = (layerIdx = numLayers - 1) in
        map (\<lambda>i.
          (new_Node (if isOutputLayer then outputActivation else act) initZero)
            \<lparr> inputLinks :=
                (if layerIdx \<ge> 1
                 then map (\<lambda>j. new_Link j reg initZero (rnd layerIdx i j))
                        [0..<networkShape ! (layerIdx - 1)]
                 else []) \<rparr>)
          [0..<networkShape ! layerIdx])
        [0..<numLayers])"

section \<open>Forward propagation\<close>

text \<open>\<^verbatim>\<open>Node.updateOutput\<close>; \<open>prev\<close> is the layer the node's links come from.\<close>

definition updateOutput :: "Node list \<Rightarrow> Node \<Rightarrow> Node" where
  "updateOutput prev node =
     (let ti = fold (\<lambda>link t. t + weight link * output (prev ! source link))
                 (inputLinks node) (bias node)
      in node\<lparr> totalInput := ti, output := activation_output (activation node) ti \<rparr>)"

text \<open>The layer-normalization block inside the layer loop of \<^verbatim>\<open>forwardProp\<close>.\<close>

definition layerNormalization :: "Node list \<Rightarrow> Node list" where
  "layerNormalization currentLayer =
     (let layerSize = length currentLayer;
          mean = fold (\<lambda>node m. m + output node) currentLayer 0 / real layerSize;
          variance = fold (\<lambda>node v. v + (output node - mean) ^ 2) currentLayer 0
                       / real layerSize
      in map (\<lambda>node.
            let node1 = node\<lparr> output := (output node - mean) / sqrt (variance + lnEpsilon node) \<rparr>
            in node1\<lparr> output := lnGamma node1 * output node1 + lnBeta node1 \<rparr>)
           currentLayer)"

text \<open>One round of the loop over \<open>layerIdx\<close> in \<^verbatim>\<open>forwardProp\<close>.\<close>

definition forwardLayer :: "string \<Rightarrow> nat \<Rightarrow> network \<Rightarrow> network" where
  "forwardLayer normalization layerIdx network =
     (let currentLayer = map (updateOutput (network ! (layerIdx - 1))) (network ! layerIdx);
          currentLayer' =
            (if normalization = ''Layer'' \<and> layerIdx < length network - 1
             then layerNormalization currentLayer else currentLayer)
      in network[layerIdx := currentLayer'])"

text \<open>
  \<^verbatim>\<open>forwardProp\<close> returns its result (or the exception it throws) together with the
  network as the call leaves it.
\<close>

definition forwardProp :: "network \<Rightarrow> real list \<Rightarrow> string \<Rightarrow> (error + real) \<times> network" where
  "forwardProp network inputs normalization =
     (case network of
        [] \<Rightarrow> (Inl TypeError, network)
      | inputLayer # _ \<Rightarrow>
          if length inputs \<noteq> length inputLayer then (Inl ShapeMismatch, network)
          else
            let net0 = network[0 := map2 (\<lambda>node x. node\<lparr> output := x \<rparr>) inputLayer inputs];
                net1 = fold (forwardLayer normalization) [1..<length network] net0
            in (case net1 ! (length network - 1) of
                  [] \<Rightarrow> (Inl TypeError, net1)
                | outputNode # _ \<Rightarrow> (Inr (output outputNode), net1)))"

section \<open>Backward propagation\<close>

text \<open>
  The \<^verbatim>\<open>outputs\<close> list of node \<open>i\<close> of a layer, given the next layer: the links whose
  source is that node, each with its destination node, in the order \<^verbatim>\<open>buildNetwork\<close>
  pushed them.
\<close>

definition outputs :: "Node list \<Rightarrow> nat \<Rightarrow> (Link \<times> Node) list" where
  "outputs nextLayer i =
     concat (map (\<lambda>dest. map (\<lambda>link. (link, dest))
                           (filter (\<lambda>link. source link = i) (inputLinks dest)))
               nextLayer)"

text \<open>First inner loop of \<^verbatim>\<open>backProp\<close>: the derivative with respect to the total input.\<close>

definition backInputDer :: "Node \<Rightarrow> Node" where
  "backInputDer node =
     (let node1 = node\<lparr> inputDer :=
                    outputDer node * activation_der (activation node) (totalInput node) \<rparr>
      in node1\<lparr> accInputDer := accInputDer node1 + inputDer node1,
                numAccumulatedDers := Node.numAccumulatedDers node1 + 1 \<rparr>)"

text \<open>Second inner loop: the derivative with respect to each incoming weight.\<close>

definition backLink :: "Node list \<Rightarrow> Node \<Rightarrow> Link \<Rightarrow> Link" where
  "backLink prev node link =
     (if isDead link then link
      else
        let link1 = link\<lparr> errorDer := inputDer node * output (prev ! source link) \<rparr>
        in link1\<lparr> accErrorDer := accErrorDer link1 + errorDer link1,
                  Link.numAccumulatedDers := Link.numAccumulatedDers link1 + 1 \<rparr>)"

definition backErrorDer :: "Node list \<Rightarrow> Node \<Rightarrow> Node" where
  "backErrorDer prev node = node\<lparr> inputLinks := map (backLink prev node) (inputLinks node) \<rparr>"

text \<open>Third inner loop: the derivative with respect to the output of a previous-layer node.\<close>

definition backOutputDer :: "Node list \<Rightarrow> nat \<Rightarrow> Node \<Rightarrow> Node" where
  "backOutputDer currentLayer i node =
     node\<lparr> outputDer :=
       fold (\<lambda>(out, dest) d. d + weight out * inputDer dest) (outputs currentLayer i) 0 \<rparr>"

definition backLayer :: "nat \<Rightarrow> network \<Rightarrow> network" where
  "backLayer layerIdx network =
     (let prevLayer = network ! (layerIdx - 1);
          currentLayer = map (backErrorDer prevLayer) (map backInputDer (network ! layerIdx));
          net1 = network[layerIdx := currentLayer]
      in if layerIdx = 1 then net1
         else net1[layerIdx - 1 :=
                map (\<lambda>(i, node). backOutputDer currentLayer i node)
                  (zip [0..<length prevLayer] prevLayer)])"

definition backProp :: "network \<Rightarrow> real \<Rightarrow> ErrorFunction \<Rightarrow> (error + unit) \<times> network" where
  "backProp network target errorFunc =
     (if network = [] then (Inl TypeError, network)
      else case last network of
        [] \<Rightarrow> (Inl TypeError, network)
      | outputNode # others \<Rightarrow>
          let net0 = network[length network - 1 :=
                       outputNode\<lparr> outputDer := der errorFunc (output outputNode) target \<rparr>
                         # others]
          in (Inr (), fold backLayer (rev [1..<length network]) net0))"

section \<open>Parameter update\<close>

definition updateLink :: "real \<Rightarrow> real \<Rightarrow> Link \<Rightarrow> Link" where
  "updateLink learningRate regularizationRate link =
     (if isDead link then link
      else
        let regulDer = (case regularization link of
                          Some reg \<Rightarrow> regularization_der reg (weight link)
                        | None \<Rightarrow> 0)
        in if Link.numAccumulatedDers link > 0 then
             let link1 = link\<lparr> weight := weight link -
                           (learningRate / real (Link.numAccumulatedDers link)) * accErrorDer link \<rparr>;
                 newLinkWeight = weight link1 - (learningRate * regularizationRate) * regulDer;
                 link2 = (if regularization link1 = Some L1 \<and> weight link1 * newLinkWeight < 0
                          then link1\<lparr> weight := 0, isDead := True \<rparr>
                          else link1\<lparr> weight := newLinkWeight \<rparr>)
             in link2\<lparr> accErrorDer := 0, Link.numAccumulatedDers := 0 \<rparr>
           else link)"

definition updateNode :: "real \<Rightarrow> real \<Rightarrow> Node \<Rightarrow> Node" where
  "updateNode learningRate regularizationRate node =
     (let node1 =
            (if Node.numAccumulatedDers node > 0
             then node\<lparr> bias := bias node -
                          learningRate * accInputDer node / real (Node.numAccumulatedDers node),
                        accInputDer := 0, numAccumulatedDers := 0 \<rparr>
             else node)
      in node1\<lparr> inputLinks := map (updateLink learningRate regularizationRate) (inputLinks node1) \<rparr>)"

text \<open>The loop starts at layer 1: the input layer is passed through.\<close>

definition updateWeights :: "network \<Rightarrow> real \<Rightarrow> real \<Rightarrow> network" where
  "updateWeights network learningRate regularizationRate =
     (case network of
        [] \<Rightarrow> []
      | inputLayer # rest \<Rightarrow>
          inputLayer # map (map (updateNode learningRate regularizationRate)) rest)"

text \<open>
  The Adam variant. \<open>t\<close> is the iteration count; \<^verbatim>\<open>Math.pow(beta1, t)\<close> is \<open>beta1 ^ t\<close>.
\<close>

definition updateLinkWithAdam ::
  "real \<Rightarrow> real \<Rightarrow> nat \<Rightarrow> real \<Rightarrow> real \<Rightarrow> real \<Rightarrow> Link \<Rightarrow> Link" where
  "updateLinkWithAdam alpha regularizationRate t beta1 beta2 epsilon link =
     (if isDead link then link
      else if Link.numAccumulatedDers link > 0 then
        let gWeight = accErrorDer link / real (Link.numAccumulatedDers link);
            link1 = link\<lparr> mWeight := beta1 * mWeight link + (1 - beta1) * gWeight \<rparr>;
            link2 = link1\<lparr> vWeight := beta2 * vWeight link1 + (1 - beta2) * gWeight * gWeight \<rparr>;
            mHatWeight = mWeight link2 / (1 - beta1 ^ t);
            vHatWeight = vWeight link2 / (1 - beta2 ^ t);
            regulDer = (case regularization link2 of
                          Some reg \<Rightarrow> regularization_der reg (weight link2)
                        | None \<Rightarrow> 0);
            link3 = link2\<lparr> weight := weight link2 - alpha *
                      ((mHatWeight / (sqrt vHatWeight + epsilon)) + regularizationRate * regulDer) \<rparr>;
            link4 = (if regularization link3 = Some L1 \<and>
                        weight link3 * (weight link3 - alpha * regularizationRate * regulDer) < 0
                     then link3\<lparr> weight := 0, isDead := True \<rparr>
                     else link3)
        in link4\<lparr> accErrorDer := 0, Link.numAccumulatedDers := 0 \<rparr>
      else link)"

definition updateNodeWithAdam ::
  "real \<Rightarrow> real \<Rightarrow> nat \<Rightarrow> real \<Rightarrow> real \<Rightarrow> real \<Rightarrow> Node \<Rightarrow> Node" where
  "updateNodeWithAdam alpha regularizationRate t beta1 beta2 epsilon node =
     (let node3 =
            (if Node.numAccumulatedDers node > 0 then
               let gBias = accInputDer node / real (Node.numAccumulatedDers node);
                   node1 = node\<lparr> mBias := beta1 * mBias node + (1 - beta1) * gBias \<rparr>;
                   node2 = node1\<lparr> vBias := beta2 * vBias node1 + (1 - beta2) * gBias * gBias \<rparr>;
                   mHatBias = mBias node2 / (1 - beta1 ^ t);
                   vHatBias = vBias node2 / (1 - beta2 ^ t)
               in node2\<lparr> bias := bias node2 - alpha * mHatBias / (sqrt vHatBias + epsilon),
                          accInputDer := 0, numAccumulatedDers := 0 \<rparr>
             else node)
      in node3\<lparr> inputLinks :=
           map (updateLinkWithAdam alpha regularizationRate t beta1 beta2 epsilon)
             (inputLinks node3) \<rparr>)"

definition updateWeightsWithAdam ::
  "network \<Rightarrow> real \<Rightarrow> real \<Rightarrow> nat \<Rightarrow> real \<Rightarrow> real \<Rightarrow> real \<Rightarrow> network" where
  "updateWeightsWithAdam network learningRate regularizationRate iteration beta1 beta2 epsilon =
     (case network of
        [] \<Rightarrow> []
      | inputLayer # rest \<Rightarrow>
          inputLayer #
          map (map (updateNodeWithAdam learningRate regularizationRate iteration
                      beta1 beta2 epsilon)) rest)"

section \<open>Mini-batch propagation\<close>

text \<open>
  Reading and writing an array slot. A read past the end yields \<^verbatim>\<open>undefined\<close>; a write
  at the end extends the array, and a write past the end would leave a hole.
\<close>

definition js_get :: "real list \<Rightarrow> nat \<Rightarrow> error + real" where
  "js_get xs i = (if i < length xs then Inr (xs ! i) else Inl NotANumber)"

definition js_set :: "real list \<Rightarrow> nat \<Rightarrow> real \<Rightarrow> error + real list" where
  "js_set xs i v =
     (if i < length xs then Inr (xs[i := v])
      else if i = length xs then Inr (xs @ [v])
      else Inl NotANumber)"

text \<open>Sequencing with early exit, for loops whose body can leave the model or throw.\<close>

definition bindE :: "error + 'a \<Rightarrow> ('a \<Rightarrow> error + 'b) \<Rightarrow> error + 'b" where
  "bindE m f = (case m of Inl e \<Rightarrow> Inl e | Inr x \<Rightarrow> f x)"

fun foldE :: "('a \<Rightarrow> 's \<Rightarrow> error + 's) \<Rightarrow> 'a list \<Rightarrow> 's \<Rightarrow> error + 's" where
  "foldE f [] s = Inr s"
| "foldE f (x # xs) s = bindE (f x s) (foldE f xs)"

fun mapE :: "('a \<Rightarrow> error + 'b) \<Rightarrow> 'a list \<Rightarrow> error + 'b list" where
  "mapE f [] = Inr []"
| "mapE f (x # xs) = bindE (f x) (\<lambda>y. bindE (mapE f xs) (\<lambda>ys. Inr (y # ys)))"

text \<open>\<^verbatim>\<open>Node.updateBatchOutput\<close>: the body of its loop over the batch slots, then the loop.\<close>

definition batchTotalInput :: "Node list \<Rightarrow> Node \<Rightarrow> nat \<Rightarrow> error + real" where
  "batchTotalInput prev node i =
     foldE (\<lambda>link t. bindE (js_get (batchOutput (prev ! source link)) i)
                       (\<lambda>x. Inr (t + weight link * x)))
       (inputLinks node) (bias node)"

definition updateBatchSlot :: "Node list \<Rightarrow> nat \<Rightarrow> Node \<Rightarrow> error + Node" where
  "updateBatchSlot prev i node =
     bindE (batchTotalInput prev node i) (\<lambda>ti.
       let node1 = node\<lparr> totalInput := ti \<rparr>;
           node2 = node1\<lparr> output := activation_output (activation node1) (totalInput node1) \<rparr>
       in bindE (js_set (totalBatchInput node2) i (totalInput node2)) (\<lambda>tbi.
          bindE (js_set (batchOutput node2) i (output node2)) (\<lambda>bo.
            Inr (node2\<lparr> totalBatchInput := tbi, batchOutput := bo \<rparr>))))"

definition updateBatchOutput :: "Node list \<Rightarrow> Node \<Rightarrow> error + Node" where
  "updateBatchOutput prev node =
     (case inputLinks node of
        [] \<Rightarrow> Inl TypeError
      | link0 # _ \<Rightarrow>
          foldE (updateBatchSlot prev) [0..<length (batchOutput (prev ! source link0))] node)"

text \<open>\<^verbatim>\<open>Node.batchNormalization\<close>.\<close>

definition batchNormalization :: "Node \<Rightarrow> Node" where
  "batchNormalization node =
     (let batchSize = length (batchOutput node);
          mean = fold (\<lambda>x m. m + x) (batchOutput node) 0 / real batchSize;
          variance = fold (\<lambda>x v. v + (x - mean) ^ 2) (batchOutput node) 0 / real batchSize
      in node\<lparr> batchOutput :=
           map (\<lambda>x. bnGamma node * ((x - mean) / sqrt (variance + bnEpsilon node)) + bnBeta node)
             (batchOutput node) \<rparr>)"

text \<open>
  The callback of \<^verbatim>\<open>inputs.forEach\<close> in \<^verbatim>\<open>forwardPropWithBatch\<close>: its branch for the
  input layer, its branch for the later layers, and the callback itself.
\<close>

definition batchInputLayer :: "real list \<Rightarrow> nat \<Rightarrow> Node list \<Rightarrow> error + Node list" where
  "batchInputLayer input bni inputLayer =
     mapE (\<lambda>(i, node).
             bindE (js_get input i) (\<lambda>x.
             bindE (js_set (batchOutput node) bni x) (\<lambda>bo.
               Inr (node\<lparr> batchOutput := bo \<rparr>))))
       (zip [0..<length inputLayer] inputLayer)"

definition batchLayer :: "bool \<Rightarrow> Node list \<Rightarrow> Node list \<Rightarrow> error + Node list" where
  "batchLayer isLast prev currentLayer =
     mapE (\<lambda>node. bindE (updateBatchOutput prev node)
                    (\<lambda>node'. Inr (if isLast then node' else batchNormalization node')))
       currentLayer"

definition batchStep :: "nat \<Rightarrow> real list \<times> nat \<Rightarrow> network \<Rightarrow> error + network" where
  "batchStep layerIdx = (\<lambda>(input, bni) network.
     if layerIdx = 0
     then bindE (batchInputLayer input bni (network ! 0))
            (\<lambda>layer. Inr (network[0 := layer]))
     else bindE (batchLayer (layerIdx = length network - 1)
                   (network ! (layerIdx - 1)) (network ! layerIdx))
            (\<lambda>layer. Inr (network[layerIdx := layer])))"

text \<open>
  \<^verbatim>\<open>forwardPropWithBatch\<close> returns the output node's \<^verbatim>\<open>batchOutput\<close> and the network
  after the call. When the call throws, the network it leaves behind is not modelled; the
  \<open>ShapeMismatch\<close> check and the \<open>TypeError\<close> on an empty batch or an empty network come
  before any write.
\<close>

definition forwardPropWithBatch :: "network \<Rightarrow> real list list \<Rightarrow> error + (real list \<times> network)" where
  "forwardPropWithBatch network inputs =
     (case inputs of
        [] \<Rightarrow> Inl TypeError
      | input0 # _ \<Rightarrow>
          (case network of
             [] \<Rightarrow> Inl TypeError
           | inputLayer # _ \<Rightarrow>
               if length input0 \<noteq> length inputLayer then Inl ShapeMismatch
               else
                 bindE (foldE (\<lambda>layerIdx. foldE (batchStep layerIdx)
                                             (zip inputs [0..<length inputs]))
                          [0..<length network] network)
                   (\<lambda>net1. case last net1 of
                              [] \<Rightarrow> Inl TypeError
                            | outputNode # _ \<Rightarrow> Inr (batchOutput outputNode, net1))))"

text \<open>\<^verbatim>\<open>backPropWithBatch\<close>: the three inner loops for batch slot \<open>k\<close>, then the callback.\<close>

definition backInputDerBatch :: "nat \<Rightarrow> Node \<Rightarrow> error + Node" where
  "backInputDerBatch k node =
     bindE (js_get (totalBatchInput node) k) (\<lambda>ti.
       let node1 = node\<lparr> inputDer := outputDer node * activation_der (activation node) ti \<rparr>
       in Inr (node1\<lparr> accInputDer := accInputDer node1 + inputDer node1,
                      numAccumulatedDers := Node.numAccumulatedDers node1 + 1 \<rparr>))"

definition backLinkBatch :: "Node list \<Rightarrow> nat \<Rightarrow> Node \<Rightarrow> Link \<Rightarrow> error + Link" where
  "backLinkBatch prev k node link =
     (if isDead link then Inr link
      else bindE (js_get (batchOutput (prev ! source link)) k) (\<lambda>x.
        let link1 = link\<lparr> errorDer := inputDer node * x \<rparr>
        in Inr (link1\<lparr> accErrorDer := accErrorDer link1 + errorDer link1,
                       Link.numAccumulatedDers := Link.numAccumulatedDers link1 + 1 \<rparr>)))"

definition backErrorDerBatch :: "Node list \<Rightarrow> nat \<Rightarrow> Node \<Rightarrow> error + Node" where
  "backErrorDerBatch prev k node =
     bindE (mapE (backLinkBatch prev k node) (inputLinks node))
       (\<lambda>links. Inr (node\<lparr> inputLinks := links \<rparr>))"

definition backLayerBatch :: "nat \<Rightarrow> nat \<Rightarrow> network \<Rightarrow> error + network" where
  "backLayerBatch k layerIdx network =
     (let prevLayer = network ! (layerIdx - 1) in
      bindE (mapE (backInputDerBatch k) (network ! layerIdx)) (\<lambda>layer1.
      bindE (mapE (backErrorDerBatch prevLayer k) layer1) (\<lambda>currentLayer.
        let net1 = network[layerIdx := currentLayer]
        in Inr (if layerIdx = 1 then net1
                else net1[layerIdx - 1 :=
                       map (\<lambda>(i, node). backOutputDer currentLayer i node)
                         (zip [0..<length prevLayer] prevLayer)]))))"

definition backTarget :: "ErrorFunction \<Rightarrow> real \<times> nat \<Rightarrow> network \<Rightarrow> error + network" where
  "backTarget errorFunc = (\<lambda>(target, k) network.
     if network = [] then Inl TypeError
     else case last network of
       [] \<Rightarrow> Inl TypeError
     | outputNode # others \<Rightarrow>
         bindE (js_get (batchOutput outputNode) k) (\<lambda>out.
           foldE (backLayerBatch k) (rev [1..<length network])
             (network[length network - 1 :=
                outputNode\<lparr> outputDer := der errorFunc out target \<rparr> # others])))"

definition backPropWithBatch :: "network \<Rightarrow> real list \<Rightarrow> ErrorFunction \<Rightarrow> error + network" where
  "backPropWithBatch network targetBatch errorFunc =
     foldE (backTarget errorFunc) (zip targetBatch [0..<length targetBatch]) network"

section \<open>Sequences of calls\<close>

text \<open>
  The calls a driver can make on a network, and the network after a sequence of them.
  A call that throws the shape-mismatch error has written nothing, and the driver may go
  on; \<^verbatim>\<open>forwardProp\<close> and \<^verbatim>\<open>backProp\<close> are modelled with the network they leave
  behind in every case. A mini-batch call that ends in \<open>TypeError\<close> or leaves the reals
  ends the modelled run (\<open>None\<close>).
\<close>

datatype call =
    ForwardProp "real list" string
  | BackProp real ErrorFunction
  | UpdateWeights real real
  | UpdateWeightsWithAdam real real nat real real real
  | ForwardPropWithBatch "real list list"
  | BackPropWithBatch "real list" ErrorFunction

fun do_call :: "call \<Rightarrow> network \<Rightarrow> network option" where
  "do_call (ForwardProp inputs normalization) network =
     Some (snd (forwardProp network inputs normalization))"
| "do_call (BackProp target errorFunc) network =
     Some (snd (backProp network target errorFunc))"
| "do_call (UpdateWeights learningRate regularizationRate) network =
     Some (updateWeights network learningRate regularizationRate)"
| "do_call (UpdateWeightsWithAdam learningRate regularizationRate iteration beta1 beta2 epsilon)
     network =
     Some (updateWeightsWithAdam network learningRate regularizationRate iteration
             beta1 beta2 epsilon)"
| "do_call (ForwardPropWithBatch inputs) network =
     (case forwardPropWithBatch network inputs of
        Inr (out, net') \<Rightarrow> Some net'
      | Inl ShapeMismatch \<Rightarrow> Some network
      | Inl _ \<Rightarrow> None)"
| "do_call (BackPropWithBatch targetBatch errorFunc) network =
     (case backPropWithBatch network targetBatch errorFunc of
        Inr net' \<Rightarrow> Some net'
      | Inl _ \<Rightarrow> None)"

fun run :: "call list \<Rightarrow> network \<Rightarrow> network option" where
  "run [] network = Some network"
| "run (c # cs) network =
     (case do_call c network of None \<Rightarrow> None | Some net' \<Rightarrow> run cs net')"

section \<open>Invariants of the accumulators and of dead links\<close>

text \<open>
  The accumulators and their counters move together: \<^verbatim>\<open>backProp\<close> adds to both and the
  updates reset both. So in every network that \<^verbatim>\<open>buildNetwork\<close> made and the engine
  has worked on, a counter at zero means an accumulator at zero, and the nodes of the input
  layer, which no pass touches, have neither links nor accumulated derivatives.
\<close>

definition link_acc_inv :: "Link \<Rightarrow> bool" where
  "link_acc_inv link \<longleftrightarrow> (Link.numAccumulatedDers link = 0 \<longrightarrow> accErrorDer link = 0)"

definition node_acc_inv :: "Node \<Rightarrow> bool" where
  "node_acc_inv node \<longleftrightarrow>
     (Node.numAccumulatedDers node = 0 \<longrightarrow> accInputDer node = 0) \<and>
     list_all link_acc_inv (inputLinks node)"

definition input_node_inv :: "Node \<Rightarrow> bool" where
  "input_node_inv node \<longleftrightarrow>
     accInputDer node = 0 \<and> Node.numAccumulatedDers node = 0 \<and> inputLinks node = []"

definition acc_inv :: "network \<Rightarrow> bool" where
  "acc_inv network \<longleftrightarrow>
     list_all (list_all node_acc_inv) network \<and>
     (network \<noteq> [] \<longrightarrow> list_all input_node_inv (network ! 0))"

text \<open>A node after an update: its accumulators and those of its live links are zero.\<close>

definition node_reset :: "Node \<Rightarrow> bool" where
  "node_reset node \<longleftrightarrow>
     accInputDer node = 0 \<and> Node.numAccumulatedDers node = 0 \<and>
     (\<forall>j < length (inputLinks node). \<not> isDead (inputLinks node ! j) \<longrightarrow>
        accErrorDer (inputLinks node ! j) = 0 \<and>
        Link.numAccumulatedDers (inputLinks node ! j) = 0)"

text \<open>
  What one call may do to a link, a node and the network. A link keeps its source; a dead
  link is left as it is, in every field; a link that is dead afterwards was dead before or
  has weight 0; the accumulator invariant is kept. \<open>node_frame\<close> is the stronger
  relation of the forward passes, which write neither links nor accumulators; no call
  writes the links or the accumulators of the input layer.
\<close>

definition link_step :: "Link \<Rightarrow> Link \<Rightarrow> bool" where
  "link_step link link' \<longleftrightarrow>
     source link' = source link \<and>
     (isDead link \<longrightarrow> link' = link) \<and>
     (isDead link' \<longrightarrow> isDead link \<or> weight link' = 0) \<and>
     (link_acc_inv link \<longrightarrow> link_acc_inv link')"

definition node_step :: "Node \<Rightarrow> Node \<Rightarrow> bool" where
  "node_step node node' \<longleftrightarrow>
     list_all2 link_step (inputLinks node) (inputLinks node') \<and>
     ((Node.numAccumulatedDers node = 0 \<longrightarrow> accInputDer node = 0) \<longrightarrow>
      (Node.numAccumulatedDers node' = 0 \<longrightarrow> accInputDer node' = 0))"

definition node_frame :: "Node \<Rightarrow> Node \<Rightarrow> bool" where
  "node_frame node node' \<longleftrightarrow>
     inputLinks node' = inputLinks node \<and> accInputDer node' = accInputDer node \<and>
     Node.numAccumulatedDers node' = Node.numAccumulatedDers node"

definition net_step :: "network \<Rightarrow> network \<Rightarrow> bool" where
  "net_step network net' \<longleftrightarrow>
     list_all2 (list_all2 node_step) network net' \<and>
     (network \<noteq> [] \<longrightarrow> list_all2 node_frame (network ! 0) (net' ! 0))"

section \<open>The formulas of the specification\<close>

text \<open>
  The specification of the plain update says that, after the gradient step, the candidate is
  \<^verbatim>\<open>newWeight = weight - learningRate * regularizationRate * regularization.der(weight)\<close>.
  Read as written, with one \<^verbatim>\<open>weight\<close>, this is the following pair of formulas; they
  are compared with \<open>updateLink\<close> below.
\<close>

definition claimed_gradient_step :: "real \<Rightarrow> Link \<Rightarrow> real" where
  "claimed_gradient_step learningRate link =
     weight link - learningRate / real (Link.numAccumulatedDers link) * accErrorDer link"

definition claimed_newWeight :: "real \<Rightarrow> real \<Rightarrow> Link \<Rightarrow> real" where
  "claimed_newWeight learningRate regularizationRate link =
     claimed_gradient_step learningRate link -
       learningRate * regularizationRate *
         regularization_der L1 (claimed_gradient_step learningRate link)"

text \<open>
  The specification of the Adam update compares, for the zero-crossing check, the candidate
  weight after the adaptive gradient step and before the regularization term with the fully
  regularized weight. These are the two weights, written from its formulas.
\<close>

definition adam_candidate :: "real \<Rightarrow> nat \<Rightarrow> real \<Rightarrow> real \<Rightarrow> real \<Rightarrow> Link \<Rightarrow> real" where
  "adam_candidate alpha t beta1 beta2 epsilon link =
     (let g = accErrorDer link / real (Link.numAccumulatedDers link);
          m = beta1 * mWeight link + (1 - beta1) * g;
          v = beta2 * vWeight link + (1 - beta2) * g * g
      in weight link - alpha * ((m / (1 - beta1 ^ t)) / (sqrt (v / (1 - beta2 ^ t)) + epsilon)))"

definition adam_regularized ::
  "real \<Rightarrow> real \<Rightarrow> nat \<Rightarrow> real \<Rightarrow> real \<Rightarrow> real \<Rightarrow> Link \<Rightarrow> real" where
  "adam_regularized alpha regularizationRate t beta1 beta2 epsilon link =
     adam_candidate alpha t beta1 beta2 epsilon link -
       alpha * regularizationRate * regularization_der L1 (weight link)"

section \<open>Example networks\<close>

text \<open>Networks as \<^verbatim>\<open>buildNetwork\<close> makes them, every random draw being 1 (weight 0.5).\<close>

definition net221 :: network where
  "net221 = buildNetwork [2, 2, 1] LINEAR ''none'' LINEAR None False (\<lambda>l i j. 1)"

definition net21 :: network where
  "net21 = buildNetwork [2, 1] LINEAR ''none'' LINEAR None False (\<lambda>l i j. 1)"

text \<open>
  One input node and one output node, joined by one link with L1 regularization, weight
  \<open>w\<close>, and one accumulated derivative \<open>g\<close>.
\<close>

definition l1_link :: "real \<Rightarrow> real \<Rightarrow> Link" where
  "l1_link w g =
     (new_Link 0 (Some L1) True 0)
       \<lparr> weight := w, accErrorDer := g, Link.numAccumulatedDers := 1 \<rparr>"

definition l1_net :: "real \<Rightarrow> real \<Rightarrow> network" where
  "l1_net w g =
     [[new_Node LINEAR True], [(new_Node LINEAR True)\<lparr> inputLinks := [l1_link w g] \<rparr>]]"

text \<open>The same network after a plain update has pruned its link, and calls to make on it.\<close>

definition dead_net :: network where
  "dead_net = updateWeights (l1_net (1/4) 0) 1 (1/2)"

definition dead_calls :: "call list" where
  "dead_calls = [ForwardProp [1] ''none'', BackProp 1 SQUARE, UpdateWeights 1 (1/2),
                 UpdateWeightsWithAdam 1 (1/2) 1 (9/10) (999/1000) (1 / 10 ^ 8)]"

text \<open>
  One input node and one output node that has accumulated the derivative 3 over two examples,
  joined by one link that has accumulated the derivative 1/2 over one example.
\<close>

definition acc_link :: Link where
  "acc_link = (new_Link 0 None True 0)\<lparr> accErrorDer := 1/2, Link.numAccumulatedDers := 1 \<rparr>"

definition acc_net :: network where
  "acc_net =
     [[new_Node LINEAR True],
      [(new_Node LINEAR True)\<lparr> inputLinks := [acc_link], accInputDer := 3,
                                Node.numAccumulatedDers := 2 \<rparr>]]"

section \<open>Well-formed networks\<close>

text \<open>
  In the code a link holds a reference to its source node. In the model it holds the
  position of that node in the previous layer, and the position must exist: the reads
  \<open>prev ! source link\<close> of the model are the reads \<^verbatim>\<open>link.source\<close> of the code on
  well-formed networks.
\<close>

definition wf_network :: "network \<Rightarrow> bool" where
  "wf_network network \<longleftrightarrow>
     (\<forall>l \<in> {1..<length network}. \<forall>node \<in> set (network ! l). \<forall>link \<in> set (inputLinks node).
        source link < length (network ! (l - 1)))"

section \<open>The error as a function of one weight\<close>

text \<open>
  \<open>setWeight\<close> replaces the weight of link \<open>j\<close> of node \<open>i\<close> of layer \<open>l\<close>;
  \<open>networkError\<close> is the square error of the network's output at an input and a target.
\<close>

definition setWeight :: "network \<Rightarrow> nat \<Rightarrow> nat \<Rightarrow> nat \<Rightarrow> real \<Rightarrow> network" where
  "setWeight network l i j w =
     network[l := (network ! l)[i := (network ! l ! i)
       \<lparr> inputLinks := (inputLinks (network ! l ! i))
            [j := (inputLinks (network ! l ! i) ! j)\<lparr> weight := w \<rparr>] \<rparr>]]"

definition networkError :: "network \<Rightarrow> real list \<Rightarrow> string \<Rightarrow> real \<Rightarrow> real" where
  "networkError network inputs normalization target =
     (case fst (forwardProp network inputs normalization) of
        Inr out \<Rightarrow> error SQUARE out target
      | Inl e \<Rightarrow> 0)"

text \<open>The error as a function of the weight of one link, all else fixed.\<close>

definition weightError ::
  "network \<Rightarrow> nat \<Rightarrow> nat \<Rightarrow> nat \<Rightarrow> real list \<Rightarrow> string \<Rightarrow> real \<Rightarrow> real \<Rightarrow> real" where
  "weightError network l i j inputs normalization target =
     (\<lambda>w. networkError (setWeight network l i j w) inputs normalization target)"

text \<open>
  The network of the gradient check: shape [2, 2, 1] as \<^verbatim>\<open>buildNetwork\<close> links it, the
  linear activation on every node, every link alive with nothing accumulated. Weights and
  biases are left free.
\<close>

definition fresh_link :: "nat \<Rightarrow> Link \<Rightarrow> bool" where
  "fresh_link j link \<longleftrightarrow> source link = j \<and> \<not> isDead link \<and> accErrorDer link = 0"

definition fresh_links :: "Node \<Rightarrow> bool" where
  "fresh_links node \<longleftrightarrow>
     (case inputLinks node of
        [link0, link1] \<Rightarrow> fresh_link 0 link0 \<and> fresh_link 1 link1
      | _ \<Rightarrow> False)"

definition linear221 :: "network \<Rightarrow> bool" where
  "linear221 network \<longleftrightarrow>
     (case network of
        [[a, b], [c, d], [e]] \<Rightarrow>
          list_all (\<lambda>node. activation node = LINEAR) [a, b, c, d, e] \<and>
          list_all fresh_links [c, d, e]
      | _ \<Rightarrow> False)"

section \<open>The mini-batch pass, node by node\<close>

text \<open>The raw value of batch slot k of a node.\<close>

definition batchRaw :: "Node list \<Rightarrow> Node \<Rightarrow> nat \<Rightarrow> real" where
  "batchRaw prev node k =
     activation_output (activation node)
       (bias node + (\<Sum>link\<leftarrow>inputLinks node. weight link * (batchOutput (prev ! source link) ! k)))"

definition batch_frame :: "Node \<Rightarrow> Node \<Rightarrow> bool" where
  "batch_frame node node' \<longleftrightarrow>
     inputLinks node' = inputLinks node \<and> bias node' = bias node \<and>
     activation node' = activation node \<and> bnGamma node' = bnGamma node \<and>
     bnBeta node' = bnBeta node \<and> bnEpsilon node' = bnEpsilon node"

text \<open>What one pass over a later layer leaves in a node, for a batch of n vectors.\<close>

definition batch_result :: "bool \<Rightarrow> Node list \<Rightarrow> nat \<Rightarrow> Node \<Rightarrow> Node \<Rightarrow> bool" where
  "batch_result isLast prev n node node' \<longleftrightarrow>
     batch_frame node node' \<and>
     batchOutput node' =
       (if isLast then map (batchRaw prev node) [0..<n]
        else batchOutput (batchNormalization (node\<lparr>batchOutput := map (batchRaw prev node) [0..<n]\<rparr>)))"

definition batch_ready :: "nat \<Rightarrow> Node \<Rightarrow> Node \<Rightarrow> bool" where
  "batch_ready n node node' \<longleftrightarrow> batch_frame node node' \<and> length (batchOutput node') \<le> n"

section \<open>More example networks\<close>

text \<open>
  One input node, three hidden nodes with biases 1, 2, 3 and one output node, linear, with
  all weights 0: the raw outputs of the hidden layer are 1, 2, 3.
\<close>

definition ln_hidden :: "real \<Rightarrow> Node" where
  "ln_hidden b = (new_Node LINEAR True)\<lparr> bias := b, inputLinks := [new_Link 0 None True 0] \<rparr>"

definition ln_net :: network where
  "ln_net = [[new_Node LINEAR True],
             [ln_hidden 1, ln_hidden 2, ln_hidden 3],
             [(new_Node LINEAR True)\<lparr> inputLinks :=
                 [new_Link 0 None True 0, new_Link 1 None True 0, new_Link 2 None True 0] \<rparr>]]"

text \<open>
  One input node, one hidden node and one output node, linear, with weights 1 and biases 0:
  on the batch \<open>[[1], [2], [3], [4]]\<close> the raw batch outputs of the hidden node are
  1, 2, 3, 4.
\<close>

definition bn_link :: Link where
  "bn_link = (new_Link 0 None True 0)\<lparr> weight := 1 \<rparr>"

definition bn_net :: network where
  "bn_net = [[new_Node LINEAR True],
             [(new_Node LINEAR True)\<lparr> inputLinks := [bn_link] \<rparr>],
             [(new_Node LINEAR True)\<lparr> inputLinks := [bn_link] \<rparr>]]"

section \<open>What every call preserves\<close>

text \<open>
  The relations are reflexive and transitive, and each operation of the engine is a step:
  first the loops, then the six operations, then a sequence of calls.
\<close>

lemma list_all2_transI:
  assumes "\<And>a b c. R a b \<Longrightarrow> R b c \<Longrightarrow> R a c"
      and "list_all2 R xs ys" "list_all2 R ys zs"
  shows "list_all2 R xs zs"
  using assms(2,3) by (rule list_all2_trans [rotated]) (rule assms(1))

lemma link_step_refl: "link_step l l"
  by (simp add: link_step_def)

lemma link_step_trans: "link_step a b \<Longrightarrow> link_step b c \<Longrightarrow> link_step a c"
  by (auto simp: link_step_def)

lemma node_frame_refl: "node_frame n n"
  by (simp add: node_frame_def)

lemma node_frame_trans: "node_frame a b \<Longrightarrow> node_frame b c \<Longrightarrow> node_frame a c"
  by (simp add: node_frame_def)

lemma node_frame_step: "node_frame n n' \<Longrightarrow> node_step n n'"
  by (simp add: node_frame_def node_step_def list_all2_refl link_step_refl)

lemma node_step_refl: "node_step n n"
  by (simp add: node_frame_step node_frame_refl)

lemma node_step_trans: "node_step a b \<Longrightarrow> node_step b c \<Longrightarrow> node_step a c"
  unfolding node_step_def
  by (auto intro: list_all2_transI [of link_step] link_step_trans)

lemma layer_step_refl: "list_all2 node_step layer layer"
  by (simp add: list_all2_refl node_step_refl)

lemma layer_frame_refl: "list_all2 node_frame layer layer"
  by (simp add: list_all2_refl node_frame_refl)

lemma layer_frame_step: "list_all2 node_frame a b \<Longrightarrow> list_all2 node_step a b"
  by (erule list_all2_mono) (rule node_frame_step)

lemma layer_step_trans:
  "list_all2 node_step a b \<Longrightarrow> list_all2 node_step b c \<Longrightarrow> list_all2 node_step a c"
  by (rule list_all2_transI [of node_step]) (auto intro: node_step_trans)

lemma layer_frame_trans:
  "list_all2 node_frame a b \<Longrightarrow> list_all2 node_frame b c \<Longrightarrow> list_all2 node_frame a c"
  by (rule list_all2_transI [of node_frame]) (auto intro: node_frame_trans)

lemma net_step_refl: "net_step net net"
  by (simp add: net_step_def list_all2_refl layer_step_refl layer_frame_refl)

lemma net_step_trans:
  assumes "net_step a b" "net_step b c"
  shows "net_step a c"
proof -
  have ab: "list_all2 (list_all2 node_step) a b" and bc: "list_all2 (list_all2 node_step) b c"
    using assms by (simp_all add: net_step_def)
  have ac: "list_all2 (list_all2 node_step) a c"
    using ab bc by (rule list_all2_transI [of "list_all2 node_step", rotated]) (rule layer_step_trans)
  have len: "length a = length b" using ab by (rule list_all2_lengthD)
  show ?thesis
    unfolding net_step_def
  proof (intro conjI impI)
    show "list_all2 (list_all2 node_step) a c" by (rule ac)
  next
    assume "a \<noteq> []"
    with len have "b \<noteq> []" by auto
    with assms \<open>a \<noteq> []\<close> show "list_all2 node_frame (a ! 0) (c ! 0)"
      by (auto simp: net_step_def intro: layer_frame_trans)
  qed
qed

lemma net_step_update:
  assumes "k < length net \<Longrightarrow> list_all2 node_step (net ! k) layer'"
      and "k = 0 \<Longrightarrow> net \<noteq> [] \<Longrightarrow> list_all2 node_frame (net ! 0) layer'"
  shows "net_step net (net[k := layer'])"
  unfolding net_step_def
proof (intro conjI impI)
  show "list_all2 (list_all2 node_step) net (net[k := layer'])"
    unfolding list_all2_conv_all_nth [of "list_all2 node_step"]
  proof (intro conjI allI impI)
    show "length net = length (net[k := layer'])" by simp
  next
    fix i assume "i < length net"
    then show "list_all2 node_step (net ! i) (net[k := layer'] ! i)"
      using assms(1) by (cases "i = k") (simp_all add: layer_step_refl)
  qed
next
  assume "net \<noteq> []"
  then show "list_all2 node_frame (net ! 0) (net[k := layer'] ! 0)"
    using assms(2) by (cases "k = 0") (auto simp: layer_frame_refl)
qed

lemma net_step_fold:
  assumes "\<And>k s. k \<in> set ks \<Longrightarrow> net_step s (f k s)"
  shows "net_step s (fold f ks s)"
  using assms
proof (induction ks arbitrary: s)
  case Nil
  show ?case by (simp add: net_step_refl)
next
  case (Cons k ks)
  have "net_step s (f k s)" by (rule Cons.prems) simp
  moreover have "net_step (f k s) (fold f ks (f k s))"
    by (rule Cons.IH) (rule Cons.prems, simp)
  ultimately show ?case by (auto intro: net_step_trans)
qed

lemma list_all2_map_self: "(\<And>x. R x (f x)) \<Longrightarrow> list_all2 R xs (map f xs)"
  by (simp add: list_all2_map2 list_all2_same)

lemma list_all2_map2_self:
  "length xs = length ys \<Longrightarrow> (\<And>x y. R x (f x y)) \<Longrightarrow> list_all2 R xs (map2 f xs ys)"
  by (simp add: list_all2_conv_all_nth)

lemma list_all2_map_index_self:
  "(\<And>i x. R x (f i x)) \<Longrightarrow> list_all2 R xs (map (\<lambda>(i, x). f i x) (zip [0..<length xs] xs))"
  by (simp add: list_all2_conv_all_nth)

lemma bindE_Inr: "bindE m f = Inr y \<longleftrightarrow> (\<exists>x. m = Inr x \<and> f x = Inr y)"
  by (cases m) (simp_all add: bindE_def)

lemma foldE_rel:
  assumes "\<And>s. R s s" and "\<And>a b c. R a b \<Longrightarrow> R b c \<Longrightarrow> R a c"
      and "\<And>x s s'. x \<in> set xs \<Longrightarrow> f x s = Inr s' \<Longrightarrow> R s s'"
      and "foldE f xs s = Inr s'"
  shows "R s s'"
  using assms(3,4)
proof (induction xs arbitrary: s)
  case Nil
  then show ?case by (simp add: assms(1))
next
  case (Cons x xs)
  from Cons.prems(2) obtain s1 where s1: "f x s = Inr s1" "foldE f xs s1 = Inr s'"
    by (auto simp: bindE_Inr)
  have "R s s1" by (rule Cons.prems(1) [of x]) (simp_all add: s1(1))
  moreover have "R s1 s'"
  proof (rule Cons.IH)
    fix y t t' assume "y \<in> set xs" "f y t = Inr t'"
    then show "R t t'" by (intro Cons.prems(1) [of y]) simp_all
  next
    show "foldE f xs s1 = Inr s'" by (rule s1(2))
  qed
  ultimately show ?case by (rule assms(2))
qed

lemma mapE_rel: "mapE f xs = Inr ys \<Longrightarrow> list_all2 (\<lambda>x y. f x = Inr y) xs ys"
proof (induction xs arbitrary: ys)
  case Nil
  then show ?case by simp
next
  case (Cons x xs)
  then show ?case by (auto simp: bindE_Inr)
qed

lemma mapE_list_all2:
  "mapE f xs = Inr ys \<Longrightarrow> (\<And>x y. f x = Inr y \<Longrightarrow> R x y) \<Longrightarrow> list_all2 R xs ys"
  by (drule mapE_rel) (erule list_all2_mono)

lemma mapE_index_list_all2:
  assumes "mapE f (zip [0..<length xs] xs) = Inr ys"
      and "\<And>i x y. f (i, x) = Inr y \<Longrightarrow> R x y"
  shows "list_all2 R xs ys"
proof -
  have "list_all2 (\<lambda>p y. f p = Inr y) (zip [0..<length xs] xs) ys"
    using assms(1) by (rule mapE_rel)
  then show ?thesis
    using assms(2) by (auto simp: list_all2_conv_all_nth)
qed

lemma updateOutput_frame: "node_frame node (updateOutput prev node)"
  by (simp add: node_frame_def updateOutput_def Let_def)

lemma layerNormalization_frame: "list_all2 node_frame layer (layerNormalization layer)"
  unfolding layerNormalization_def Let_def
  by (rule list_all2_map_self) (simp add: node_frame_def)

lemma forwardLayer_step: "net_step net (forwardLayer normalization k net)"
proof -
  have "list_all2 node_frame (net ! k) (map (updateOutput prev) (net ! k))" for prev
    by (rule list_all2_map_self) (rule updateOutput_frame)
  then have "list_all2 node_frame (net ! k)
     (if c then layerNormalization (map (updateOutput prev) (net ! k))
      else map (updateOutput prev) (net ! k))" for c prev
    by (auto intro: layer_frame_trans layerNormalization_frame)
  then have F: "list_all2 node_frame (net ! k)
     (if normalization = ''Layer'' \<and> k < length net - 1
      then layerNormalization (map (updateOutput (net ! (k - 1))) (net ! k))
      else map (updateOutput (net ! (k - 1))) (net ! k))" .
  show ?thesis
    unfolding forwardLayer_def Let_def
  proof (rule net_step_update)
    show "list_all2 node_step (net ! k)
     (if normalization = ''Layer'' \<and> k < length net - 1
      then layerNormalization (map (updateOutput (net ! (k - 1))) (net ! k))
      else map (updateOutput (net ! (k - 1))) (net ! k))"
      by (rule layer_frame_step) (rule F)
  next
    assume "k = 0"
    with F show "list_all2 node_frame (net ! 0)
     (if normalization = ''Layer'' \<and> k < length net - 1
      then layerNormalization (map (updateOutput (net ! (k - 1))) (net ! k))
      else map (updateOutput (net ! (k - 1))) (net ! k))"
      by simp
  qed
qed

lemma snd_forwardProp:
  "snd (forwardProp net inputs normalization) =
     (case net of [] \<Rightarrow> net
      | inputLayer # _ \<Rightarrow>
          if length inputs \<noteq> length inputLayer then net
          else fold (forwardLayer normalization) [1..<length net]
                 (net[0 := map2 (\<lambda>node x. node\<lparr>output := x\<rparr>) inputLayer inputs]))"
  by (auto simp: forwardProp_def Let_def split: list.split)

lemma forwardProp_step: "net_step net (snd (forwardProp net inputs normalization))"
proof (cases net)
  case Nil
  then show ?thesis by (simp add: forwardProp_def net_step_refl)
next
  case (Cons inputLayer rest)
  show ?thesis
  proof (cases "length inputs = length inputLayer")
    case False
    with Cons show ?thesis by (simp add: forwardProp_def net_step_refl)
  next
    case True
    let ?net0 = "net[0 := map2 (\<lambda>node x. node\<lparr>output := x\<rparr>) inputLayer inputs]"
    have "list_all2 node_frame (net ! 0) (map2 (\<lambda>node x. node\<lparr>output := x\<rparr>) inputLayer inputs)"
      using True Cons by (auto intro!: list_all2_map2_self simp: node_frame_def)
    then have "net_step net ?net0"
      by (intro net_step_update layer_frame_step)
    moreover have "net_step ?net0 (fold (forwardLayer normalization) [1..<length net] ?net0)"
      by (rule net_step_fold) (rule forwardLayer_step)
    ultimately have "net_step net (fold (forwardLayer normalization) [1..<length net] ?net0)"
      by (rule net_step_trans)
    then show ?thesis
      unfolding snd_forwardProp using True Cons by (simp del: upt_Suc)
  qed
qed

lemma backInputDer_step: "node_step node (backInputDer node)"
  by (simp add: node_step_def backInputDer_def Let_def list_all2_refl link_step_refl)

lemma backLink_step: "link_step link (backLink prev node link)"
  by (simp add: link_step_def backLink_def Let_def link_acc_inv_def)

lemma backErrorDer_step: "node_step node (backErrorDer prev node)"
  by (simp add: node_step_def backErrorDer_def list_all2_map_self backLink_step)

lemma backOutputDer_frame: "node_frame node (backOutputDer currentLayer i node)"
  by (simp add: node_frame_def backOutputDer_def)

lemma backLayer_step:
  assumes "1 \<le> k"
  shows "net_step net (backLayer k net)"
proof -
  let ?prev = "net ! (k - 1)"
  let ?cur = "map (backErrorDer ?prev) (map backInputDer (net ! k))"
  let ?net1 = "net[k := ?cur]"
  have "list_all2 node_step (net ! k) ?cur"
    unfolding map_map
    by (rule list_all2_map_self) (auto intro: node_step_trans backInputDer_step backErrorDer_step)
  then have 1: "net_step net ?net1"
    using assms by (intro net_step_update) simp_all
  have "list_all2 node_frame (?net1 ! (k - 1))
          (map (\<lambda>(i, node). backOutputDer ?cur i node) (zip [0..<length ?prev] ?prev))"
    if "k - 1 < length ?net1"
  proof -
    have "?net1 ! (k - 1) = ?prev" using assms by simp
    then show ?thesis
      by (simp only:) (rule list_all2_map_index_self, rule backOutputDer_frame)
  qed
  then have "net_step ?net1 (?net1[k - 1 :=
          map (\<lambda>(i, node). backOutputDer ?cur i node) (zip [0..<length ?prev] ?prev)])"
    by (intro net_step_update layer_frame_step) auto
  with 1 show ?thesis
    unfolding backLayer_def Let_def by (auto intro: net_step_trans)
qed

lemma backProp_step: "net_step net (snd (backProp net target errorFunc))"
proof (cases "net = [] \<or> last net = []")
  case True
  then show ?thesis by (auto simp: backProp_def net_step_refl)
next
  case False
  then obtain outputNode others where last: "last net = outputNode # others"
    by (cases "last net") auto
  let ?net0 = "net[length net - 1 :=
                 outputNode\<lparr>outputDer := der errorFunc (output outputNode) target\<rparr> # others]"
  have nth: "net ! (length net - 1) = outputNode # others"
    using False last by (simp add: last_conv_nth)
  have "list_all2 node_frame (net ! (length net - 1))
          (outputNode\<lparr>outputDer := der errorFunc (output outputNode) target\<rparr> # others)"
    unfolding nth by (simp add: node_frame_def layer_frame_refl)
  then have "net_step net ?net0"
    by (intro net_step_update layer_frame_step) auto
  moreover have "net_step ?net0 (fold backLayer (rev [1..<length net]) ?net0)"
    by (rule net_step_fold) (rule backLayer_step, simp)
  ultimately show ?thesis
    using False last by (auto simp: backProp_def Let_def intro: net_step_trans)
qed

lemma updateLink_step: "link_step link (updateLink lr rr link)"
  by (simp add: link_step_def updateLink_def Let_def link_acc_inv_def)

lemma updateNode_step: "node_step node (updateNode lr rr node)"
  by (simp add: node_step_def updateNode_def Let_def list_all2_map_self updateLink_step)

lemma updateWeights_step: "net_step net (updateWeights net lr rr)"
  by (cases net)
     (simp_all add: updateWeights_def net_step_def layer_step_refl layer_frame_refl
        list_all2_map_self updateNode_step)

lemma updateLinkWithAdam_step: "link_step link (updateLinkWithAdam a rr t b1 b2 e link)"
  by (simp add: link_step_def updateLinkWithAdam_def Let_def link_acc_inv_def)

lemma updateNodeWithAdam_step: "node_step node (updateNodeWithAdam a rr t b1 b2 e node)"
  by (simp add: node_step_def updateNodeWithAdam_def Let_def list_all2_map_self
        updateLinkWithAdam_step)

lemma updateWeightsWithAdam_step: "net_step net (updateWeightsWithAdam net a rr t b1 b2 e)"
  by (cases net)
     (simp_all add: updateWeightsWithAdam_def net_step_def layer_step_refl layer_frame_refl
        list_all2_map_self updateNodeWithAdam_step)

lemma updateBatchSlot_frame: "updateBatchSlot prev i node = Inr node' \<Longrightarrow> node_frame node node'"
  by (auto simp: updateBatchSlot_def bindE_Inr Let_def node_frame_def)

lemma updateBatchOutput_frame:
  assumes "updateBatchOutput prev node = Inr node'"
  shows "node_frame node node'"
proof (cases "inputLinks node")
  case Nil
  with assms show ?thesis by (simp add: updateBatchOutput_def)
next
  case (Cons link0 links)
  with assms have "foldE (updateBatchSlot prev)
      [0..<length (batchOutput (prev ! source link0))] node = Inr node'"
    by (simp add: updateBatchOutput_def)
  then show ?thesis
    by (rule foldE_rel [where R = node_frame, rotated 3])
       (auto intro: node_frame_refl node_frame_trans updateBatchSlot_frame)
qed

lemma batchNormalization_frame: "node_frame node (batchNormalization node)"
  by (simp add: node_frame_def batchNormalization_def Let_def)

lemma batchInputLayer_frame:
  assumes "batchInputLayer input bni layer = Inr layer'"
  shows "list_all2 node_frame layer layer'"
  using assms unfolding batchInputLayer_def
  by (rule mapE_index_list_all2) (auto simp: bindE_Inr node_frame_def)

lemma batchLayer_frame:
  assumes "batchLayer isLast prev layer = Inr layer'"
  shows "list_all2 node_frame layer layer'"
  using assms unfolding batchLayer_def
proof (rule mapE_list_all2)
  fix x y
  assume "bindE (updateBatchOutput prev x)
            (\<lambda>node'. Inr (if isLast then node' else batchNormalization node')) = Inr y"
  then obtain n' where n': "updateBatchOutput prev x = Inr n'"
    and y: "y = (if isLast then n' else batchNormalization n')"
    by (auto simp: bindE_Inr)
  have "node_frame x n'" using n' by (rule updateBatchOutput_frame)
  moreover have "node_frame n' y"
    unfolding y by (simp add: node_frame_refl batchNormalization_frame)
  ultimately show "node_frame x y" by (rule node_frame_trans)
qed

lemma net_step_update_frame:
  "(k < length net \<Longrightarrow> list_all2 node_frame (net ! k) layer') \<Longrightarrow> net_step net (net[k := layer'])"
  by (rule net_step_update) (auto intro: layer_frame_step)

lemma batchStep_step:
  assumes "batchStep k p net = Inr net'"
  shows "net_step net net'"
proof (cases p)
  case (Pair input bni)
  show ?thesis
  proof (cases "k = 0")
    case True
    with assms Pair obtain layer where
      "batchInputLayer input bni (net ! 0) = Inr layer" "net' = net[0 := layer]"
      by (auto simp: batchStep_def bindE_Inr)
    then show ?thesis
      using True by (auto intro!: net_step_update_frame batchInputLayer_frame)
  next
    case False
    with assms Pair obtain layer where
      "batchLayer (k = length net - 1) (net ! (k - 1)) (net ! k) = Inr layer"
      "net' = net[k := layer]"
      by (auto simp: batchStep_def bindE_Inr)
    then show ?thesis
      by (auto intro!: net_step_update_frame batchLayer_frame)
  qed
qed

lemma foldE_net_step:
  "(\<And>x s s'. x \<in> set xs \<Longrightarrow> f x s = Inr s' \<Longrightarrow> net_step s s') \<Longrightarrow>
   foldE f xs s = Inr s' \<Longrightarrow> net_step s s'"
  by (rule foldE_rel [where R = net_step and f = f and xs = xs])
     (auto intro: net_step_refl net_step_trans)

lemma forwardPropWithBatch_step:
  assumes "forwardPropWithBatch net inputs = Inr (out, net')"
  shows "net_step net net'"
proof -
  have "foldE (\<lambda>layerIdx. foldE (batchStep layerIdx) (zip inputs [0..<length inputs]))
           [0..<length net] net = Inr net'"
  proof (cases inputs)
    case Nil
    with assms show ?thesis by (simp add: forwardPropWithBatch_def)
  next
    case ci: (Cons input0 inputs')
    show ?thesis
    proof (cases net)
      case Nil
      with assms ci show ?thesis by (simp add: forwardPropWithBatch_def)
    next
      case cn: (Cons inputLayer rest)
      from assms obtain net1 where
        "foldE (\<lambda>layerIdx. foldE (batchStep layerIdx) (zip inputs [0..<length inputs]))
           [0..<length net] net = Inr net1"
        "(case last net1 of [] \<Rightarrow> Inl TypeError
          | outputNode # _ \<Rightarrow> Inr (batchOutput outputNode, net1)) = Inr (out, net')"
        unfolding forwardPropWithBatch_def ci cn
        by (auto simp del: upt_Suc simp: bindE_Inr split: if_splits)
      then show ?thesis
        by (cases "last net1") auto
    qed
  qed
  then show ?thesis
    by (rule foldE_net_step [rotated]) (erule foldE_net_step [rotated], erule batchStep_step)
qed

lemma backInputDerBatch_step: "backInputDerBatch k node = Inr node' \<Longrightarrow> node_step node node'"
  by (auto simp: backInputDerBatch_def bindE_Inr Let_def node_step_def list_all2_refl
        link_step_refl)

lemma backLinkBatch_step: "backLinkBatch prev k node link = Inr link' \<Longrightarrow> link_step link link'"
  by (auto simp: backLinkBatch_def bindE_Inr Let_def link_step_def link_acc_inv_def
        split: if_splits)

lemma backErrorDerBatch_step:
  assumes "backErrorDerBatch prev k node = Inr node'"
  shows "node_step node node'"
proof -
  from assms obtain links where
    "mapE (backLinkBatch prev k node) (inputLinks node) = Inr links"
    "node' = node\<lparr>inputLinks := links\<rparr>"
    by (auto simp: backErrorDerBatch_def bindE_Inr)
  moreover from this(1) have "list_all2 link_step (inputLinks node) links"
    by (rule mapE_list_all2) (rule backLinkBatch_step)
  ultimately show ?thesis by (simp add: node_step_def)
qed

lemma backLayerBatch_step:
  assumes "1 \<le> k" and "backLayerBatch b k net = Inr net'"
  shows "net_step net net'"
proof -
  let ?prev = "net ! (k - 1)"
  from assms(2) obtain layer1 cur where
    l1: "mapE (backInputDerBatch b) (net ! k) = Inr layer1" and
    cur: "mapE (backErrorDerBatch ?prev b) layer1 = Inr cur" and
    net': "net' = (if k = 1 then net[k := cur]
                  else (net[k := cur])[k - 1 :=
                         map (\<lambda>(i, node). backOutputDer cur i node)
                           (zip [0..<length ?prev] ?prev)])"
    by (auto simp: backLayerBatch_def bindE_Inr Let_def)
  let ?net1 = "net[k := cur]"
  have "list_all2 node_step (net ! k) layer1"
    using l1 by (rule mapE_list_all2) (rule backInputDerBatch_step)
  moreover have "list_all2 node_step layer1 cur"
    using cur by (rule mapE_list_all2) (rule backErrorDerBatch_step)
  ultimately have "list_all2 node_step (net ! k) cur" by (rule layer_step_trans)
  then have 1: "net_step net ?net1"
    using assms(1) by (intro net_step_update) simp_all
  have "list_all2 node_frame (?net1 ! (k - 1))
          (map (\<lambda>(i, node). backOutputDer cur i node) (zip [0..<length ?prev] ?prev))"
    if "k - 1 < length ?net1"
  proof -
    have "?net1 ! (k - 1) = ?prev" using assms(1) by simp
    then show ?thesis
      by (simp only:) (rule list_all2_map_index_self, rule backOutputDer_frame)
  qed
  then have "net_step ?net1 (?net1[k - 1 :=
          map (\<lambda>(i, node). backOutputDer cur i node) (zip [0..<length ?prev] ?prev)])"
    by (rule net_step_update_frame)
  with 1 show ?thesis
    unfolding net' by (auto intro: net_step_trans)
qed

lemma backTarget_step:
  assumes "backTarget errorFunc p net = Inr net'"
  shows "net_step net net'"
proof (cases p)
  case (Pair target k)
  from assms Pair have ne: "net \<noteq> []"
    by (auto simp: backTarget_def split: if_splits)
  from assms Pair ne obtain outputNode others out where
    last: "last net = outputNode # others" and
    fold: "foldE (backLayerBatch k) (rev [1..<length net])
             (net[length net - 1 := outputNode\<lparr>outputDer := der errorFunc out target\<rparr> # others])
           = Inr net'"
    by (auto simp: backTarget_def bindE_Inr split: list.splits)
  let ?net0 = "net[length net - 1 := outputNode\<lparr>outputDer := der errorFunc out target\<rparr> # others]"
  have nth: "net ! (length net - 1) = outputNode # others"
    using ne last by (simp add: last_conv_nth)
  have "list_all2 node_frame (net ! (length net - 1))
          (outputNode\<lparr>outputDer := der errorFunc out target\<rparr> # others)"
    unfolding nth by (simp add: node_frame_def layer_frame_refl)
  then have "net_step net ?net0"
    by (intro net_step_update_frame)
  moreover have "net_step ?net0 net'"
    using fold by (rule foldE_net_step [rotated]) (rule backLayerBatch_step, auto)
  ultimately show ?thesis by (rule net_step_trans)
qed

lemma backPropWithBatch_step:
  "backPropWithBatch net targetBatch errorFunc = Inr net' \<Longrightarrow> net_step net net'"
  unfolding backPropWithBatch_def
  by (erule foldE_net_step [rotated]) (erule backTarget_step)

lemma do_call_step: "do_call c net = Some net' \<Longrightarrow> net_step net net'"
proof (cases c)
  case (ForwardProp inputs normalization)
  assume "do_call c net = Some net'"
  with ForwardProp show ?thesis by (auto intro: forwardProp_step)
next
  case (BackProp target errorFunc)
  assume "do_call c net = Some net'"
  with BackProp show ?thesis by (auto intro: backProp_step)
next
  case (UpdateWeights lr rr)
  assume "do_call c net = Some net'"
  with UpdateWeights show ?thesis by (auto intro: updateWeights_step)
next
  case (UpdateWeightsWithAdam lr rr t b1 b2 e)
  assume "do_call c net = Some net'"
  with UpdateWeightsWithAdam show ?thesis by (auto intro: updateWeightsWithAdam_step)
next
  case (ForwardPropWithBatch inputs)
  assume "do_call c net = Some net'"
  with ForwardPropWithBatch show ?thesis
    by (auto split: sum.splits error.splits intro: forwardPropWithBatch_step net_step_refl)
next
  case (BackPropWithBatch targetBatch errorFunc)
  assume "do_call c net = Some net'"
  with BackPropWithBatch show ?thesis
    by (auto split: sum.splits intro: backPropWithBatch_step)
qed

lemma run_step: "run cs net = Some net' \<Longrightarrow> net_step net net'"
proof (induction cs arbitrary: net)
  case Nil
  then show ?case by (simp add: net_step_refl)
next
  case (Cons c cs)
  then obtain net1 where "do_call c net = Some net1" "run cs net1 = Some net'"
    by (auto split: option.splits)
  then show ?case
    by (auto intro: net_step_trans do_call_step Cons.IH)
qed

lemma net_step_dead_link:
  assumes "net_step net net'"
      and "l < length net" "i < length (net ! l)" "j < length (inputLinks (net ! l ! i))"
  shows "l < length net' \<and> i < length (net' ! l) \<and> j < length (inputLinks (net' ! l ! i)) \<and>
         (isDead (inputLinks (net ! l ! i) ! j) \<longrightarrow>
            inputLinks (net' ! l ! i) ! j = inputLinks (net ! l ! i) ! j) \<and>
         (isDead (inputLinks (net' ! l ! i) ! j) \<longrightarrow>
            isDead (inputLinks (net ! l ! i) ! j) \<or> weight (inputLinks (net' ! l ! i) ! j) = 0)"
proof -
  from assms(1) have n: "list_all2 (list_all2 node_step) net net'"
    by (simp add: net_step_def)
  with assms(2) have l: "l < length net'" "list_all2 node_step (net ! l) (net' ! l)"
    by (auto simp: list_all2_conv_all_nth)
  with assms(3) have i: "i < length (net' ! l)" "node_step (net ! l ! i) (net' ! l ! i)"
    by (auto simp: list_all2_conv_all_nth)
  then have "list_all2 link_step (inputLinks (net ! l ! i)) (inputLinks (net' ! l ! i))"
    by (simp add: node_step_def)
  with assms(4) have j: "j < length (inputLinks (net' ! l ! i))"
    "link_step (inputLinks (net ! l ! i) ! j) (inputLinks (net' ! l ! i) ! j)"
    by (auto simp: list_all2_conv_all_nth)
  with l i show ?thesis by (simp add: link_step_def)
qed

lemma list_all2_list_all:
  "list_all2 R xs ys \<Longrightarrow> list_all P xs \<Longrightarrow> (\<And>x y. R x y \<Longrightarrow> P x \<Longrightarrow> Q y) \<Longrightarrow> list_all Q ys"
  by (auto simp: list_all2_conv_all_nth list_all_length)

lemma net_step_acc_inv:
  assumes "net_step net net'" "acc_inv net"
  shows "acc_inv net'"
proof -
  from assms(1) have n: "list_all2 (list_all2 node_step) net net'"
    and f: "net \<noteq> [] \<Longrightarrow> list_all2 node_frame (net ! 0) (net' ! 0)"
    by (simp_all add: net_step_def)
  have links: "list_all link_acc_inv ls'"
    if "list_all2 link_step ls ls'" "list_all link_acc_inv ls" for ls ls'
    using that by (rule list_all2_list_all) (simp add: link_step_def)
  have node: "node_acc_inv a'" if "node_step a a'" "node_acc_inv a" for a a'
    using that links [of "inputLinks a" "inputLinks a'"]
    by (simp add: node_step_def node_acc_inv_def)
  have layer: "list_all node_acc_inv la'"
    if "list_all2 node_step la la'" "list_all node_acc_inv la" for la la'
    using that by (rule list_all2_list_all) (rule node)
  have "list_all (list_all node_acc_inv) net" using assms(2) by (simp add: acc_inv_def)
  with n have 1: "list_all (list_all node_acc_inv) net'"
    by (rule list_all2_list_all) (rule layer)
  have 2: "list_all input_node_inv (net' ! 0)" if "net' \<noteq> []"
  proof -
    from n that have "net \<noteq> []" by auto
    with f assms(2) show ?thesis
      by (auto simp: acc_inv_def list_all2_conv_all_nth list_all_length node_frame_def
            input_node_inv_def)
  qed
  from 1 2 show ?thesis by (simp add: acc_inv_def)
qed

section \<open>Reachable networks keep the accumulator invariant\<close>

lemma acc_inv_run: "run calls network = Some net' \<Longrightarrow> acc_inv network \<Longrightarrow> acc_inv net'"
  by (blast intro: net_step_acc_inv run_step)

lemma acc_inv_buildNetwork:
  "acc_inv (buildNetwork networkShape act normalization outputActivation reg initZero rnd)"
proof -
  have link: "link_acc_inv (new_Link j reg initZero r)" for j r
    by (simp add: link_acc_inv_def new_Link_def)
  have node: "node_acc_inv ((new_Node a initZero)\<lparr>inputLinks := map f js\<rparr>)"
    if "\<And>j. link_acc_inv (f j)" for a f and js :: "nat list"
    using that by (simp add: node_acc_inv_def new_Node_def list_all_iff)
  have empty: "node_acc_inv ((new_Node a initZero)\<lparr>inputLinks := []\<rparr>)" for a
    by (simp add: node_acc_inv_def new_Node_def)
  have input: "input_node_inv ((new_Node a initZero)\<lparr>inputLinks := []\<rparr>)" for a
    by (simp add: input_node_inv_def new_Node_def)
  show ?thesis
    unfolding acc_inv_def buildNetwork_def Let_def
    by (auto simp: list_all_iff link node empty input)
qed

section \<open>Reachable networks are well-formed\<close>

text \<open>
  \<^verbatim>\<open>buildNetwork\<close> links every node to the nodes of the previous layer, and no call moves
  a link or a node; the node constructor leaves the batch arrays empty and sets both
  epsilons to \<open>1e-8\<close>.
\<close>

lemma wf_network_buildNetwork:
  "wf_network (buildNetwork networkShape act normalization outputActivation reg initZero rnd)"
  unfolding wf_network_def buildNetwork_def Let_def
  by (auto simp: new_Link_def)

lemma fresh_buildNetwork:
  "\<forall>layer \<in> set (buildNetwork networkShape act normalization outputActivation reg initZero rnd).
     \<forall>node \<in> set layer. batchOutput node = [] \<and> bnEpsilon node = 1 / 10 ^ 8 \<and>
                          lnEpsilon node = 1 / 10 ^ 8"
  unfolding buildNetwork_def Let_def
  by (auto simp: new_Node_def)

lemma net_step_wf:
  assumes "net_step network net'" "wf_network network"
  shows "wf_network net'"
  unfolding wf_network_def
proof (intro ballI)
  fix l node' link'
  assume l: "l \<in> {1..<length net'}" and n: "node' \<in> set (net' ! l)"
     and k: "link' \<in> set (inputLinks node')"
  from assms(1) have layers: "list_all2 (list_all2 node_step) network net'"
    by (simp add: net_step_def)
  then have len: "length net' = length network" by (simp add: list_all2_lengthD)
  from l len have l': "l < length network" "l - 1 < length network" "1 \<le> l" by auto
  from layers l'(1) have cur: "list_all2 node_step (network ! l) (net' ! l)"
    by (simp add: list_all2_conv_all_nth)
  from layers l'(2) have "list_all2 node_step (network ! (l - 1)) (net' ! (l - 1))"
    by (simp add: list_all2_conv_all_nth)
  then have prev: "length (net' ! (l - 1)) = length (network ! (l - 1))"
    by (simp add: list_all2_lengthD)
  from n obtain i where i: "i < length (net' ! l)" "node' = net' ! l ! i"
    by (auto simp: in_set_conv_nth)
  with cur have i': "i < length (network ! l)" and ns: "node_step (network ! l ! i) node'"
    by (auto simp: list_all2_conv_all_nth)
  from ns have links: "list_all2 link_step (inputLinks (network ! l ! i)) (inputLinks node')"
    by (simp add: node_step_def)
  from k obtain j where j: "j < length (inputLinks node')" "link' = inputLinks node' ! j"
    by (auto simp: in_set_conv_nth)
  with links have j': "j < length (inputLinks (network ! l ! i))"
    and src: "source link' = source (inputLinks (network ! l ! i) ! j)"
    by (auto simp: list_all2_conv_all_nth link_step_def)
  have "l \<in> {1..<length network}" using l' by simp
  moreover have "network ! l ! i \<in> set (network ! l)" using i' by (rule nth_mem)
  moreover have "inputLinks (network ! l ! i) ! j \<in> set (inputLinks (network ! l ! i))"
    using j' by (rule nth_mem)
  ultimately have "source (inputLinks (network ! l ! i) ! j) < length (network ! (l - 1))"
    using assms(2) unfolding wf_network_def by blast
  with src prev show "source link' < length (net' ! (l - 1))" by simp
qed

lemma wf_network_run: "run calls network = Some net' \<Longrightarrow> wf_network network \<Longrightarrow> wf_network net'"
  by (blast intro: net_step_wf run_step)

section \<open>Parameter update: the claims\<close>

lemma updateWeights_length: "length (updateWeights net lr rr) = length net"
  by (cases net) (simp_all add: updateWeights_def)

lemma updateWeights_nth0: "updateWeights net lr rr ! 0 = net ! 0"
  by (cases net) (simp_all add: updateWeights_def)

lemma updateWeights_nth:
  "1 \<le> l \<Longrightarrow> l < length net \<Longrightarrow>
   updateWeights net lr rr ! l = map (updateNode lr rr) (net ! l)"
  by (cases net) (auto simp: updateWeights_def nth_Cons')

lemma inputLinks_updateNode:
  "inputLinks (updateNode lr rr node) = map (updateLink lr rr) (inputLinks node)"
  by (simp add: updateNode_def Let_def)

lemma updateWeights_link:
  "1 \<le> l \<Longrightarrow> l < length net \<Longrightarrow> i < length (net ! l) \<Longrightarrow>
   j < length (inputLinks (net ! l ! i)) \<Longrightarrow>
   inputLinks (updateWeights net lr rr ! l ! i) ! j =
     updateLink lr rr (inputLinks (net ! l ! i) ! j)"
  by (simp add: updateWeights_nth inputLinks_updateNode)

lemma updateWeightsWithAdam_length:
  "length (updateWeightsWithAdam net a rr t b1 b2 e) = length net"
  by (cases net) (simp_all add: updateWeightsWithAdam_def)

lemma updateWeightsWithAdam_nth0: "updateWeightsWithAdam net a rr t b1 b2 e ! 0 = net ! 0"
  by (cases net) (simp_all add: updateWeightsWithAdam_def)

lemma updateWeightsWithAdam_nth:
  "1 \<le> l \<Longrightarrow> l < length net \<Longrightarrow>
   updateWeightsWithAdam net a rr t b1 b2 e ! l =
     map (updateNodeWithAdam a rr t b1 b2 e) (net ! l)"
  by (cases net) (auto simp: updateWeightsWithAdam_def nth_Cons')

lemma updateLink_reset:
  "link_acc_inv link \<Longrightarrow> \<not> isDead (updateLink lr rr link) \<Longrightarrow>
   accErrorDer (updateLink lr rr link) = 0 \<and> Link.numAccumulatedDers (updateLink lr rr link) = 0"
  by (auto simp: updateLink_def Let_def link_acc_inv_def split: if_splits)

lemma updateLinkWithAdam_reset:
  "link_acc_inv link \<Longrightarrow> \<not> isDead (updateLinkWithAdam a rr t b1 b2 e link) \<Longrightarrow>
   accErrorDer (updateLinkWithAdam a rr t b1 b2 e link) = 0 \<and>
   Link.numAccumulatedDers (updateLinkWithAdam a rr t b1 b2 e link) = 0"
  by (auto simp: updateLinkWithAdam_def Let_def link_acc_inv_def split: if_splits)

lemma updateNode_reset: "node_acc_inv node \<Longrightarrow> node_reset (updateNode lr rr node)"
  by (auto simp: node_reset_def node_acc_inv_def updateNode_def Let_def list_all_length
        updateLink_reset)

lemma updateNodeWithAdam_reset:
  "node_acc_inv node \<Longrightarrow> node_reset (updateNodeWithAdam a rr t b1 b2 e node)"
  by (auto simp: node_reset_def node_acc_inv_def updateNodeWithAdam_def Let_def list_all_length
        updateLinkWithAdam_reset)

lemma input_node_reset: "input_node_inv node \<Longrightarrow> node_reset node"
  by (simp add: input_node_inv_def node_reset_def)

text \<open>
  Claim C2, checked against the code. The specification says that the Adam update tests the
  zero crossing as the plain update does: it multiplies the candidate weight before the
  regularization term by the fully regularized weight and prunes when the product is
  negative. The code has already stored the fully regularized weight in \<^verbatim>\<open>link.weight\<close>
  when it tests, and it multiplies that by the same weight with the regularization term
  subtracted once more. For the link of weight 1/4 with a zero accumulated gradient, learning
  rate 1, regularization rate 1/2 and the default decay rates at iteration 1, the candidate is
  1/4 and the regularized weight is -1/4, so the product is negative; the code leaves the link
  alive with weight -1/4.
\<close>

theorem updateWeightsWithAdam_pruning_check:
  "adam_candidate 1 1 (9/10) (999/1000) (1 / 10 ^ 8) (inputLinks (l1_net (1/4) 0 ! 1 ! 0) ! 0) = 1/4 \<and>
   adam_regularized 1 (1/2) 1 (9/10) (999/1000) (1 / 10 ^ 8)
     (inputLinks (l1_net (1/4) 0 ! 1 ! 0) ! 0) = - 1/4 \<and>
   regularization (inputLinks (l1_net (1/4) 0 ! 1 ! 0) ! 0) = Some L1 \<and>
   \<not> isDead (inputLinks (l1_net (1/4) 0 ! 1 ! 0) ! 0) \<and>
   weight (inputLinks (updateWeightsWithAdam (l1_net (1/4) 0) 1 (1/2) 1 (9/10) (999/1000)
             (1 / 10 ^ 8) ! 1 ! 0) ! 0) = - 1/4 \<and>
   \<not> isDead (inputLinks (updateWeightsWithAdam (l1_net (1/4) 0) 1 (1/2) 1 (9/10) (999/1000)
               (1 / 10 ^ 8) ! 1 ! 0) ! 0)"
  by (simp add: l1_net_def l1_link_def new_Link_def new_Node_def updateWeightsWithAdam_def
        updateNodeWithAdam_def updateLinkWithAdam_def adam_candidate_def adam_regularized_def
        Let_def)

text \<open>
  Claim C4: the accumulator reset law. Take a network that keeps the accumulator invariant
  (every network the engine builds and works on does, by \<open>acc_inv_buildNetwork\<close> and
  \<open>acc_inv_run\<close>), and let \<open>net'\<close> be the network after \<^verbatim>\<open>updateWeights\<close> or after
  \<^verbatim>\<open>updateWeightsWithAdam\<close>. Every layer, every node and every link of the given network
  is still at its place in \<open>net'\<close>. There, every node of every layer has \<^verbatim>\<open>accInputDer\<close>
  and \<^verbatim>\<open>numAccumulatedDers\<close> equal to 0, and every link that is not dead has
  \<^verbatim>\<open>accErrorDer\<close> and \<^verbatim>\<open>numAccumulatedDers\<close> equal to 0. The witness is a node that
  has accumulated 3 over two examples, with a link that has accumulated 1/2 over one: the
  plain update and the Adam update both leave zeros in the node and in the link.
\<close>

theorem accumulator_reset:
  assumes "acc_inv network"
      and "net' = updateWeights network learningRate regularizationRate \<or>
           net' = updateWeightsWithAdam network learningRate regularizationRate
                    iteration beta1 beta2 epsilon"
      and "l < length network" "i < length (network ! l)"
  shows "length net' = length network \<and> length (net' ! l) = length (network ! l) \<and>
         length (inputLinks (net' ! l ! i)) = length (inputLinks (network ! l ! i)) \<and>
         accInputDer (net' ! l ! i) = 0 \<and> Node.numAccumulatedDers (net' ! l ! i) = 0 \<and>
         (\<forall>j < length (inputLinks (network ! l ! i)).
            \<not> isDead (inputLinks (net' ! l ! i) ! j) \<longrightarrow>
              accErrorDer (inputLinks (net' ! l ! i) ! j) = 0 \<and>
              Link.numAccumulatedDers (inputLinks (net' ! l ! i) ! j) = 0)"
proof -
  from assms(2) have len: "length net' = length network"
    by (auto simp: updateWeights_length updateWeightsWithAdam_length)
  have "length (net' ! l) = length (network ! l) \<and>
        length (inputLinks (net' ! l ! i)) = length (inputLinks (network ! l ! i)) \<and>
        node_reset (net' ! l ! i)"
  proof (cases "l = 0")
    case True
    with assms(2) have eq: "net' ! l = network ! l"
      by (auto simp: updateWeights_nth0 updateWeightsWithAdam_nth0)
    from assms(1,3) have "list_all input_node_inv (network ! 0)"
      by (auto simp: acc_inv_def)
    with assms(4) eq True show ?thesis
      by (simp add: list_all_length input_node_reset)
  next
    case False
    from assms(1,3) have inv: "list_all node_acc_inv (network ! l)"
      by (simp add: acc_inv_def list_all_length)
    from False assms(2,3) consider
      "net' ! l = map (updateNode learningRate regularizationRate) (network ! l)" |
      "net' ! l = map (updateNodeWithAdam learningRate regularizationRate
                         iteration beta1 beta2 epsilon) (network ! l)"
      by (auto simp: updateWeights_nth updateWeightsWithAdam_nth)
    then show ?thesis
    proof cases
      case 1
      with assms(4) inv show ?thesis
        by (simp add: list_all_length updateNode_reset inputLinks_updateNode)
    next
      case 2
      with assms(4) inv show ?thesis
        by (simp add: list_all_length updateNodeWithAdam_reset)
           (simp add: updateNodeWithAdam_def Let_def)
    qed
  qed
  with len show ?thesis by (simp add: node_reset_def)
qed

theorem accumulator_reset_witness:
  "acc_inv acc_net \<and>
   accInputDer (acc_net ! 1 ! 0) = 3 \<and> Node.numAccumulatedDers (acc_net ! 1 ! 0) = 2 \<and>
   accErrorDer (inputLinks (acc_net ! 1 ! 0) ! 0) = 1/2 \<and>
   Link.numAccumulatedDers (inputLinks (acc_net ! 1 ! 0) ! 0) = 1 \<and>
   length (updateWeights acc_net 1 0) = 2 \<and> length (updateWeights acc_net 1 0 ! 1) = 1 \<and>
   length (inputLinks (updateWeights acc_net 1 0 ! 1 ! 0)) = 1 \<and>
   accInputDer (updateWeights acc_net 1 0 ! 1 ! 0) = 0 \<and>
   Node.numAccumulatedDers (updateWeights acc_net 1 0 ! 1 ! 0) = 0 \<and>
   \<not> isDead (inputLinks (updateWeights acc_net 1 0 ! 1 ! 0) ! 0) \<and>
   accErrorDer (inputLinks (updateWeights acc_net 1 0 ! 1 ! 0) ! 0) = 0 \<and>
   Link.numAccumulatedDers (inputLinks (updateWeights acc_net 1 0 ! 1 ! 0) ! 0) = 0 \<and>
   length (updateWeightsWithAdam acc_net 1 0 1 (9/10) (999/1000) (1 / 10 ^ 8)) = 2 \<and> length (updateWeightsWithAdam acc_net 1 0 1 (9/10) (999/1000) (1 / 10 ^ 8) ! 1) = 1 \<and>
   length (inputLinks (updateWeightsWithAdam acc_net 1 0 1 (9/10) (999/1000) (1 / 10 ^ 8) ! 1 ! 0)) = 1 \<and>
   accInputDer (updateWeightsWithAdam acc_net 1 0 1 (9/10) (999/1000) (1 / 10 ^ 8) ! 1 ! 0) = 0 \<and>
   Node.numAccumulatedDers (updateWeightsWithAdam acc_net 1 0 1 (9/10) (999/1000) (1 / 10 ^ 8) ! 1 ! 0) = 0 \<and>
   \<not> isDead (inputLinks (updateWeightsWithAdam acc_net 1 0 1 (9/10) (999/1000) (1 / 10 ^ 8) ! 1 ! 0) ! 0) \<and>
   accErrorDer (inputLinks (updateWeightsWithAdam acc_net 1 0 1 (9/10) (999/1000) (1 / 10 ^ 8) ! 1 ! 0) ! 0) = 0 \<and>
   Link.numAccumulatedDers (inputLinks (updateWeightsWithAdam acc_net 1 0 1 (9/10) (999/1000) (1 / 10 ^ 8) ! 1 ! 0) ! 0) = 0"
proof -
  have inv: "acc_inv acc_net"
    by (simp add: acc_inv_def acc_net_def acc_link_def node_acc_inv_def link_acc_inv_def
          input_node_inv_def new_Node_def new_Link_def)
  have len: "1 < length acc_net" "0 < length (acc_net ! 1)"
    "length acc_net = 2" "length (acc_net ! 1) = 1" "length (inputLinks (acc_net ! 1 ! 0)) = 1"
    by (simp_all add: acc_net_def)
  have old: "accInputDer (acc_net ! 1 ! 0) = 3" "Node.numAccumulatedDers (acc_net ! 1 ! 0) = 2"
    "accErrorDer (inputLinks (acc_net ! 1 ! 0) ! 0) = 1/2"
    "Link.numAccumulatedDers (inputLinks (acc_net ! 1 ! 0) ! 0) = 1"
    by (simp_all add: acc_net_def acc_link_def new_Link_def)
  have alive: "\<not> isDead (inputLinks (updateWeights acc_net 1 0 ! 1 ! 0) ! 0)"
    "\<not> isDead (inputLinks (updateWeightsWithAdam acc_net 1 0 1 (9/10) (999/1000) (1 / 10 ^ 8)
                   ! 1 ! 0) ! 0)"
    by (simp_all add: acc_net_def acc_link_def new_Node_def new_Link_def updateWeights_def
          updateNode_def updateLink_def updateWeightsWithAdam_def updateNodeWithAdam_def
          updateLinkWithAdam_def Let_def)
  note plain = accumulator_reset [OF inv disjI1 [OF refl] len(1,2), of 1 0]
  note adam = accumulator_reset [OF inv disjI2 [OF refl] len(1,2), of 1 0 1 "9/10" "999/1000" "1 / 10 ^ 8"]
  from plain adam alive inv old len(3-5) show ?thesis by simp
qed

text \<open>
  Claim C5: dead-link monotonicity. Take any sequence of calls (forward, backward, plain
  update, Adam update, and their mini-batch variants) that runs on a network. Every link
  keeps its place, and a link that is dead at the start is the same link at the end, in every
  field: it is still dead, its weight has not changed, and neither have its accumulated
  derivative, its counter and its moment estimates, so it has taken no part in gradient
  accumulation or weight update. A link that is dead at the end and was alive at the start has
  weight 0: the update that kills a link sets its weight to 0.
\<close>

theorem dead_link_monotonicity:
  assumes "run calls network = Some net'"
      and "l < length network" "i < length (network ! l)"
      and "j < length (inputLinks (network ! l ! i))"
  shows "l < length net' \<and> i < length (net' ! l) \<and> j < length (inputLinks (net' ! l ! i)) \<and>
         (isDead (inputLinks (network ! l ! i) ! j) \<longrightarrow>
            inputLinks (net' ! l ! i) ! j = inputLinks (network ! l ! i) ! j) \<and>
         (isDead (inputLinks (net' ! l ! i) ! j) \<longrightarrow>
            isDead (inputLinks (network ! l ! i) ! j) \<or>
            weight (inputLinks (net' ! l ! i) ! j) = 0)"
  using assms(1) by (intro net_step_dead_link run_step assms(2-4))

theorem dead_link_monotonicity_witness:
  "isDead (inputLinks (dead_net ! 1 ! 0) ! 0) \<and> weight (inputLinks (dead_net ! 1 ! 0) ! 0) = 0 \<and>
   run dead_calls dead_net =
     Some (updateWeightsWithAdam
             (updateWeights (snd (backProp (snd (forwardProp dead_net [1] ''none'')) 1 SQUARE))
                1 (1/2))
             1 (1/2) 1 (9/10) (999/1000) (1 / 10 ^ 8)) \<and>
   inputLinks (updateWeightsWithAdam
             (updateWeights (snd (backProp (snd (forwardProp dead_net [1] ''none'')) 1 SQUARE))
                1 (1/2))
             1 (1/2) 1 (9/10) (999/1000) (1 / 10 ^ 8) ! 1 ! 0) ! 0 =
     inputLinks (dead_net ! 1 ! 0) ! 0"
proof -
  have dead: "isDead (inputLinks (dead_net ! 1 ! 0) ! 0)"
    "weight (inputLinks (dead_net ! 1 ! 0) ! 0) = 0"
    by (simp_all add: dead_net_def l1_net_def l1_link_def new_Node_def new_Link_def
          updateWeights_def updateNode_def updateLink_def Let_def)
  have len: "1 < length dead_net" "0 < length (dead_net ! 1)"
    "0 < length (inputLinks (dead_net ! 1 ! 0))"
    by (simp_all add: dead_net_def l1_net_def updateWeights_def updateNode_def Let_def
          new_Node_def)
  have run: "run dead_calls dead_net =
     Some (updateWeightsWithAdam
             (updateWeights (snd (backProp (snd (forwardProp dead_net [1] ''none'')) 1 SQUARE))
                1 (1/2))
             1 (1/2) 1 (9/10) (999/1000) (1 / 10 ^ 8))"
    by (simp add: dead_calls_def)
  from dead_link_monotonicity [OF run len] dead run show ?thesis by blast
qed

text \<open>
  Claim C6, as the code has it. In \<^verbatim>\<open>updateWeights\<close>, for a link that is not dead, has L1
  regularization and has accumulated gradients, let \<open>w\<close> be the weight after the gradient step.
  The candidate is \<open>newWeight = w - learningRate * regularizationRate * L1.der(weight)\<close>,
  where the derivative is taken at the weight the link had before the gradient step
  (\<^verbatim>\<open>regulDer\<close> is computed first). If \<open>w * newWeight < 0\<close> the link ends with weight 0 and
  dead; otherwise it adopts \<open>newWeight\<close> and stays alive. In particular a link whose weight is
  positive before and after the gradient step, and smaller after it than
  \<open>learningRate * regularizationRate\<close>, ends with weight 0 and dead.
\<close>

theorem updateWeights_L1_pruning:
  assumes "1 \<le> l" "l < length network" "i < length (network ! l)"
      and "j < length (inputLinks (network ! l ! i))"
      and "link = inputLinks (network ! l ! i) ! j"
      and "link' = inputLinks (updateWeights network learningRate regularizationRate ! l ! i) ! j"
      and "\<not> isDead link" "regularization link = Some L1" "Link.numAccumulatedDers link > 0"
      and "w = weight link - learningRate / real (Link.numAccumulatedDers link) * accErrorDer link"
      and "newWeight = w - learningRate * regularizationRate * regularization_der L1 (weight link)"
  shows "(w * newWeight < 0 \<longrightarrow> weight link' = 0 \<and> isDead link') \<and>
         (\<not> w * newWeight < 0 \<longrightarrow> weight link' = newWeight \<and> \<not> isDead link') \<and>
         (0 < weight link \<and> 0 < w \<and> w < learningRate * regularizationRate
            \<longrightarrow> weight link' = 0 \<and> isDead link')"
proof -
  have eq: "link' = updateLink learningRate regularizationRate link"
    using assms(1-6) by (simp add: updateWeights_link)
  have crossing: "w * newWeight < 0"
    if "0 < weight link" "0 < w" "w < learningRate * regularizationRate"
  proof -
    from that have "newWeight < 0" using assms(11) by simp
    with that(2) show ?thesis by (simp add: mult_pos_neg)
  qed
  show ?thesis
    using assms(7-11) crossing unfolding eq
    by (auto simp: updateLink_def Let_def)
qed

theorem updateWeights_L1_pruning_witness:
  "\<not> isDead (inputLinks (l1_net (1/4) 0 ! 1 ! 0) ! 0) \<and>
   regularization (inputLinks (l1_net (1/4) 0 ! 1 ! 0) ! 0) = Some L1 \<and>
   Link.numAccumulatedDers (inputLinks (l1_net (1/4) 0 ! 1 ! 0) ! 0) > 0 \<and>
   weight (inputLinks (l1_net (1/4) 0 ! 1 ! 0) ! 0) = 1/4 \<and>
   weight (inputLinks (updateWeights (l1_net (1/4) 0) 1 (1/2) ! 1 ! 0) ! 0) = 0 \<and>
   isDead (inputLinks (updateWeights (l1_net (1/4) 0) 1 (1/2) ! 1 ! 0) ! 0)"
  using updateWeights_L1_pruning [of 1 "l1_net (1/4) 0" 0 0 "l1_link (1/4) 0"
      "inputLinks (updateWeights (l1_net (1/4) 0) 1 (1/2) ! 1 ! 0) ! 0" 1 "1/2" "1/4" "-1/4"]
  by (simp add: l1_net_def l1_link_def new_Link_def)

text \<open>
  The claim as it is written takes the derivative at the weight after the gradient step. For
  the link of weight -1 whose accumulated derivative -5/4 carries it to 1/4, with learning
  rate 1 and regularization rate 1/2, that reading gives the candidate 1/4 - 1/2 = -1/4, a
  zero crossing, and so a dead link of weight 0. The code takes the derivative at -1, adopts
  1/4 + 1/2 = 3/4 and leaves the link alive.
\<close>

theorem updateWeights_L1_derivative_counterexample:
  "\<not> isDead (inputLinks (l1_net (-1) (-5/4) ! 1 ! 0) ! 0) \<and>
   regularization (inputLinks (l1_net (-1) (-5/4) ! 1 ! 0) ! 0) = Some L1 \<and>
   Link.numAccumulatedDers (inputLinks (l1_net (-1) (-5/4) ! 1 ! 0) ! 0) > 0 \<and>
   claimed_gradient_step 1 (inputLinks (l1_net (-1) (-5/4) ! 1 ! 0) ! 0) = 1/4 \<and>
   claimed_newWeight 1 (1/2) (inputLinks (l1_net (-1) (-5/4) ! 1 ! 0) ! 0) = - 1/4 \<and>
   weight (inputLinks (updateWeights (l1_net (-1) (-5/4)) 1 (1/2) ! 1 ! 0) ! 0) = 3/4 \<and>
   \<not> isDead (inputLinks (updateWeights (l1_net (-1) (-5/4)) 1 (1/2) ! 1 ! 0) ! 0)"
  by (simp add: l1_net_def l1_link_def new_Link_def new_Node_def updateWeights_def
        updateNode_def updateLink_def claimed_gradient_step_def claimed_newWeight_def Let_def)

section \<open>Shape checks: the claims\<close>

lemmas build_simps = buildNetwork_def new_Node_def new_Link_def upt_rec Let_def

text \<open>
  Claim C9. On a network with an input layer, \<^verbatim>\<open>forwardProp\<close> throws the shape-mismatch
  error exactly when the number of inputs differs from the number of input nodes, and the
  network it leaves behind is then the network it was given.
\<close>

theorem forwardProp_shape_mismatch:
  "network \<noteq> [] \<Longrightarrow>
   (fst (forwardProp network inputs normalization) = Inl ShapeMismatch
      \<longleftrightarrow> length inputs \<noteq> length (network ! 0)) \<and>
   (fst (forwardProp network inputs normalization) = Inl ShapeMismatch
      \<longrightarrow> snd (forwardProp network inputs normalization) = network)"
  by (cases network) (auto simp: forwardProp_def Let_def split: list.splits)

theorem forwardProp_shape_mismatch_witness:
  "net221 \<noteq> [] \<and> length (net221 ! 0) = 2 \<and>
   fst (forwardProp net221 [1, 2, 3] ''none'') = Inl ShapeMismatch \<and>
   snd (forwardProp net221 [1, 2, 3] ''none'') = net221"
  using forwardProp_shape_mismatch [of net221 "[1, 2, 3]" "''none''"]
  by (simp add: net221_def build_simps)

text \<open>
  Claim C3, checked against the code. The specification wants the shape-mismatch error
  whenever some vector of the batch has the wrong length. \<^verbatim>\<open>forwardPropWithBatch\<close> tests
  \<^verbatim>\<open>inputs[0].length\<close> only. On the network with two input nodes and one output node, the
  batch \<open>[[1, 2], [1, 2, 3]]\<close>, whose second vector has three entries, is accepted: the call
  returns the outputs \<open>[8/5, 8/5]\<close>.
\<close>

theorem forwardPropWithBatch_checks_first_only:
  "length (net21 ! 0) = 2 \<and> length ([1, 2, 3] :: real list) \<noteq> length (net21 ! 0) \<and>
   map_sum id fst (forwardPropWithBatch net21 [[1, 2], [1, 2, 3]]) = Inr [8/5, 8/5]"
  by (simp add: net21_def build_simps forwardPropWithBatch_def batchStep_def batchLayer_def
        batchInputLayer_def bindE_def js_get_def js_set_def updateBatchOutput_def
        updateBatchSlot_def batchTotalInput_def)

section \<open>Forward propagation, layer by layer\<close>

lemma fold_add: "fold (\<lambda>x t. t + f x) xs (b :: real) = b + sum_list (map f xs)"
  by (induction xs arbitrary: b) simp_all

lemma totalInput_updateOutput:
  "totalInput (updateOutput prev node) =
     bias node + (\<Sum>link\<leftarrow>inputLinks node. weight link * output (prev ! source link))"
  by (simp add: updateOutput_def Let_def fold_add)

lemma output_updateOutput:
  "output (updateOutput prev node) =
     activation_output (activation node)
       (bias node + (\<Sum>link\<leftarrow>inputLinks node. weight link * output (prev ! source link)))"
  by (simp add: updateOutput_def Let_def fold_add)

lemma ln_updateOutput:
  "lnGamma (updateOutput prev node) = lnGamma node"
  "lnBeta (updateOutput prev node) = lnBeta node"
  "lnEpsilon (updateOutput prev node) = lnEpsilon node"
  by (simp_all add: updateOutput_def Let_def)

lemma length_layerNormalization: "length (layerNormalization layer) = length layer"
  by (simp add: layerNormalization_def Let_def)

lemma output_layerNormalization:
  assumes "i < length layer"
  shows "output (layerNormalization layer ! i) =
     lnGamma (layer ! i) *
       ((output (layer ! i) - sum_list (map output layer) / real (length layer)) /
        sqrt ((\<Sum>x\<leftarrow>map output layer. (x - sum_list (map output layer) / real (length layer)) ^ 2)
                / real (length layer) + lnEpsilon (layer ! i)))
     + lnBeta (layer ! i)"
  using assms by (simp add: layerNormalization_def Let_def fold_add comp_def)

lemma length_forwardLayer: "length (forwardLayer normalization k net) = length net"
  by (simp add: forwardLayer_def Let_def)

lemma length_fold_forwardLayer: "length (fold (forwardLayer normalization) ks net) = length net"
  by (induction ks arbitrary: net) (simp_all add: length_forwardLayer)

lemma forwardLayer_other: "m \<noteq> k \<Longrightarrow> forwardLayer normalization k net ! m = net ! m"
  by (simp add: forwardLayer_def Let_def)

lemma fold_forwardLayer_other:
  "m \<notin> set ks \<Longrightarrow> fold (forwardLayer normalization) ks net ! m = net ! m"
  by (induction ks arbitrary: net) (auto simp: forwardLayer_other)

lemma forwardLayer_nth:
  "k < length net \<Longrightarrow>
   forwardLayer normalization k net ! k =
     (if normalization = ''Layer'' \<and> k < length net - 1
      then layerNormalization (map (updateOutput (net ! (k - 1))) (net ! k))
      else map (updateOutput (net ! (k - 1))) (net ! k))"
  by (simp add: forwardLayer_def Let_def)

lemma upt_split3: "a \<le> l \<Longrightarrow> l < b \<Longrightarrow> [a..<b] = [a..<l] @ l # [Suc l..<b]"
  by (metis le_Suc_ex less_imp_le_nat upt_add_eq_append upt_conv_Cons)

lemma fold_forwardLayer_nth:
  assumes "1 \<le> l" "l < length net"
      and r_def: "r = fold (forwardLayer normalization) [1..<length net] net"
  shows "r ! l =
     (if normalization = ''Layer'' \<and> l < length net - 1
      then layerNormalization (map (updateOutput (r ! (l - 1))) (net ! l))
      else map (updateOutput (r ! (l - 1))) (net ! l))"
    and "r ! 0 = net ! 0"
proof -
  let ?F = "forwardLayer normalization"
  let ?a = "fold ?F [1..<l] net"
  have split: "[1..<length net] = [1..<l] @ l # [Suc l..<length net]"
    using assms(1,2) by (rule upt_split3)
  have r: "r = fold ?F [Suc l..<length net] (?F l ?a)"
    unfolding r_def by (subst split) simp
  have la: "length ?a = length net" by (rule length_fold_forwardLayer)
  have rl: "r ! l = ?F l ?a ! l"
    unfolding r by (rule fold_forwardLayer_other) simp
  have rp: "r ! (l - 1) = ?a ! (l - 1)"
  proof -
    have "r ! (l - 1) = ?F l ?a ! (l - 1)"
      unfolding r using assms(1) by (intro fold_forwardLayer_other) auto
    also have "\<dots> = ?a ! (l - 1)"
      using assms(1) by (intro forwardLayer_other) simp
    finally show ?thesis .
  qed
  have al: "?a ! l = net ! l"
    by (rule fold_forwardLayer_other) simp
  show "r ! l =
     (if normalization = ''Layer'' \<and> l < length net - 1
      then layerNormalization (map (updateOutput (r ! (l - 1))) (net ! l))
      else map (updateOutput (r ! (l - 1))) (net ! l))"
  proof -
    have "l < length ?a" using assms(2) la by simp
    then have "?F l ?a ! l =
     (if normalization = ''Layer'' \<and> l < length ?a - 1
      then layerNormalization (map (updateOutput (?a ! (l - 1))) (?a ! l))
      else map (updateOutput (?a ! (l - 1))) (?a ! l))"
      by (rule forwardLayer_nth)
    then show ?thesis
      by (simp only: rl rp la al)
  qed
  show "r ! 0 = net ! 0"
    unfolding r_def by (rule fold_forwardLayer_other) simp
qed

lemma forwardProp_layer:
  assumes "length inputs = length (network ! 0)" "1 \<le> l" "l < length network"
      and "net' = snd (forwardProp network inputs normalization)"
  shows "net' ! l =
     (if normalization = ''Layer'' \<and> l < length network - 1
      then layerNormalization (map (updateOutput (net' ! (l - 1))) (network ! l))
      else map (updateOutput (net' ! (l - 1))) (network ! l))"
proof -
  from assms(3) obtain inputLayer rest where net: "network = inputLayer # rest"
    by (cases network) auto
  let ?net0 = "network[0 := map2 (\<lambda>node x. node\<lparr>output := x\<rparr>) inputLayer inputs]"
  have net': "net' = fold (forwardLayer normalization) [1..<length ?net0] ?net0"
    unfolding assms(4) snd_forwardProp using assms(1) net by (simp del: upt_Suc)
  have "net' ! l =
     (if normalization = ''Layer'' \<and> l < length ?net0 - 1
      then layerNormalization (map (updateOutput (net' ! (l - 1))) (?net0 ! l))
      else map (updateOutput (net' ! (l - 1))) (?net0 ! l))"
    using assms(2,3) by (intro fold_forwardLayer_nth(1) [OF _ _ net']) simp_all
  moreover have "?net0 ! l = network ! l" using assms(2) by simp
  ultimately show ?thesis by simp
qed

lemma forwardProp_input_layer:
  assumes "length inputs = length (network ! 0)" "network \<noteq> []" "i < length (network ! 0)"
  shows "snd (forwardProp network inputs normalization) ! 0 ! i = (network ! 0 ! i)\<lparr>output := inputs ! i\<rparr>"
proof -
  from assms(2) obtain inputLayer rest where net: "network = inputLayer # rest"
    by (cases network) auto
  let ?net0 = "network[0 := map2 (\<lambda>node x. node\<lparr>output := x\<rparr>) inputLayer inputs]"
  have "snd (forwardProp network inputs normalization) = fold (forwardLayer normalization) [1..<length ?net0] ?net0"
    unfolding snd_forwardProp using assms(1) net by (simp del: upt_Suc)
  then have "snd (forwardProp network inputs normalization) ! 0 = ?net0 ! 0"
    by (simp only:) (rule fold_forwardLayer_other, simp)
  then show ?thesis using assms net by simp
qed

text \<open>
  Claim C7, as the code has it. Let \<^verbatim>\<open>forwardProp\<close> run in mode \<open>Layer\<close> on an input
  of the length of the input layer. A node of the input layer ends with its input as its
  output. For a layer after the input layer, let \<open>raw\<close> be the outputs \<^verbatim>\<open>updateOutput\<close>
  computes for its nodes, \<open>mean\<close> their mean and \<open>variance\<close> their biased variance
  (divided by the number of nodes of the layer). If the layer is a hidden layer (it is not
  the last one), every node of it ends with the output
  \<open>lnGamma * ((raw - mean) / sqrt (variance + lnEpsilon)) + lnBeta\<close>, with its own
  \<open>lnGamma\<close>, \<open>lnBeta\<close> and \<open>lnEpsilon\<close>. If the layer is the last one, every node of it
  ends with its raw output: the output layer is never normalized. The witness is the
  scenario of the specification: raw outputs 1, 2, 3 with gamma 1 and beta 0 give mean 2,
  variance 2/3 and the outputs \<open>(1 - 2) / sqrt (2/3 + \<epsilon>)\<close>, 0, \<open>(3 - 2) / sqrt (2/3 + \<epsilon>)\<close>,
  while the input node keeps its input 5 and the output node its raw output 0.
\<close>

theorem layer_normalization:
  assumes "length inputs = length (network ! 0)"
      and "net' = snd (forwardProp network inputs ''Layer'')"
      and "l < length network" "i < length (network ! l)"
      and "raw = map (\<lambda>node. activation_output (activation node)
                     (bias node + (\<Sum>link\<leftarrow>inputLinks node.
                                     weight link * output (net' ! (l - 1) ! source link))))
                   (network ! l)"
      and "mean = sum_list raw / real (length raw)"
      and "variance = (\<Sum>x\<leftarrow>raw. (x - mean) ^ 2) / real (length raw)"
  shows "(l = 0 \<longrightarrow> output (net' ! l ! i) = inputs ! i) \<and>
         (1 \<le> l \<and> l < length network - 1 \<longrightarrow>
            output (net' ! l ! i) =
              lnGamma (network ! l ! i) *
                ((raw ! i - mean) / sqrt (variance + lnEpsilon (network ! l ! i)))
              + lnBeta (network ! l ! i)) \<and>
         (1 \<le> l \<and> l = length network - 1 \<longrightarrow> output (net' ! l ! i) = raw ! i)"
proof (intro conjI impI)
  assume l0: "l = 0"
  from assms(3) have ne: "network \<noteq> []" by auto
  from assms(4) l0 have i0: "i < length (network ! 0)" by simp
  show "output (net' ! l ! i) = inputs ! i"
    unfolding assms(2) l0 forwardProp_input_layer [OF assms(1) ne i0] by simp
next
  let ?layer = "map (updateOutput (net' ! (l - 1))) (network ! l)"
  assume l: "1 \<le> l \<and> l < length network - 1"
  then have l1: "1 \<le> l" by simp
  have "net' ! l = layerNormalization ?layer"
    using forwardProp_layer [OF assms(1) l1 assms(3,2)] l by simp
  then have "output (net' ! l ! i) = output (layerNormalization ?layer ! i)" by simp
  also have "\<dots> = lnGamma (?layer ! i) *
       ((output (?layer ! i) - sum_list (map output ?layer) / real (length ?layer)) /
        sqrt ((\<Sum>x\<leftarrow>map output ?layer. (x - sum_list (map output ?layer) / real (length ?layer)) ^ 2)
                / real (length ?layer) + lnEpsilon (?layer ! i)))
       + lnBeta (?layer ! i)"
    using assms(4) by (intro output_layerNormalization) simp
  also have "\<dots> = lnGamma (network ! l ! i) *
                ((raw ! i - mean) / sqrt (variance + lnEpsilon (network ! l ! i)))
              + lnBeta (network ! l ! i)"
  proof -
    have raw: "map output ?layer = raw"
      unfolding assms(5) by (simp add: output_updateOutput comp_def)
    have lenraw: "length ?layer = length raw" unfolding assms(5) by simp
    have rawi': "output (updateOutput (net' ! (l - 1)) (network ! l ! i)) = raw ! i"
      using assms(4) unfolding assms(5) by (simp add: output_updateOutput)
    have li: "?layer ! i = updateOutput (net' ! (l - 1)) (network ! l ! i)"
      using assms(4) by simp
    show ?thesis
      by (simp only: raw rawi' lenraw li ln_updateOutput assms(6,7) [symmetric])
  qed
  finally show "output (net' ! l ! i) =
              lnGamma (network ! l ! i) *
                ((raw ! i - mean) / sqrt (variance + lnEpsilon (network ! l ! i)))
              + lnBeta (network ! l ! i)" .
next
  let ?layer = "map (updateOutput (net' ! (l - 1))) (network ! l)"
  assume l: "1 \<le> l \<and> l = length network - 1"
  then have l1: "1 \<le> l" by simp
  have "net' ! l = ?layer"
    using forwardProp_layer [OF assms(1) l1 assms(3,2)] l by simp
  moreover have "output (?layer ! i) = raw ! i"
    using assms(4) unfolding assms(5) by (simp add: output_updateOutput)
  ultimately show "output (net' ! l ! i) = raw ! i" by simp
qed

theorem layer_normalization_witness:
  "length ln_net = 3 \<and>
   output (snd (forwardProp ln_net [5] ''Layer'') ! 0 ! 0) = 5 \<and>
   output (snd (forwardProp ln_net [5] ''Layer'') ! 1 ! 0) = (1 - 2) / sqrt (2/3 + 1 / 10 ^ 8) \<and>
   output (snd (forwardProp ln_net [5] ''Layer'') ! 1 ! 1) = 0 \<and>
   output (snd (forwardProp ln_net [5] ''Layer'') ! 1 ! 2) = (3 - 2) / sqrt (2/3 + 1 / 10 ^ 8) \<and>
   output (snd (forwardProp ln_net [5] ''Layer'') ! 2 ! 0) = 0"
proof -
  have fwd: "snd (forwardProp ln_net [5] ''Layer'') ! 0 = [(new_Node LINEAR True)\<lparr>output := 5\<rparr>]"
    by (simp add: ln_net_def forwardProp_def Let_def forwardLayer_def upt_rec)
  have raw: "[1, 2, 3] = map (\<lambda>node. activation_output (activation node)
                     (bias node + (\<Sum>link\<leftarrow>inputLinks node.
                        weight link * output (snd (forwardProp ln_net [5] ''Layer'') ! (1 - 1) ! source link))))
                   (ln_net ! 1)"
    by (simp add: fwd) (simp add: ln_net_def ln_hidden_def new_Node_def new_Link_def)
  have raw2: "[0] = map (\<lambda>node. activation_output (activation node)
                     (bias node + (\<Sum>link\<leftarrow>inputLinks node.
                        weight link * output (snd (forwardProp ln_net [5] ''Layer'') ! (2 - 1) ! source link))))
                   (ln_net ! 2)"
    by (simp add: ln_net_def ln_hidden_def new_Node_def new_Link_def)
  have mean: "(2 :: real) = sum_list [1, 2, 3] / real (length [1, 2, 3 :: real])" by simp
  have var: "(2/3 :: real) = (\<Sum>x\<leftarrow>[1, 2, 3]. (x - 2) ^ 2) / real (length [1, 2, 3 :: real])"
    by simp
  have len: "length [5 :: real] = length (ln_net ! 0)" "1 < length ln_net"
    "0 < length (ln_net ! 1)" "1 < length (ln_net ! 1)" "2 < length (ln_net ! 1)"
    "0 < length ln_net" "0 < length (ln_net ! 0)" "2 < length ln_net" "0 < length (ln_net ! 2)"
    "length ln_net = 3"
    by (simp_all add: ln_net_def)
  note hidden = layer_normalization [OF len(1) refl len(2) _ raw mean var]
  note input = layer_normalization [OF len(1) refl len(6,7) refl refl refl]
  note last = layer_normalization [OF len(1) refl len(8,9) raw2 refl refl]
  from hidden [OF len(3)] hidden [OF len(4)] hidden [OF len(5)] input last len(10)
  show ?thesis
    by (simp add: ln_net_def ln_hidden_def new_Node_def)
qed

text \<open>
  The claim says this of each layer that is not the last one. In a network of more than one
  layer the input layer is such a layer, and \<^verbatim>\<open>forwardProp\<close> only stores the inputs in it.
  On the network of shape [2, 2, 1] with the input \<open>[1, 2]\<close> in mode \<open>Layer\<close>, the first
  input node ends with the output 1, where layer normalization of the input layer, with
  mean 3/2 and variance 1/4, would leave \<open>(1 - 3/2) / sqrt (1/4 + \<epsilon>)\<close>, a negative number.
\<close>

theorem layer_normalization_input_layer_counterexample:
  "(0 :: nat) < length net221 - 1 \<and>
   output (snd (forwardProp net221 [1, 2] ''Layer'') ! 0 ! 0) = 1 \<and>
   output (layerNormalization (snd (forwardProp net221 [1, 2] ''Layer'') ! 0) ! 0) =
     (1 - 3/2) / sqrt (1/4 + 1 / 10 ^ 8) \<and>
   (1 - 3/2) / sqrt (1/4 + 1 / 10 ^ 8) < (0 :: real)"
proof -
  have len: "length [1, 2 :: real] = length (net221 ! 0)" "net221 \<noteq> []"
    "0 < length (net221 ! 0)" "1 < length (net221 ! 0)" "length net221 = 3"
    by (simp_all add: net221_def buildNetwork_def)
  have l0: "snd (forwardProp net221 [1, 2] ''Layer'') ! 0 =
     [(net221 ! 0 ! 0)\<lparr>output := 1\<rparr>, (net221 ! 0 ! 1)\<lparr>output := 2\<rparr>]"
  proof -
    have "net_step net221 (snd (forwardProp net221 [1, 2] ''Layer''))"
      by (rule forwardProp_step)
    then have "length (snd (forwardProp net221 [1, 2] ''Layer'') ! 0) = length (net221 ! 0)"
      using len(2) by (auto simp: net_step_def list_all2_conv_all_nth)
    then have "length (snd (forwardProp net221 [1, 2] ''Layer'') ! 0) = 2"
      using len(1) by simp
    then show ?thesis
      using forwardProp_input_layer [OF len(1,2,3), of "''Layer''"]
            forwardProp_input_layer [OF len(1,2,4), of "''Layer''"]
      by (auto simp: list_eq_iff_nth_eq less_Suc_eq numeral_2_eq_2)
  qed
  have a: "output (snd (forwardProp net221 [1, 2] ''Layer'') ! 0 ! 0) = 1"
    unfolding l0 by simp
  have b: "output (layerNormalization (snd (forwardProp net221 [1, 2] ''Layer'') ! 0) ! 0) =
     (1 - 3/2) / sqrt (1/4 + 1 / 10 ^ 8)"
    unfolding l0
    by (simp add: output_layerNormalization net221_def buildNetwork_def new_Node_def
          power2_eq_square)
  have c: "(1 - 3/2) / sqrt (1/4 + 1 / 10 ^ 8) < (0 :: real)"
    by (simp add: field_simps)
  from a b c len(5) show ?thesis by simp
qed
section \<open>The gradient of the 2-2-1 linear network\<close>

lemma linear221_cases:
  assumes "linear221 network"
  obtains a b c d e c0 c1 d0 d1 e0 e1 where
    "network = [[a, b], [c\<lparr>inputLinks := [c0, c1]\<rparr>, d\<lparr>inputLinks := [d0, d1]\<rparr>],
                [e\<lparr>inputLinks := [e0, e1]\<rparr>]]"
    "activation c = LINEAR" "activation d = LINEAR" "activation e = LINEAR"
    "fresh_link 0 c0" "fresh_link 1 c1" "fresh_link 0 d0" "fresh_link 1 d1"
    "fresh_link 0 e0" "fresh_link 1 e1"
proof -
  from assms obtain a b c d e where net: "network = [[a, b], [c, d], [e]]"
    and act: "activation c = LINEAR" "activation d = LINEAR" "activation e = LINEAR"
    and fl: "fresh_links c" "fresh_links d" "fresh_links e"
    by (auto simp: linear221_def split: list.splits)
  from fl obtain c0 c1 d0 d1 e0 e1 where
    links: "inputLinks c = [c0, c1]" "inputLinks d = [d0, d1]" "inputLinks e = [e0, e1]"
    and fr: "fresh_link 0 c0" "fresh_link 1 c1" "fresh_link 0 d0" "fresh_link 1 d1"
      "fresh_link 0 e0" "fresh_link 1 e1"
    by (auto simp: fresh_links_def split: list.splits)
  have "c = c\<lparr>inputLinks := [c0, c1]\<rparr>" "d = d\<lparr>inputLinks := [d0, d1]\<rparr>"
    "e = e\<lparr>inputLinks := [e0, e1]\<rparr>"
    using links by simp_all
  with net have "network = [[a, b], [c\<lparr>inputLinks := [c0, c1]\<rparr>, d\<lparr>inputLinks := [d0, d1]\<rparr>],
                [e\<lparr>inputLinks := [e0, e1]\<rparr>]]" by simp
  then show ?thesis using act fr by (rule that)
qed

lemma upt13: "[1..<3] = [1, 2]" by (simp add: upt_rec)
lemma rev_upt13: "rev [1..<3] = [2, 1]" by (simp add: upt_rec)
lemma upt02: "[0..<2] = [0, 1]" by (simp add: upt_rec)

lemma forward221:
  assumes "normalization \<noteq> ''Layer''"
      and "source c0 = 0" "source c1 = 1" "source d0 = 0" "source d1 = 1"
          "source e0 = 0" "source e1 = 1"
      and "activation c = LINEAR" "activation d = LINEAR" "activation e = LINEAR"
      and "hc1 = bias c + weight c0 * x0 + weight c1 * x1"
      and "hd1 = bias d + weight d0 * x0 + weight d1 * x1"
      and "out = bias e + weight e0 * hc1 + weight e1 * hd1"
  shows "forwardProp [[a, b], [c\<lparr>inputLinks := [c0, c1]\<rparr>, d\<lparr>inputLinks := [d0, d1]\<rparr>],
                [e\<lparr>inputLinks := [e0, e1]\<rparr>]] [x0, x1] normalization =
     (Inr out,
      [[a\<lparr>output := x0\<rparr>, b\<lparr>output := x1\<rparr>],
       [c\<lparr>inputLinks := [c0, c1], totalInput := hc1, output := hc1\<rparr>,
        d\<lparr>inputLinks := [d0, d1], totalInput := hd1, output := hd1\<rparr>],
       [e\<lparr>inputLinks := [e0, e1], totalInput := out, output := out\<rparr>]])"
  using assms
  by (simp add: forwardProp_def forwardLayer_def updateOutput_def Let_def upt13)


lemma backward221:
  assumes "source c0 = 0" "source c1 = 1" "source d0 = 0" "source d1 = 1"
          "source e0 = 0" "source e1 = 1"
      and "activation c = LINEAR" "activation d = LINEAR" "activation e = LINEAR"
      and "\<not> isDead c0" "\<not> isDead c1" "\<not> isDead d0" "\<not> isDead d1" "\<not> isDead e0" "\<not> isDead e1"
      and "net' = snd (backProp
        [[a\<lparr>output := x0\<rparr>, b\<lparr>output := x1\<rparr>],
         [c\<lparr>inputLinks := [c0, c1], totalInput := hc1, output := hc1\<rparr>,
          d\<lparr>inputLinks := [d0, d1], totalInput := hd1, output := hd1\<rparr>],
         [e\<lparr>inputLinks := [e0, e1], totalInput := out, output := out\<rparr>]] target SQUARE)"
  shows "accErrorDer (inputLinks (net' ! 2 ! 0) ! 0) = accErrorDer e0 + (out - target) * hc1"
    and "accErrorDer (inputLinks (net' ! 2 ! 0) ! 1) = accErrorDer e1 + (out - target) * hd1"
    and "accErrorDer (inputLinks (net' ! 1 ! 0) ! 0) = accErrorDer c0 + weight e0 * (out - target) * x0"
    and "accErrorDer (inputLinks (net' ! 1 ! 0) ! 1) = accErrorDer c1 + weight e0 * (out - target) * x1"
    and "accErrorDer (inputLinks (net' ! 1 ! 1) ! 0) = accErrorDer d0 + weight e1 * (out - target) * x0"
    and "accErrorDer (inputLinks (net' ! 1 ! 1) ! 1) = accErrorDer d1 + weight e1 * (out - target) * x1"
  using assms
  by (simp_all add: backProp_def backLayer_def backInputDer_def backErrorDer_def backLink_def
        backOutputDer_def outputs_def SQUARE_def Let_def rev_upt13 upt02)


lemma error221:
  assumes "normalization \<noteq> ''Layer''"
      and "source c0 = 0" "source c1 = 1" "source d0 = 0" "source d1 = 1"
          "source e0 = 0" "source e1 = 1"
      and "activation c = LINEAR" "activation d = LINEAR" "activation e = LINEAR"
  shows "networkError [[a, b], [c\<lparr>inputLinks := [c0, c1]\<rparr>, d\<lparr>inputLinks := [d0, d1]\<rparr>],
                [e\<lparr>inputLinks := [e0, e1]\<rparr>]] [x0, x1] normalization target =
         1/2 * (bias e + weight e0 * (bias c + weight c0 * x0 + weight c1 * x1)
                       + weight e1 * (bias d + weight d0 * x0 + weight d1 * x1) - target) ^ 2"
  unfolding networkError_def
  by (subst forward221 [OF assms refl refl refl]) (simp add: SQUARE_def)

lemma gradient221:
  fixes network :: network
  assumes norm: "normalization \<noteq> ''Layer''"
      and src: "source c0 = 0" "source c1 = 1" "source d0 = 0" "source d1 = 1"
          "source e0 = 0" "source e1 = 1"
      and act: "activation c = LINEAR" "activation d = LINEAR" "activation e = LINEAR"
      and alive: "\<not> isDead c0" "\<not> isDead c1" "\<not> isDead d0" "\<not> isDead d1"
          "\<not> isDead e0" "\<not> isDead e1"
      and fresh: "accErrorDer c0 = 0" "accErrorDer c1 = 0" "accErrorDer d0 = 0"
          "accErrorDer d1 = 0" "accErrorDer e0 = 0" "accErrorDer e1 = 0"
      and net: "network = [[a, b], [c\<lparr>inputLinks := [c0, c1]\<rparr>, d\<lparr>inputLinks := [d0, d1]\<rparr>],
                [e\<lparr>inputLinks := [e0, e1]\<rparr>]]"
      and net': "net' = snd (backProp (snd (forwardProp network [x0, x1] normalization)) target SQUARE)"
      and pos: "(l, i, j) \<in> {(1, 0, 0), (1, 0, 1), (1, 1, 0), (1, 1, 1), (2, 0, 0), (2, 0, 1)}"
  shows "((\<lambda>w. networkError (setWeight network l i j w) [x0, x1] normalization target)
           has_real_derivative accErrorDer (inputLinks (net' ! l ! i) ! j))
           (at (weight (inputLinks (network ! l ! i) ! j)))"
proof -
  define hc1 where "hc1 = bias c + weight c0 * x0 + weight c1 * x1"
  define hd1 where "hd1 = bias d + weight d0 * x0 + weight d1 * x1"
  define out where "out = bias e + weight e0 * hc1 + weight e1 * hd1"
  have fwd: "snd (forwardProp network [x0, x1] normalization) =
      [[a\<lparr>output := x0\<rparr>, b\<lparr>output := x1\<rparr>],
       [c\<lparr>inputLinks := [c0, c1], totalInput := hc1, output := hc1\<rparr>,
        d\<lparr>inputLinks := [d0, d1], totalInput := hd1, output := hd1\<rparr>],
       [e\<lparr>inputLinks := [e0, e1], totalInput := out, output := out\<rparr>]]"
    unfolding net by (subst forward221 [OF norm src act hc1_def hd1_def out_def]) simp
  note bwd = backward221 [OF src act alive net' [unfolded fwd], unfolded fresh]
  from pos consider "l = 1 \<and> i = 0 \<and> j = 0" | "l = 1 \<and> i = 0 \<and> j = 1" | "l = 1 \<and> i = 1 \<and> j = 0"
    | "l = 1 \<and> i = 1 \<and> j = 1" | "l = 2 \<and> i = 0 \<and> j = 0" | "l = 2 \<and> i = 0 \<and> j = 1"
    by auto
  then show ?thesis
  proof cases
    case 1
    have E: "networkError (setWeight network l i j w) [x0, x1] normalization target =
         1/2 * (bias e + weight e0 * (bias c + w * x0 + weight c1 * x1)
                       + weight e1 * hd1 - target) ^ 2" for w
      using 1 error221 [OF norm _ src(2-6) act, of "c0\<lparr>weight := w\<rparr>" a b x0 x1 target] src(1)
      by (simp add: setWeight_def net hd1_def)
    show ?thesis
      unfolding E using 1 bwd(3)
      by (auto intro!: derivative_eq_intros simp: net out_def hc1_def hd1_def)
  next
    case 2
    have E: "networkError (setWeight network l i j w) [x0, x1] normalization target =
         1/2 * (bias e + weight e0 * (bias c + weight c0 * x0 + w * x1)
                       + weight e1 * hd1 - target) ^ 2" for w
      using 2 error221 [OF norm src(1) _ src(3-6) act, of "c1\<lparr>weight := w\<rparr>" a b x0 x1 target] src(2)
      by (simp add: setWeight_def net hd1_def)
    show ?thesis
      unfolding E using 2 bwd(4)
      by (auto intro!: derivative_eq_intros simp: net out_def hc1_def hd1_def)
  next
    case 3
    have E: "networkError (setWeight network l i j w) [x0, x1] normalization target =
         1/2 * (bias e + weight e0 * hc1
                       + weight e1 * (bias d + w * x0 + weight d1 * x1) - target) ^ 2" for w
      using 3 error221 [OF norm src(1,2) _ src(4-6) act, of "d0\<lparr>weight := w\<rparr>" a b x0 x1 target] src(3)
      by (simp add: setWeight_def net hc1_def)
    show ?thesis
      unfolding E using 3 bwd(5)
      by (auto intro!: derivative_eq_intros simp: net out_def hc1_def hd1_def)
  next
    case 4
    have E: "networkError (setWeight network l i j w) [x0, x1] normalization target =
         1/2 * (bias e + weight e0 * hc1
                       + weight e1 * (bias d + weight d0 * x0 + w * x1) - target) ^ 2" for w
      using 4 error221 [OF norm src(1-3) _ src(5,6) act, of "d1\<lparr>weight := w\<rparr>" a b x0 x1 target] src(4)
      by (simp add: setWeight_def net hc1_def)
    show ?thesis
      unfolding E using 4 bwd(6)
      by (auto intro!: derivative_eq_intros simp: net out_def hc1_def hd1_def)
  next
    case 5
    have E: "networkError (setWeight network l i j w) [x0, x1] normalization target =
         1/2 * (bias e + w * hc1 + weight e1 * hd1 - target) ^ 2" for w
      using 5 error221 [OF norm src(1-4) _ src(6) act, of "e0\<lparr>weight := w\<rparr>" a b x0 x1 target] src(5)
      by (simp add: setWeight_def net hc1_def hd1_def)
    show ?thesis
      unfolding E using 5 bwd(1)
      by (auto intro!: derivative_eq_intros simp: net out_def)
  next
    case 6
    have E: "networkError (setWeight network l i j w) [x0, x1] normalization target =
         1/2 * (bias e + weight e0 * hc1 + w * hd1 - target) ^ 2" for w
      using 6 error221 [OF norm src(1-5) _ act, of "e1\<lparr>weight := w\<rparr>" a b x0 x1 target] src(6)
      by (simp add: setWeight_def net hc1_def hd1_def)
    show ?thesis
      unfolding E using 6 bwd(2)
      by (auto intro!: derivative_eq_intros simp: net out_def)
  qed
qed


lemma linear221_buildNetwork:
  "linear221 (buildNetwork [2, 2, 1] LINEAR normalization LINEAR reg initZero rnd)"
  by (simp add: linear221_def fresh_links_def fresh_link_def buildNetwork_def new_Node_def
        new_Link_def upt_rec Let_def)

text \<open>
  Claim C1, as the code has it: gradient correctness. Take the network of shape [2, 2, 1] with
  linear activation on every node, as \<^verbatim>\<open>buildNetwork\<close> makes it
  (\<open>linear221_buildNetwork\<close>: every link alive, nothing accumulated), with any weights and
  biases, any input vector of length 2, any target, and any normalization mode other than
  \<open>Layer\<close>. After \<^verbatim>\<open>forwardProp\<close> and \<^verbatim>\<open>backProp\<close> with the square error, the
  \<^verbatim>\<open>accErrorDer\<close> of every link is the derivative of the error at that input and target
  with respect to the weight of that link, the other weights being fixed.
\<close>

theorem gradient_correctness:
  assumes "linear221 network" "length inputs = 2" "normalization \<noteq> ''Layer''"
      and "net' = snd (backProp (snd (forwardProp network inputs normalization)) target SQUARE)"
      and "1 \<le> l" "l < length network" "i < length (network ! l)"
      and "j < length (inputLinks (network ! l ! i))"
  shows "(weightError network l i j inputs normalization target
           has_real_derivative accErrorDer (inputLinks (net' ! l ! i) ! j))
           (at (weight (inputLinks (network ! l ! i) ! j)))"
proof -
  from assms(1) obtain a b c d e c0 c1 d0 d1 e0 e1 where
    net: "network = [[a, b], [c\<lparr>inputLinks := [c0, c1]\<rparr>, d\<lparr>inputLinks := [d0, d1]\<rparr>],
                [e\<lparr>inputLinks := [e0, e1]\<rparr>]]"
    and act: "activation c = LINEAR" "activation d = LINEAR" "activation e = LINEAR"
    and fr: "fresh_link 0 c0" "fresh_link 1 c1" "fresh_link 0 d0" "fresh_link 1 d1"
      "fresh_link 0 e0" "fresh_link 1 e1"
    by (rule linear221_cases)
  from assms(2) obtain x0 x1 where inputs: "inputs = [x0, x1]"
    by (cases inputs; cases "tl inputs") auto
  have pos: "(l, i, j) \<in> {(1, 0, 0), (1, 0, 1), (1, 1, 0), (1, 1, 1), (2, 0, 0), (2, 0, 1)}"
    using assms(5-8) unfolding net
    by (auto simp: nth_Cons' less_Suc_eq numeral_2_eq_2 split: if_splits)
  show ?thesis
    unfolding inputs weightError_def
    using fr
    by (intro gradient221 [OF assms(3) _ _ _ _ _ _ act _ _ _ _ _ _ _ _ _ _ _ _ net
          assms(4) [unfolded inputs] pos])
       (simp_all add: fresh_link_def)
qed

theorem gradient_correctness_witness:
  "linear221 net221 \<and>
   weight (inputLinks (net221 ! 1 ! 0) ! 0) = 1/2 \<and>
   (weightError net221 1 0 0 [1, 2] ''none'' 1 has_real_derivative 7/20) (at (1/2))"
proof -
  have lin: "linear221 net221"
    unfolding net221_def by (rule linear221_buildNetwork)
  have w: "weight (inputLinks (net221 ! 1 ! 0) ! 0) = 1/2"
    by (simp add: net221_def buildNetwork_def new_Node_def new_Link_def upt_rec Let_def)
  have len: "length [1, 2 :: real] = 2" "''none'' \<noteq> ''Layer''" "(1 :: nat) \<le> 1"
    "1 < length net221" "0 < length (net221 ! 1)" "0 < length (inputLinks (net221 ! 1 ! 0))"
    by (simp_all add: net221_def buildNetwork_def new_Node_def new_Link_def upt_rec Let_def)
  have g: "accErrorDer (inputLinks (snd (backProp (snd (forwardProp net221 [1, 2] ''none'')) 1 SQUARE)
             ! 1 ! 0) ! 0) = 7/20"
    by (simp add: net221_def buildNetwork_def new_Node_def new_Link_def upt_rec Let_def
          forwardProp_def forwardLayer_def updateOutput_def backProp_def backLayer_def
          backInputDer_def backErrorDer_def backLink_def backOutputDer_def outputs_def SQUARE_def)
  have d: "(weightError net221 1 0 0 [1, 2] ''none'' 1
      has_real_derivative
        accErrorDer (inputLinks (snd (backProp (snd (forwardProp net221 [1, 2] ''none'')) 1 SQUARE)
             ! 1 ! 0) ! 0))
      (at (weight (inputLinks (net221 ! 1 ! 0) ! 0)))"
    by (rule gradient_correctness [OF lin len(1,2) refl len(3-6)])
  show ?thesis
    using lin w d [unfolded g w] by blast
qed

text \<open>
  The claim names no normalization mode, and in mode \<open>Layer\<close> it fails. On the network
  that \<^verbatim>\<open>buildNetwork\<close> makes with every weight 1/2 and every bias 1/10, at the input
  \<open>[1, 2]\<close> and the target 1, the two output weights are equal and the normalized hidden
  outputs sum to zero, so the output is 1/10 whatever the weight of the first link is: the
  error does not depend on it and its derivative is 0. \<^verbatim>\<open>backProp\<close>, which has no pass
  through the normalization, accumulates -9/20 on that link.
\<close>

lemma layerNormalization_pair:
  assumes "lnGamma x = 1" "lnGamma y = 1" "lnBeta x = 0" "lnBeta y = 0" "lnEpsilon x = lnEpsilon y"
  shows "output (layerNormalization [x, y] ! 0) + output (layerNormalization [x, y] ! Suc 0) = 0"
proof -
  define m where "m = (output x + output y) / 2"
  define s where "s = sqrt (((output x - m)\<^sup>2 + (output y - m)\<^sup>2) / 2 + lnEpsilon y)"
  have "output (layerNormalization [x, y] ! 0) = (output x - m) / s"
    "output (layerNormalization [x, y] ! Suc 0) = (output y - m) / s"
    using assms by (simp_all add: layerNormalization_def Let_def m_def s_def)
  moreover have "(output x - m) / s + (output y - m) / s = 0"
    unfolding add_divide_distrib [symmetric] by (simp add: m_def)
  ultimately show ?thesis by simp
qed

lemma net221_layer_error: "weightError net221 1 0 0 [1, 2] ''Layer'' 1 = (\<lambda>w. 81/200)"
proof
  fix w
  define x where "x = updateOutput
     [(new_Node LINEAR False)\<lparr>output := 1\<rparr>, (new_Node LINEAR False)\<lparr>output := 2\<rparr>]
     ((new_Node LINEAR False)\<lparr>inputLinks :=
         [(new_Link 0 None False 1)\<lparr>weight := w\<rparr>, new_Link 1 None False 1]\<rparr>)"
  define y where "y = updateOutput
     [(new_Node LINEAR False)\<lparr>output := 1\<rparr>, (new_Node LINEAR False)\<lparr>output := 2\<rparr>]
     ((new_Node LINEAR False)\<lparr>inputLinks :=
         [new_Link 0 None False 1, new_Link 1 None False 1]\<rparr>)"
  have xy: "lnGamma x = 1" "lnGamma y = 1" "lnBeta x = 0" "lnBeta y = 0" "lnEpsilon x = lnEpsilon y"
    by (simp_all add: x_def y_def updateOutput_def Let_def new_Node_def)
  have "fst (forwardProp (setWeight net221 1 0 0 w) [1, 2] ''Layer'') =
          Inr (1/10 + 1/2 * output (layerNormalization [x, y] ! 0)
                    + 1/2 * output (layerNormalization [x, y] ! Suc 0))"
    unfolding x_def y_def
    by (simp add: setWeight_def net221_def buildNetwork_def upt_rec Let_def forwardProp_def
          forwardLayer_def length_layerNormalization)
       (simp add: updateOutput_def Let_def new_Node_def new_Link_def)
  also have "1/10 + 1/2 * output (layerNormalization [x, y] ! 0)
                    + 1/2 * output (layerNormalization [x, y] ! Suc 0) = 1/10"
    using layerNormalization_pair [OF xy] by simp
  finally show "weightError net221 1 0 0 [1, 2] ''Layer'' 1 w = 81/200"
    by (simp add: weightError_def networkError_def SQUARE_def power2_eq_square)
qed

lemma net221_layer_backProp:
  "accErrorDer (inputLinks (snd (backProp (snd (forwardProp net221 [1, 2] ''Layer'')) 1 SQUARE)
             ! 1 ! 0) ! 0) = - 9/20"
  by (simp add: net221_def buildNetwork_def new_Node_def new_Link_def upt_rec Let_def
        forwardProp_def forwardLayer_def updateOutput_def layerNormalization_def
        backProp_def backLayer_def
        backInputDer_def backErrorDer_def backLink_def backOutputDer_def outputs_def SQUARE_def)

theorem gradient_layer_mode_counterexample:
  "linear221 net221 \<and>
   weight (inputLinks (net221 ! 1 ! 0) ! 0) = 1/2 \<and>
   \<not> (weightError net221 1 0 0 [1, 2] ''Layer'' 1
        has_real_derivative
          accErrorDer (inputLinks (snd (backProp (snd (forwardProp net221 [1, 2] ''Layer'')) 1 SQUARE)
             ! 1 ! 0) ! 0))
        (at (1/2))"
proof (intro conjI)
  show "linear221 net221"
    unfolding net221_def by (rule linear221_buildNetwork)
  show "weight (inputLinks (net221 ! 1 ! 0) ! 0) = 1/2"
    by (simp add: net221_def buildNetwork_def new_Node_def new_Link_def upt_rec Let_def)
  show "\<not> (weightError net221 1 0 0 [1, 2] ''Layer'' 1
        has_real_derivative
          accErrorDer (inputLinks (snd (backProp (snd (forwardProp net221 [1, 2] ''Layer'')) 1 SQUARE)
             ! 1 ! 0) ! 0))
        (at (1/2))"
  proof
    assume "(weightError net221 1 0 0 [1, 2] ''Layer'' 1
        has_real_derivative
          accErrorDer (inputLinks (snd (backProp (snd (forwardProp net221 [1, 2] ''Layer'')) 1 SQUARE)
             ! 1 ! 0) ! 0))
        (at (1/2))"
    then have "((\<lambda>w :: real. 81/200 :: real) has_real_derivative - 9/20) (at (1/2))"
      unfolding net221_layer_error net221_layer_backProp .
    moreover have "((\<lambda>w :: real. 81/200 :: real) has_real_derivative 0) (at (1/2))"
      by simp
    ultimately have "(- 9/20 :: real) = 0" by (rule DERIV_unique)
    then show False by simp
  qed
qed

section \<open>The mini-batch forward pass, layer by layer\<close>

lemma foldE_append: "foldE f (xs @ ys) s = bindE (foldE f xs s) (foldE f ys)"
  by (induction xs arbitrary: s) (simp_all add: bindE_def split: sum.splits)

lemma foldE_snoc_Inr:
  "foldE f (xs @ [x]) s = Inr s' \<longleftrightarrow> (\<exists>s1. foldE f xs s = Inr s1 \<and> f x s1 = Inr s')"
  by (simp add: foldE_append bindE_Inr)

lemma js_get_Inr: "js_get xs i = Inr x \<longleftrightarrow> i < length xs \<and> x = xs ! i"
  by (auto simp: js_get_def)

lemma js_set_Inr:
  "js_set xs i v = Inr ys \<longleftrightarrow>
     i \<le> length xs \<and> ys = (if i < length xs then xs[i := v] else xs @ [v])"
  by (auto simp: js_set_def)

lemma batchTotalInput_sum_aux:
  "foldE (\<lambda>link t. bindE (js_get (batchOutput (prev ! source link)) k)
                       (\<lambda>x. Inr (t + weight link * x))) links b = Inr ti \<Longrightarrow>
   ti = b + (\<Sum>link\<leftarrow>links. weight link * (batchOutput (prev ! source link) ! k))"
proof (induction links arbitrary: b)
  case Nil
  then show ?case by simp
next
  case (Cons link links)
  from Cons.prems obtain x where
    x: "js_get (batchOutput (prev ! source link)) k = Inr x"
    and rest: "foldE (\<lambda>link t. bindE (js_get (batchOutput (prev ! source link)) k)
                       (\<lambda>x. Inr (t + weight link * x))) links (b + weight link * x) = Inr ti"
    by (auto simp: bindE_Inr)
  from x have "x = batchOutput (prev ! source link) ! k" by (simp add: js_get_Inr)
  with Cons.IH [OF rest] show ?case by simp
qed

lemma batchTotalInput_sum:
  "batchTotalInput prev node k = Inr ti \<Longrightarrow>
   ti = bias node + (\<Sum>link\<leftarrow>inputLinks node. weight link * (batchOutput (prev ! source link) ! k))"
  unfolding batchTotalInput_def by (rule batchTotalInput_sum_aux)

lemma updateBatchSlot_result:
  assumes "updateBatchSlot prev k node = Inr node'"
  shows "batch_frame node node'"
    and "k \<le> length (batchOutput node)"
    and "batchOutput node' =
           (if k < length (batchOutput node) then (batchOutput node)[k := batchRaw prev node k]
            else batchOutput node @ [batchRaw prev node k])"
proof -
  from assms obtain ti tbi bo where
    ti: "batchTotalInput prev node k = Inr ti"
    and bo: "js_set (batchOutput node) k (activation_output (activation node) ti) = Inr bo"
    and node': "node' = node\<lparr>totalInput := ti, output := activation_output (activation node) ti,
                            totalBatchInput := tbi, batchOutput := bo\<rparr>"
    by (auto simp: updateBatchSlot_def bindE_Inr Let_def)
  have raw: "activation_output (activation node) ti = batchRaw prev node k"
    using batchTotalInput_sum [OF ti] by (simp add: batchRaw_def)
  show "batch_frame node node'" by (simp add: node' batch_frame_def)
  show "k \<le> length (batchOutput node)" using bo by (simp add: js_set_Inr)
  show "batchOutput node' =
           (if k < length (batchOutput node) then (batchOutput node)[k := batchRaw prev node k]
            else batchOutput node @ [batchRaw prev node k])"
    using bo unfolding raw by (simp add: node' js_set_Inr)
qed

lemma batch_frame_refl: "batch_frame n n"
  by (simp add: batch_frame_def)

lemma batch_frame_trans: "batch_frame a b \<Longrightarrow> batch_frame b c \<Longrightarrow> batch_frame a c"
  by (simp add: batch_frame_def)

lemma batchRaw_frame: "batch_frame node node' \<Longrightarrow> batchRaw prev node' k = batchRaw prev node k"
  by (simp add: batch_frame_def batchRaw_def)

lemma updateBatchSlots_result:
  "foldE (updateBatchSlot prev) [0..<m] node = Inr node' \<Longrightarrow>
   batch_frame node node' \<and>
   batchOutput node' = map (batchRaw prev node) [0..<m] @ drop m (batchOutput node)"
proof (induction m arbitrary: node')
  case 0
  then show ?case by (simp add: batch_frame_refl)
next
  case (Suc m)
  from Suc.prems obtain node1 where
    n1: "foldE (updateBatchSlot prev) [0..<m] node = Inr node1"
    and n': "updateBatchSlot prev m node1 = Inr node'"
    by (auto simp: foldE_snoc_Inr)
  from Suc.IH [OF n1] have f1: "batch_frame node node1"
    and b1: "batchOutput node1 = map (batchRaw prev node) [0..<m] @ drop m (batchOutput node)"
    by simp_all
  note r = updateBatchSlot_result [OF n']
  have raw: "batchRaw prev node1 m = batchRaw prev node m"
    using f1 by (rule batchRaw_frame)
  have "batchOutput node' =
          map (batchRaw prev node) [0..<Suc m] @ drop (Suc m) (batchOutput node)"
  proof (cases "m < length (batchOutput node)")
    case True
    then have "drop m (batchOutput node) = batchOutput node ! m # drop (Suc m) (batchOutput node)"
      by (simp add: Cons_nth_drop_Suc)
    with True show ?thesis
      using r(3) unfolding b1 raw by (simp add: list_update_append)
  next
    case False
    then show ?thesis
      using r(3) unfolding b1 raw by simp
  qed
  with f1 r(1) show ?case by (auto intro: batch_frame_trans)
qed

lemma updateBatchOutput_result:
  assumes "updateBatchOutput prev node = Inr node'"
  shows "\<exists>link0 links. inputLinks node = link0 # links \<and> batch_frame node node' \<and>
           batchOutput node' =
             map (batchRaw prev node) [0..<length (batchOutput (prev ! source link0))] @
             drop (length (batchOutput (prev ! source link0))) (batchOutput node)"
proof (cases "inputLinks node")
  case Nil
  with assms show ?thesis by (simp add: updateBatchOutput_def)
next
  case (Cons link0 links)
  with assms have "foldE (updateBatchSlot prev)
      [0..<length (batchOutput (prev ! source link0))] node = Inr node'"
    by (simp add: updateBatchOutput_def)
  from updateBatchSlots_result [OF this] Cons show ?thesis by simp
qed

lemma batchNormalization_result:
  "batchOutput (batchNormalization node) =
     map (\<lambda>x. bnGamma node *
                ((x - sum_list (batchOutput node) / real (length (batchOutput node))) /
                 sqrt ((\<Sum>y\<leftarrow>batchOutput node.
                          (y - sum_list (batchOutput node) / real (length (batchOutput node))) ^ 2)
                       / real (length (batchOutput node)) + bnEpsilon node))
              + bnBeta node)
       (batchOutput node)"
  by (simp add: batchNormalization_def Let_def fold_add [where f = "\<lambda>x. x", simplified] fold_add)

lemma batchNormalization_frame': "batch_frame node (batchNormalization node)"
  by (simp add: batch_frame_def batchNormalization_def Let_def)


lemma length_batchNormalization:
  "length (batchOutput (batchNormalization node)) = length (batchOutput node)"
  by (simp add: batchNormalization_def Let_def)

lemma batchOutput_batchNormalization_cong:
  "batchOutput a = batchOutput b \<Longrightarrow> bnGamma a = bnGamma b \<Longrightarrow> bnBeta a = bnBeta b \<Longrightarrow>
   bnEpsilon a = bnEpsilon b \<Longrightarrow>
   batchOutput (batchNormalization a) = batchOutput (batchNormalization b)"
  by (simp add: batchNormalization_def Let_def)

lemma batch_result_ready: "batch_result isLast prev n node node' \<Longrightarrow> batch_ready n node node'"
  by (auto simp: batch_result_def batch_ready_def length_batchNormalization)

lemma node_pass_result:
  assumes pass: "bindE (updateBatchOutput prev node1)
            (\<lambda>node'. Inr (if isLast then node' else batchNormalization node')) = Inr node2"
      and ready: "batch_ready n node node1"
      and src: "\<forall>link \<in> set (inputLinks node). source link < length prev"
      and len: "\<forall>p \<in> set prev. length (batchOutput p) = n"
  shows "batch_result isLast prev n node node2"
proof -
  from pass obtain node' where u: "updateBatchOutput prev node1 = Inr node'"
    and node2: "node2 = (if isLast then node' else batchNormalization node')"
    by (auto simp: bindE_Inr)
  from ready have f1: "batch_frame node node1" and l1: "length (batchOutput node1) \<le> n"
    by (simp_all add: batch_ready_def)
  from updateBatchOutput_result [OF u] obtain link0 links where
    links: "inputLinks node1 = link0 # links" and f': "batch_frame node1 node'"
    and bo: "batchOutput node' =
             map (batchRaw prev node1) [0..<length (batchOutput (prev ! source link0))] @
             drop (length (batchOutput (prev ! source link0))) (batchOutput node1)"
    by blast
  from f1 have "inputLinks node = inputLinks node1" by (simp add: batch_frame_def)
  with links have "link0 \<in> set (inputLinks node)" by simp
  with src have "source link0 < length prev" by blast
  with len have m: "length (batchOutput (prev ! source link0)) = n" by simp
  have raw: "batchRaw prev node1 = batchRaw prev node"
    using f1 by (auto simp: fun_eq_iff batchRaw_frame)
  have bo': "batchOutput node' = map (batchRaw prev node) [0..<n]"
    using bo l1 unfolding m raw by simp
  have f: "batch_frame node node'" using f1 f' by (rule batch_frame_trans)
  show ?thesis
  proof (cases isLast)
    case True
    with node2 f bo' show ?thesis by (simp add: batch_result_def)
  next
    case False
    have "batchOutput (batchNormalization node') =
          batchOutput (batchNormalization (node\<lparr>batchOutput := map (batchRaw prev node) [0..<n]\<rparr>))"
      using f bo' by (intro batchOutput_batchNormalization_cong) (simp_all add: batch_frame_def)
    moreover have "batch_frame node (batchNormalization node')"
      using f batchNormalization_frame' by (rule batch_frame_trans)
    ultimately show ?thesis using False node2 by (simp add: batch_result_def)
  qed
qed

lemma list_all2_nthI:
  "length xs = length ys \<Longrightarrow> (\<And>i. i < length xs \<Longrightarrow> R (xs ! i) (ys ! i)) \<Longrightarrow> list_all2 R xs ys"
  by (simp add: list_all2_conv_all_nth)

lemma layer_pass_result:
  assumes pass: "batchLayer isLast prev layer1 = Inr layer2"
      and ready: "list_all2 (batch_ready n) layer layer1"
      and src: "\<forall>node \<in> set layer. \<forall>link \<in> set (inputLinks node). source link < length prev"
      and len: "\<forall>p \<in> set prev. length (batchOutput p) = n"
  shows "list_all2 (batch_result isLast prev n) layer layer2"
proof -
  from pass have p: "list_all2 (\<lambda>x y. bindE (updateBatchOutput prev x)
            (\<lambda>node'. Inr (if isLast then node' else batchNormalization node')) = Inr y)
          layer1 layer2"
    unfolding batchLayer_def by (rule mapE_rel)
  show ?thesis
  proof (rule list_all2_nthI)
    show "length layer = length layer2"
      using p ready by (simp add: list_all2_lengthD)
  next
    fix i assume i: "i < length layer"
    with ready have i1: "i < length layer1" and r: "batch_ready n (layer ! i) (layer1 ! i)"
      by (simp_all add: list_all2_conv_all_nth)
    from p i1 have "bindE (updateBatchOutput prev (layer1 ! i))
            (\<lambda>node'. Inr (if isLast then node' else batchNormalization node')) = Inr (layer2 ! i)"
      by (simp add: list_all2_conv_all_nth)
    then show "batch_result isLast prev n (layer ! i) (layer2 ! i)"
      using r
    proof (rule node_pass_result)
      show "\<forall>link \<in> set (inputLinks (layer ! i)). source link < length prev"
        using src i by (meson nth_mem)
    qed (rule len)
  qed
qed

text \<open>The passes of one later layer: the callback is run once for each batch element.\<close>

lemma later_stage_result:
  assumes "foldE (batchStep l) ps s = Inr s'" "ps \<noteq> []" "1 \<le> l" "l < length s"
      and "list_all2 (batch_ready n) layer (s ! l)"
      and "\<forall>node \<in> set layer. \<forall>link \<in> set (inputLinks node). source link < length (s ! (l - 1))"
      and "\<forall>p \<in> set (s ! (l - 1)). length (batchOutput p) = n"
  shows "length s' = length s \<and> (\<forall>m. m \<noteq> l \<longrightarrow> s' ! m = s ! m) \<and>
         list_all2 (batch_result (l = length s - 1) (s ! (l - 1)) n) layer (s' ! l)"
  using assms
proof (induction ps arbitrary: s)
  case Nil
  then show ?case by simp
next
  case (Cons p ps)
  obtain input bni where p: "p = (input, bni)" by (cases p)
  from Cons.prems(1) obtain s1 where s1: "batchStep l p s = Inr s1"
    and rest: "foldE (batchStep l) ps s1 = Inr s'"
    by (auto simp: bindE_Inr)
  from s1 p Cons.prems(3) obtain layer2 where
    pass: "batchLayer (l = length s - 1) (s ! (l - 1)) (s ! l) = Inr layer2"
    and s1': "s1 = s[l := layer2]"
    by (auto simp: batchStep_def bindE_Inr)
  have res: "list_all2 (batch_result (l = length s - 1) (s ! (l - 1)) n) layer layer2"
    using pass Cons.prems(5,6,7) by (rule layer_pass_result)
  have same: "length s1 = length s" "\<And>m. m \<noteq> l \<Longrightarrow> s1 ! m = s ! m" "s1 ! l = layer2"
    using Cons.prems(4) by (simp_all add: s1')
  have prev: "s1 ! (l - 1) = s ! (l - 1)" using Cons.prems(3) by (intro same(2)) simp
  show ?case
  proof (cases "ps = []")
    case True
    with rest have "s' = s1" by simp
    with same res show ?thesis by simp
  next
    case False
    have "length s' = length s1 \<and> (\<forall>m. m \<noteq> l \<longrightarrow> s' ! m = s1 ! m) \<and>
         list_all2 (batch_result (l = length s1 - 1) (s1 ! (l - 1)) n) layer (s' ! l)"
    proof (rule Cons.IH [OF rest False Cons.prems(3)])
      show "l < length s1" using Cons.prems(4) same(1) by simp
      show "list_all2 (batch_ready n) layer (s1 ! l)"
        unfolding same(3) using res by (rule list_all2_mono) (rule batch_result_ready)
      show "\<forall>node\<in>set layer. \<forall>link\<in>set (inputLinks node). source link < length (s1 ! (l - 1))"
        unfolding prev by (rule Cons.prems(6))
      show "\<forall>p\<in>set (s1 ! (l - 1)). length (batchOutput p) = n"
        unfolding prev by (rule Cons.prems(7))
    qed
    then show ?thesis using same(1,2) prev by simp
  qed
qed


text \<open>A stage writes its own layer only.\<close>

lemma batchStep_other:
  assumes "batchStep k p s = Inr s'"
  shows "length s' = length s \<and> (\<forall>m. m \<noteq> k \<longrightarrow> s' ! m = s ! m)"
proof -
  obtain input bni where p: "p = (input, bni)" by (cases p)
  from assms p obtain layer where "s' = s[k := layer]"
    by (auto simp: batchStep_def bindE_Inr split: if_splits)
  then show ?thesis by simp
qed

lemma stage_other:
  assumes "foldE (batchStep k) ps s = Inr s'"
  shows "length s' = length s \<and> (\<forall>m. m \<noteq> k \<longrightarrow> s' ! m = s ! m)"
  using assms
  by (rule foldE_rel [where R = "\<lambda>s s'. length s' = length s \<and> (\<forall>m. m \<noteq> k \<longrightarrow> s' ! m = s ! m)",
        rotated 3])
     (auto dest: batchStep_other)

lemma stages_other:
  assumes "foldE (\<lambda>layerIdx. foldE (batchStep layerIdx) ps) ks s = Inr s'"
  shows "length s' = length s \<and> (\<forall>m. m \<notin> set ks \<longrightarrow> s' ! m = s ! m)"
  using assms
proof (rule foldE_rel [where R = "\<lambda>s s'. length s' = length s \<and> (\<forall>m. m \<notin> set ks \<longrightarrow> s' ! m = s ! m)",
        rotated 3])
  fix k t t' assume "k \<in> set ks" "foldE (batchStep k) ps t = Inr t'"
  from stage_other [OF this(2)] this(1)
  show "length t' = length t \<and> (\<forall>m. m \<notin> set ks \<longrightarrow> t' ! m = t ! m)" by auto
qed auto

lemma stages_split:
  assumes "foldE (\<lambda>layerIdx. foldE (batchStep layerIdx) ps) [0..<length net] net = Inr net'"
      and "l < length net"
  obtains s1 s2 where
    "foldE (\<lambda>layerIdx. foldE (batchStep layerIdx) ps) [0..<l] net = Inr s1"
    "foldE (batchStep l) ps s1 = Inr s2"
    "length s1 = length net" "s1 ! l = net ! l"
    "net' ! l = s2 ! l" "\<forall>m < l. net' ! m = s1 ! m" "length net' = length net"
proof -
  let ?stage = "\<lambda>layerIdx. foldE (batchStep layerIdx) ps"
  have split: "[0..<length net] = [0..<l] @ l # [Suc l..<length net]"
    using assms(2) by (intro upt_split3) simp_all
  from assms(1) obtain s1 s2 where
    s1: "foldE ?stage [0..<l] net = Inr s1" and s2: "?stage l s1 = Inr s2"
    and rest: "foldE ?stage [Suc l..<length net] s2 = Inr net'"
    unfolding split by (auto simp: foldE_append bindE_Inr)
  note o1 = stages_other [OF s1] and o2 = stage_other [OF s2] and o3 = stages_other [OF rest]
  show ?thesis
  proof (rule that [OF s1 s2])
    show "length s1 = length net" using o1 by simp
    show "s1 ! l = net ! l" using o1 by simp
    show "net' ! l = s2 ! l" using o3 by simp
    show "\<forall>m < l. net' ! m = s1 ! m"
    proof (intro allI impI)
      fix m assume m: "m < l"
      have "net' ! m = s2 ! m" using o3 m by simp
      also have "\<dots> = s1 ! m" using o2 m by simp
      finally show "net' ! m = s1 ! m" .
    qed
    show "length net' = length net" using o1 o2 o3 by simp
  qed
qed

text \<open>The passes of the input layer store the batch, one vector after the other.\<close>

lemma input_pass_result:
  assumes "batchInputLayer input bni layer = Inr layer'"
  shows "length layer' = length layer"
    and "\<And>i. i < length layer \<Longrightarrow>
           batch_frame (layer ! i) (layer' ! i) \<and> bni \<le> length (batchOutput (layer ! i)) \<and>
           batchOutput (layer' ! i) =
             (if bni < length (batchOutput (layer ! i))
              then (batchOutput (layer ! i))[bni := input ! i]
              else batchOutput (layer ! i) @ [input ! i])"
proof -
  let ?f = "\<lambda>(i, node). bindE (js_get input i) (\<lambda>x.
             bindE (js_set (batchOutput node) bni x) (\<lambda>bo. Inr (node\<lparr>batchOutput := bo\<rparr>)))"
  from assms have r: "list_all2 (\<lambda>p y. ?f p = Inr y) (zip [0..<length layer] layer) layer'"
    unfolding batchInputLayer_def by (rule mapE_rel)
  then show len: "length layer' = length layer"
    by (auto dest: list_all2_lengthD)
  fix i assume i: "i < length layer"
  with r have "?f (i, layer ! i) = Inr (layer' ! i)"
    by (auto simp: list_all2_conv_all_nth)
  then obtain x bo where x: "js_get input i = Inr x"
    and bo: "js_set (batchOutput (layer ! i)) bni x = Inr bo"
    and eq: "layer' ! i = (layer ! i)\<lparr>batchOutput := bo\<rparr>"
    by (auto simp: bindE_Inr)
  from x have "x = input ! i" by (simp add: js_get_Inr)
  with bo show "batch_frame (layer ! i) (layer' ! i) \<and> bni \<le> length (batchOutput (layer ! i)) \<and>
           batchOutput (layer' ! i) =
             (if bni < length (batchOutput (layer ! i))
              then (batchOutput (layer ! i))[bni := input ! i]
              else batchOutput (layer ! i) @ [input ! i])"
    unfolding eq by (simp add: js_set_Inr batch_frame_def)
qed

lemma input_stage_result:
  assumes "foldE (batchStep 0) (zip (take t inputs) [0..<t]) s = Inr s'"
      and "t \<le> length inputs" "s \<noteq> []"
  shows "length (s' ! 0) = length (s ! 0) \<and>
         (\<forall>i < length (s ! 0).
            batch_frame (s ! 0 ! i) (s' ! 0 ! i) \<and>
            batchOutput (s' ! 0 ! i) =
              map (\<lambda>input. input ! i) (take t inputs) @ drop t (batchOutput (s ! 0 ! i)))"
  using assms(1,2)
proof (induction t arbitrary: s')
  case 0
  then show ?case by (simp add: batch_frame_refl)
next
  case (Suc t)
  from Suc.prems(2) have t: "t < length inputs" by simp
  then have zip: "zip (take (Suc t) inputs) [0..<Suc t] =
                  zip (take t inputs) [0..<t] @ [(inputs ! t, t)]"
    by (simp add: take_Suc_conv_app_nth)
  from Suc.prems(1) obtain s1 where
    s1: "foldE (batchStep 0) (zip (take t inputs) [0..<t]) s = Inr s1"
    and step: "batchStep 0 (inputs ! t, t) s1 = Inr s'"
    unfolding zip by (auto simp: foldE_snoc_Inr)
  from Suc.IH [OF s1] t have len1: "length (s1 ! 0) = length (s ! 0)"
    and ih: "\<And>i. i < length (s ! 0) \<Longrightarrow>
            batch_frame (s ! 0 ! i) (s1 ! 0 ! i) \<and>
            batchOutput (s1 ! 0 ! i) =
              map (\<lambda>input. input ! i) (take t inputs) @ drop t (batchOutput (s ! 0 ! i))"
    by simp_all
  have ne1: "s1 \<noteq> []" using stage_other [OF s1] assms(3) by auto
  from step obtain layer where
    pass: "batchInputLayer (inputs ! t) t (s1 ! 0) = Inr layer" and s': "s' = s1[0 := layer]"
    by (auto simp: batchStep_def bindE_Inr)
  have s'0: "s' ! 0 = layer" using ne1 by (simp add: s')
  note r = input_pass_result [OF pass]
  show ?case
  proof (intro conjI allI impI)
    show "length (s' ! 0) = length (s ! 0)" using r(1) len1 by (simp add: s'0)
  next
    fix i assume i: "i < length (s ! 0)"
    then have i1: "i < length (s1 ! 0)" using len1 by simp
    from r(2) [OF i1] ih [OF i]
    show "batch_frame (s ! 0 ! i) (s' ! 0 ! i)"
      unfolding s'0 by (auto intro: batch_frame_trans)
    let ?bo = "batchOutput (s ! 0 ! i)"
    have b1: "batchOutput (s1 ! 0 ! i) = map (\<lambda>input. input ! i) (take t inputs) @ drop t ?bo"
      using ih [OF i] by simp
    have l1: "length (map (\<lambda>input. input ! i) (take t inputs)) = t" using t by simp
    show "batchOutput (s' ! 0 ! i) =
              map (\<lambda>input. input ! i) (take (Suc t) inputs) @ drop (Suc t) ?bo"
    proof (cases "t < length ?bo")
      case True
      then have "drop t ?bo = ?bo ! t # drop (Suc t) ?bo"
        by (simp add: Cons_nth_drop_Suc)
      with True show ?thesis
        using r(2) [OF i1] t unfolding s'0 b1
        by (simp add: list_update_append take_Suc_conv_app_nth)
    next
      case False
      then show ?thesis
        using r(2) [OF i1] t unfolding s'0 b1
        by (simp add: take_Suc_conv_app_nth)
    qed
  qed
qed


lemma forwardPropWithBatch_Inr:
  assumes "forwardPropWithBatch net inputs = Inr (out, net')"
  shows "inputs \<noteq> []" "net \<noteq> []"
    and "foldE (\<lambda>layerIdx. foldE (batchStep layerIdx) (zip inputs [0..<length inputs]))
           [0..<length net] net = Inr net'"
proof -
  show i: "inputs \<noteq> []" using assms by (auto simp: forwardPropWithBatch_def)
  show n: "net \<noteq> []" using assms by (auto simp: forwardPropWithBatch_def split: list.splits)
  from i n obtain input0 inputs' inputLayer rest where
    c: "inputs = input0 # inputs'" "net = inputLayer # rest"
    by (cases inputs; cases net) auto
  from assms obtain net1 where
    "foldE (\<lambda>layerIdx. foldE (batchStep layerIdx) (zip inputs [0..<length inputs]))
           [0..<length net] net = Inr net1"
    "(case last net1 of [] \<Rightarrow> Inl TypeError
      | outputNode # _ \<Rightarrow> Inr (batchOutput outputNode, net1)) = Inr (out, net')"
    unfolding forwardPropWithBatch_def c
    by (auto simp del: upt_Suc simp: bindE_Inr split: if_splits)
  then show "foldE (\<lambda>layerIdx. foldE (batchStep layerIdx) (zip inputs [0..<length inputs]))
           [0..<length net] net = Inr net'"
    by (cases "last net1") auto
qed

lemma stages_lengths:
  assumes "foldE (\<lambda>layerIdx. foldE (batchStep layerIdx) (zip inputs [0..<length inputs]))
             [0..<k] net = Inr s"
      and "k \<le> length net" "inputs \<noteq> []" "wf_network net"
      and "\<forall>layer \<in> set net. \<forall>node \<in> set layer. length (batchOutput node) \<le> length inputs"
  shows "\<forall>m < k. length (s ! m) = length (net ! m) \<and>
                  (\<forall>y \<in> set (s ! m). length (batchOutput y) = length inputs)"
  using assms(1,2)
proof (induction k arbitrary: s)
  case 0
  then show ?case by simp
next
  case (Suc k)
  let ?n = "length inputs"
  let ?ps = "zip inputs [0..<?n]"
  let ?stage = "\<lambda>layerIdx. foldE (batchStep layerIdx) ?ps"
  from Suc.prems(1) obtain sk where
    sk: "foldE ?stage [0..<k] net = Inr sk" and st: "?stage k sk = Inr s"
    by (auto simp: foldE_snoc_Inr)
  from Suc.prems(2) have k: "k < length net" and kle: "k \<le> length net" by simp_all
  note ih = Suc.IH [OF sk kle, rule_format] and o1 = stages_other [OF sk] and o2 = stage_other [OF st]
  have skk: "sk ! k = net ! k" using o1 by simp
  have lsk: "length sk = length net" using o1 by simp
  have netk: "net ! k \<in> set net" using k by simp
  have fresh: "length (batchOutput y) \<le> ?n" if "y \<in> set (net ! k)" for y
    using assms(5) netk that by blast
  have new: "length (s ! k) = length (net ! k) \<and>
             (\<forall>y \<in> set (s ! k). length (batchOutput y) = ?n)"
  proof (cases "k = 0")
    case True
    with sk have sk0: "sk = net" by simp
    have "foldE (batchStep 0) (zip (take ?n inputs) [0..<?n]) net = Inr s"
      using st True sk0 by simp
    moreover have "net \<noteq> []" using k by auto
    ultimately have "length (s ! 0) = length (net ! 0) \<and>
         (\<forall>i < length (net ! 0).
            batch_frame (net ! 0 ! i) (s ! 0 ! i) \<and>
            batchOutput (s ! 0 ! i) =
              map (\<lambda>input. input ! i) (take ?n inputs) @ drop ?n (batchOutput (net ! 0 ! i)))"
      by (intro input_stage_result) simp_all
    then have len: "length (s ! 0) = length (net ! 0)"
      and bo: "\<And>i. i < length (net ! 0) \<Longrightarrow>
                batchOutput (s ! 0 ! i) =
                  map (\<lambda>input. input ! i) inputs @ drop ?n (batchOutput (net ! 0 ! i))"
      by auto
    have "length (batchOutput y) = ?n" if "y \<in> set (s ! 0)" for y
    proof -
      from that len obtain i where i: "i < length (net ! 0)" "y = s ! 0 ! i"
        by (auto simp: in_set_conv_nth)
      then have "net ! 0 ! i \<in> set (net ! k)" using True by simp
      from fresh [OF this] bo [OF i(1)] i(2) show ?thesis by simp
    qed
    with len True show ?thesis by simp
  next
    case False
    then have k1: "1 \<le> k" by simp
    have ps: "?ps \<noteq> []" using assms(3) by (cases inputs) (simp_all add: upt_rec)
    have ready: "list_all2 (batch_ready ?n) (net ! k) (sk ! k)"
      unfolding skk
      by (rule list_all2_nthI) (simp_all add: batch_ready_def batch_frame_refl fresh)
    have src: "\<forall>node \<in> set (net ! k). \<forall>link \<in> set (inputLinks node).
                 source link < length (sk ! (k - 1))"
    proof -
      have "length (sk ! (k - 1)) = length (net ! (k - 1))"
        using ih [of "k - 1"] k1 by simp
      moreover have "\<forall>node \<in> set (net ! k). \<forall>link \<in> set (inputLinks node).
                 source link < length (net ! (k - 1))"
        using assms(4) k k1 by (simp add: wf_network_def)
      ultimately show ?thesis by simp
    qed
    have len: "\<forall>p \<in> set (sk ! (k - 1)). length (batchOutput p) = ?n"
      using ih [of "k - 1"] k1 by simp
    have "list_all2 (batch_result (k = length sk - 1) (sk ! (k - 1)) ?n) (net ! k) (s ! k)"
      using later_stage_result [OF st ps k1 _ ready src len] k lsk by simp
    then have l2: "length (s ! k) = length (net ! k)"
      and r: "\<And>i. i < length (net ! k) \<Longrightarrow>
                batch_result (k = length sk - 1) (sk ! (k - 1)) ?n (net ! k ! i) (s ! k ! i)"
      by (simp_all add: list_all2_conv_all_nth)
    have "length (batchOutput y) = ?n" if "y \<in> set (s ! k)" for y
    proof -
      from that l2 obtain i where i: "i < length (net ! k)" "y = s ! k ! i"
        by (auto simp: in_set_conv_nth)
      from r [OF i(1)] show ?thesis
        unfolding i(2) by (auto simp: batch_result_def length_batchNormalization)
    qed
    with l2 show ?thesis by simp
  qed
  show ?case
  proof (intro allI impI)
    fix m assume "m < Suc k"
    then consider "m < k" | "m = k" by linarith
    then show "length (s ! m) = length (net ! m) \<and>
               (\<forall>y \<in> set (s ! m). length (batchOutput y) = ?n)"
    proof cases
      case 1
      then have "s ! m = sk ! m" using o2 by simp
      with ih [OF 1] show ?thesis by simp
    next
      case 2
      with new show ?thesis by simp
    qed
  qed
qed

lemma forwardPropWithBatch_layer:
  assumes ok: "forwardPropWithBatch net inputs = Inr (out, net')"
      and wf: "wf_network net"
      and fresh: "\<forall>layer \<in> set net. \<forall>node \<in> set layer. length (batchOutput node) \<le> length inputs"
      and l: "1 \<le> l" "l < length net" and i: "i < length (net ! l)"
  shows "batch_result (l = length net - 1) (net' ! (l - 1)) (length inputs)
           (net ! l ! i) (net' ! l ! i)"
proof -
  let ?n = "length inputs"
  let ?ps = "zip inputs [0..<?n]"
  note f = forwardPropWithBatch_Inr [OF ok]
  from f(3) l(2) obtain s1 s2 where
    s1: "foldE (\<lambda>layerIdx. foldE (batchStep layerIdx) ?ps) [0..<l] net = Inr s1"
    and s2: "foldE (batchStep l) ?ps s1 = Inr s2"
    and s1l: "length s1 = length net" "s1 ! l = net ! l"
    and n': "net' ! l = s2 ! l" "\<forall>m < l. net' ! m = s1 ! m"
    and ln': "length net' = length net"
    by (rule stages_split)
  have lens: "\<forall>m < l. length (s1 ! m) = length (net ! m) \<and>
                  (\<forall>y \<in> set (s1 ! m). length (batchOutput y) = ?n)"
    using s1 _ f(1) wf fresh by (rule stages_lengths) (use l(2) in simp)
  have prev: "net' ! (l - 1) = s1 ! (l - 1)" using l(1) n'(2) by simp
  have ps: "?ps \<noteq> []" using f(1) by (cases inputs) (simp_all add: upt_rec)
  have netl: "net ! l \<in> set net" using l(2) by simp
  have ready: "list_all2 (batch_ready ?n) (net ! l) (s1 ! l)"
    unfolding s1l(2)
  proof (rule list_all2_nthI)
    fix j assume "j < length (net ! l)"
    then have "net ! l ! j \<in> set (net ! l)" by simp
    with fresh netl show "batch_ready ?n (net ! l ! j) (net ! l ! j)"
      by (auto simp: batch_ready_def batch_frame_refl)
  qed simp
  have src: "\<forall>node \<in> set (net ! l). \<forall>link \<in> set (inputLinks node).
                 source link < length (s1 ! (l - 1))"
  proof -
    have "l - 1 < l" using l(1) by simp
    with lens have "length (s1 ! (l - 1)) = length (net ! (l - 1))"
      by blast
    moreover have "\<forall>node \<in> set (net ! l). \<forall>link \<in> set (inputLinks node).
                 source link < length (net ! (l - 1))"
      using wf l by (simp add: wf_network_def)
    ultimately show ?thesis by simp
  qed
  have "l - 1 < l" using l(1) by simp
  with lens have len: "\<forall>p \<in> set (s1 ! (l - 1)). length (batchOutput p) = ?n"
    by blast
  have "list_all2 (batch_result (l = length s1 - 1) (s1 ! (l - 1)) ?n) (net ! l) (s2 ! l)"
    using later_stage_result [OF s2 ps l(1) _ ready src len] l(2) s1l(1) by simp
  with i show ?thesis
    unfolding n'(1) prev s1l(1) by (simp add: list_all2_conv_all_nth)
qed

text \<open>The input layer after the call: the batch as given, then the slots left from before.\<close>

lemma forwardPropWithBatch_input_layer:
  assumes ok: "forwardPropWithBatch net inputs = Inr (out, net')"
      and i: "i < length (net ! 0)"
  shows "batchOutput (net' ! 0 ! i) =
           map (\<lambda>input. input ! i) inputs @ drop (length inputs) (batchOutput (net ! 0 ! i))"
proof -
  let ?ps = "zip inputs [0..<length inputs]"
  note f = forwardPropWithBatch_Inr [OF ok]
  from f(2) have l0: "0 < length net" by simp
  from f(3) l0 obtain s1 s2 where
    s1: "foldE (\<lambda>layerIdx. foldE (batchStep layerIdx) ?ps) [0..<0] net = Inr s1"
    and s2: "foldE (batchStep 0) ?ps s1 = Inr s2"
    and s1l: "length s1 = length net" "s1 ! 0 = net ! 0"
    and n': "net' ! 0 = s2 ! 0" "\<forall>m < 0. net' ! m = s1 ! m"
    and ln': "length net' = length net"
    by (rule stages_split)
  from s1 have eq: "s1 = net" by simp
  have "foldE (batchStep 0) (zip (take (length inputs) inputs) [0..<length inputs]) net = Inr s2"
    using s2 eq by simp
  from input_stage_result [OF this le_refl f(2)] i
  show ?thesis unfolding n'(1) by simp
qed

text \<open>After the call every \<^verbatim>\<open>batchOutput\<close> array has the length of the batch.\<close>

lemma forwardPropWithBatch_slots:
  assumes "forwardPropWithBatch net inputs = Inr (out, net')"
      and "wf_network net"
      and "\<forall>layer \<in> set net. \<forall>node \<in> set layer. length (batchOutput node) \<le> length inputs"
  shows "\<forall>layer \<in> set net'. \<forall>node \<in> set layer. length (batchOutput node) = length inputs"
proof -
  note f = forwardPropWithBatch_Inr [OF assms(1)]
  from stages_other [OF f(3)] have len: "length net' = length net" by simp
  note sl = stages_lengths [OF f(3) le_refl f(1) assms(2,3)]
  show ?thesis
  proof (intro ballI)
    fix layer node assume "layer \<in> set net'" "node \<in> set layer"
    then obtain m where "m < length net'" "node \<in> set (net' ! m)"
      by (auto simp: in_set_conv_nth)
    with sl len show "length (batchOutput node) = length inputs" by simp
  qed
qed

section \<open>Mini-batch normalization: the claims\<close>

lemma later_stage_last_pass:
  assumes "foldE (batchStep l) ps s = Inr s'" "ps \<noteq> []" "1 \<le> l" "l < length s"
  shows "\<exists>s0. batchLayer (l = length s - 1) (s ! (l - 1)) (s0 ! l) = Inr (s' ! l)"
proof -
  from assms(2) have ps: "ps = butlast ps @ [last ps]" by simp
  obtain input bni where p: "last ps = (input, bni)" by (cases "last ps")
  from assms(1) obtain s0 where
    s0: "foldE (batchStep l) (butlast ps) s = Inr s0"
    and st: "batchStep l (last ps) s0 = Inr s'"
    by (subst (asm) ps) (auto simp: foldE_snoc_Inr)
  note o = stage_other [OF s0]
  from st p assms(3) obtain layer2 where
    pass: "batchLayer (l = length s0 - 1) (s0 ! (l - 1)) (s0 ! l) = Inr layer2"
    and s': "s' = s0[l := layer2]"
    by (auto simp: batchStep_def bindE_Inr)
  have "s0 ! (l - 1) = s ! (l - 1)" using o assms(3) by simp
  moreover have "length s0 = length s" using o by simp
  moreover have "s' ! l = layer2" using s' assms(4) o by simp
  ultimately show ?thesis using pass by auto
qed

lemma forwardPropWithBatch_last_pass:
  assumes ok: "forwardPropWithBatch net inputs = Inr (out, net')"
      and l: "1 \<le> l" "l < length net"
  shows "\<exists>layer0. batchLayer (l = length net - 1) (net' ! (l - 1)) layer0 = Inr (net' ! l)"
proof -
  let ?ps = "zip inputs [0..<length inputs]"
  note f = forwardPropWithBatch_Inr [OF ok]
  from f(3) l(2) obtain s1 s2 where
    s1: "foldE (\<lambda>layerIdx. foldE (batchStep layerIdx) ?ps) [0..<l] net = Inr s1"
    and s2: "foldE (batchStep l) ?ps s1 = Inr s2"
    and s1l: "length s1 = length net" "s1 ! l = net ! l"
    and n': "net' ! l = s2 ! l" "\<forall>m < l. net' ! m = s1 ! m"
    and ln': "length net' = length net"
    by (rule stages_split)
  have ps: "?ps \<noteq> []" using f(1) by (cases inputs) (simp_all add: upt_rec)
  have prev: "net' ! (l - 1) = s1 ! (l - 1)" using l(1) n'(2) by simp
  from later_stage_last_pass [OF s2 ps l(1)] l(2) s1l(1)
  show ?thesis unfolding n'(1) prev by auto
qed

text \<open>
  Claim C8, as the code has it. Batch normalization is per node, across the batch. Let
  \<^verbatim>\<open>forwardPropWithBatch\<close> return on a network whose links have their sources in the
  previous layer (\<^verbatim>\<open>buildNetwork\<close> links it so) and whose \<^verbatim>\<open>batchOutput\<close> arrays are not
  longer than the batch (they are empty in a network \<^verbatim>\<open>buildNetwork\<close> has just made). Take
  a node of a layer that is not the output layer. If the layer is the input layer, the
  node's \<^verbatim>\<open>batchOutput\<close> holds the batch as given: entry \<open>k\<close> is the node's component of
  input vector \<open>k\<close>. Otherwise the layer is a hidden layer; let \<open>raw\<close> be the values the
  node's \<^verbatim>\<open>updateBatchOutput\<close> computes, one for each vector of the batch, from its bias,
  its links and the \<^verbatim>\<open>batchOutput\<close> of the previous layer. Then \<open>raw\<close> has the length of
  the batch, and the node ends with
  \<open>bnGamma * ((x - mean) / sqrt (variance + bnEpsilon)) + bnBeta\<close> for each \<open>x\<close> of \<open>raw\<close>,
  where \<open>mean\<close> and the biased \<open>variance\<close> are taken over the \<open>raw\<close> of this node alone.
  The witness is the scenario of the specification: one hidden node with raw batch outputs
  1, 2, 3, 4, gamma 1 and beta 0 gives mean 5/2, variance 5/4 and the entries
  \<open>(x - 5/2) / sqrt (5/4 + \<epsilon>)\<close>, while the input node holds 1, 2, 3, 4.
\<close>

theorem batch_normalization_per_node:
  assumes "forwardPropWithBatch network inputs = Inr (out, net')"
      and "wf_network network"
      and "\<forall>layer \<in> set network. \<forall>node \<in> set layer. length (batchOutput node) \<le> length inputs"
      and "l < length network - 1" "i < length (network ! l)"
      and "node = network ! l ! i"
      and "raw = map (\<lambda>k. activation_output (activation node)
                     (bias node + (\<Sum>link\<leftarrow>inputLinks node.
                        weight link * (batchOutput (net' ! (l - 1) ! source link) ! k))))
                   [0..<length inputs]"
      and "mean = sum_list raw / real (length raw)"
      and "variance = (\<Sum>x\<leftarrow>raw. (x - mean) ^ 2) / real (length raw)"
  shows "(l = 0 \<longrightarrow> batchOutput (net' ! l ! i) = map (\<lambda>input. input ! i) inputs) \<and>
         (1 \<le> l \<longrightarrow>
            length raw = length inputs \<and>
            batchOutput (net' ! l ! i) =
              map (\<lambda>x. bnGamma node * ((x - mean) / sqrt (variance + bnEpsilon node)) + bnBeta node)
                raw)"
proof -
  have input: "batchOutput (net' ! l ! i) = map (\<lambda>input. input ! i) inputs" if l0: "l = 0"
  proof -
    from assms(4) have "0 < length network" by auto
    then have "network ! 0 \<in> set network" by (rule nth_mem)
    with assms(3,5) l0 have "length (batchOutput (network ! 0 ! i)) \<le> length inputs"
      by simp
    with forwardPropWithBatch_input_layer [OF assms(1), of i] assms(5) l0
    show ?thesis by simp
  qed
  have hidden: "length raw = length inputs \<and>
            batchOutput (net' ! l ! i) =
              map (\<lambda>x. bnGamma node * ((x - mean) / sqrt (variance + bnEpsilon node)) + bnBeta node)
                raw" if l1: "1 \<le> l"
  proof -
    have l: "l < length network" "l \<noteq> length network - 1" using assms(4) by simp_all
    have "batch_result (l = length network - 1) (net' ! (l - 1)) (length inputs)
             (network ! l ! i) (net' ! l ! i)"
      using assms(1,2,3) l1 l(1) assms(5) by (rule forwardPropWithBatch_layer)
    then have bo: "batchOutput (net' ! l ! i) =
        batchOutput (batchNormalization
          (node\<lparr>batchOutput := map (batchRaw (net' ! (l - 1)) node) [0..<length inputs]\<rparr>))"
      using l(2) by (simp add: batch_result_def assms(6))
    have raw: "map (batchRaw (net' ! (l - 1)) node) [0..<length inputs] = raw"
      unfolding assms(7) batchRaw_def ..
    show ?thesis
      unfolding bo raw batchNormalization_result
      by (simp add: assms(7,8,9))
  qed
  from input hidden show ?thesis by blast
qed

text \<open>
  Claim C10, as the code has it. \<^verbatim>\<open>forwardPropWithBatch\<close> has no normalization argument.
  Let it return on a network whose links have their sources in the previous layer and
  whose \<^verbatim>\<open>batchOutput\<close> arrays are not longer than the batch, and take a node of a layer
  that is not the output layer. If the layer is the input layer, the node's
  \<^verbatim>\<open>batchOutput\<close> holds the raw inputs. Otherwise the layer is a hidden layer, and the
  node's \<^verbatim>\<open>batchOutput\<close> is what \<^verbatim>\<open>Node.batchNormalization\<close> makes of the node's own raw
  batch outputs, the values \<^verbatim>\<open>updateBatchOutput\<close> computes from the node's bias, its links
  and the \<^verbatim>\<open>batchOutput\<close> of the previous layer. \<^verbatim>\<open>forwardProp\<close> consults its
  normalization argument: in mode \<open>Layer\<close> the same hidden layer is layer-normalized, in
  every other mode its nodes are left as \<^verbatim>\<open>updateOutput\<close> computed them.
\<close>

theorem forwardPropWithBatch_always_normalizes:
  assumes "forwardPropWithBatch network inputs = Inr (out, net')"
      and "wf_network network"
      and "\<forall>layer \<in> set network. \<forall>node \<in> set layer. length (batchOutput node) \<le> length inputs"
      and "l < length network - 1" "i < length (network ! l)"
      and "node = network ! l ! i"
      and "raw = map (\<lambda>k. activation_output (activation node)
                     (bias node + (\<Sum>link\<leftarrow>inputLinks node.
                        weight link * (batchOutput (net' ! (l - 1) ! source link) ! k))))
                   [0..<length inputs]"
      and "length input1 = length (network ! 0)"
      and "net1 = snd (forwardProp network input1 normalization)"
  shows "(l = 0 \<longrightarrow> batchOutput (net' ! l ! i) = map (\<lambda>input. input ! i) inputs) \<and>
         (1 \<le> l \<longrightarrow>
            batchOutput (net' ! l ! i) =
              batchOutput (batchNormalization (node\<lparr>batchOutput := raw\<rparr>)) \<and>
            (normalization = ''Layer'' \<longrightarrow>
               net1 ! l = layerNormalization (map (updateOutput (net1 ! (l - 1))) (network ! l))) \<and>
            (normalization \<noteq> ''Layer'' \<longrightarrow>
               net1 ! l = map (updateOutput (net1 ! (l - 1))) (network ! l)))"
proof (intro conjI impI)
  assume l0: "l = 0"
  from assms(4) have "0 < length network" by auto
  then have "network ! 0 \<in> set network" by (rule nth_mem)
  with assms(3,5) l0 have "length (batchOutput (network ! 0 ! i)) \<le> length inputs"
    by simp
  with forwardPropWithBatch_input_layer [OF assms(1), of i] assms(5) l0
  show "batchOutput (net' ! l ! i) = map (\<lambda>input. input ! i) inputs" by simp
next
  assume l1: "1 \<le> l"
  have l: "l < length network" "l \<noteq> length network - 1" using assms(4) by simp_all
  have "batch_result (l = length network - 1) (net' ! (l - 1)) (length inputs)
           (network ! l ! i) (net' ! l ! i)"
    using assms(1,2,3) l1 l(1) assms(5) by (rule forwardPropWithBatch_layer)
  moreover have "map (batchRaw (net' ! (l - 1)) node) [0..<length inputs] = raw"
    unfolding assms(7) batchRaw_def ..
  ultimately show "batchOutput (net' ! l ! i) =
      batchOutput (batchNormalization (node\<lparr>batchOutput := raw\<rparr>))"
    using l(2) by (simp add: batch_result_def assms(6))
next
  assume l1: "1 \<le> l" and n: "normalization = ''Layer''"
  have l: "l < length network" using assms(4) by simp
  from forwardProp_layer [OF assms(8) l1 l assms(9)] n assms(4)
  show "net1 ! l = layerNormalization (map (updateOutput (net1 ! (l - 1))) (network ! l))"
    by simp
next
  assume l1: "1 \<le> l" and n: "normalization \<noteq> ''Layer''"
  have l: "l < length network" using assms(4) by simp
  from forwardProp_layer [OF assms(8) l1 l assms(9)] n
  show "net1 ! l = map (updateOutput (net1 ! (l - 1))) (network ! l)"
    by simp
qed



lemmas batch_eval = forwardPropWithBatch_def batchStep_def batchLayer_def batchInputLayer_def
  bindE_def js_get_def js_set_def updateBatchOutput_def updateBatchSlot_def batchTotalInput_def
  batchNormalization_def upt_rec Let_def new_Node_def new_Link_def

lemma bn_net_ok:
  "forwardPropWithBatch bn_net [[1], [2], [3], [4]] =
     Inr (fst (projr (forwardPropWithBatch bn_net [[1], [2], [3], [4]])),
          snd (projr (forwardPropWithBatch bn_net [[1], [2], [3], [4]])))"
  by (simp add: bn_net_def bn_link_def batch_eval)

lemma bn_net_input:
  "batchOutput (snd (projr (forwardPropWithBatch bn_net [[1], [2], [3], [4]])) ! 0 ! 0) = [1, 2, 3, 4]"
  by (simp add: bn_net_def bn_link_def batch_eval)


theorem batch_normalization_per_node_witness:
  "wf_network bn_net \<and> length bn_net = 3 \<and>
   batchOutput (snd (projr (forwardPropWithBatch bn_net [[1], [2], [3], [4]])) ! 0 ! 0) =
     [1, 2, 3, 4] \<and>
   batchOutput (snd (projr (forwardPropWithBatch bn_net [[1], [2], [3], [4]])) ! 1 ! 0) =
     map (\<lambda>x. (x - 5/2) / sqrt (5/4 + 1 / 10 ^ 8)) [1, 2, 3, 4]"
proof -
  have wf: "wf_network bn_net"
    by (auto simp: wf_network_def bn_net_def bn_link_def new_Node_def new_Link_def
          nth_Cons' less_Suc_eq)
  have fresh: "\<forall>layer \<in> set bn_net. \<forall>node \<in> set layer.
                 length (batchOutput node) \<le> length [[1], [2], [3], [4 :: real]]"
    by (simp add: bn_net_def new_Node_def)
  have len: "1 < length bn_net - 1" "0 < length (bn_net ! 1)" "length bn_net = 3"
    "0 < length bn_net - 1" "0 < length (bn_net ! 0)"
    by (simp_all add: bn_net_def)
  have raw: "[1, 2, 3, 4] =
      map (\<lambda>k. activation_output (activation (bn_net ! 1 ! 0))
                 (bias (bn_net ! 1 ! 0) + (\<Sum>link\<leftarrow>inputLinks (bn_net ! 1 ! 0).
                    weight link *
                    (batchOutput (snd (projr (forwardPropWithBatch bn_net [[1], [2], [3], [4]]))
                                    ! (1 - 1) ! source link) ! k))))
          [0..<length [[1], [2], [3], [4 :: real]]]"
  proof -
    have node: "inputLinks (bn_net ! Suc 0 ! 0) = [bn_link]" "bias (bn_net ! Suc 0 ! 0) = 0"
      "activation (bn_net ! Suc 0 ! 0) = LINEAR" "source bn_link = 0" "weight bn_link = 1"
      by (simp_all add: bn_net_def bn_link_def new_Node_def new_Link_def)
    show ?thesis
      by (simp add: node bn_net_input upt_rec)
  qed
  have mean: "(5/2 :: real) = sum_list [1, 2, 3, 4] / real (length [1, 2, 3, 4 :: real])"
    by simp
  have var: "(5/4 :: real) =
      (\<Sum>x\<leftarrow>[1, 2, 3, 4]. (x - 5/2) ^ 2) / real (length [1, 2, 3, 4 :: real])"
    by (simp add: power2_eq_square)
  note hidden = batch_normalization_per_node [OF bn_net_ok wf fresh len(1,2) refl raw mean var]
  note input = batch_normalization_per_node [OF bn_net_ok wf fresh len(4,5) refl refl refl refl]
  have par: "bnGamma (bn_net ! 1 ! 0) = 1" "bnBeta (bn_net ! 1 ! 0) = 0"
    "bnEpsilon (bn_net ! 1 ! 0) = 1 / 10 ^ 8"
    by (simp_all add: bn_net_def new_Node_def)
  from hidden have h: "batchOutput (snd (projr (forwardPropWithBatch bn_net [[1], [2], [3], [4]])) ! 1 ! 0) =
     map (\<lambda>x. bnGamma (bn_net ! 1 ! 0) * ((x - 5/2) / sqrt (5/4 + bnEpsilon (bn_net ! 1 ! 0)))
               + bnBeta (bn_net ! 1 ! 0)) [1, 2, 3, 4]"
    by blast
  from input have i: "batchOutput (snd (projr (forwardPropWithBatch bn_net [[1], [2], [3], [4]])) ! 0 ! 0) =
     map (\<lambda>input. input ! 0) [[1], [2], [3], [4]]"
    by blast
  from h [unfolded par] i wf len(3)
  show ?thesis by simp
qed

text \<open>
  The claim says this of every node of every layer but the output layer. The input layer is
  such a layer, and the code has a branch of its own for it: its nodes end with the batch as
  it was given. In the network above the input node ends with \<open>[1, 2, 3, 4]\<close>, not with
  the rescaled values.
\<close>

theorem batch_normalization_input_layer_counterexample:
  "length bn_net = 3 \<and>
   \<not> isl (forwardPropWithBatch bn_net [[1], [2], [3], [4]]) \<and>
   batchOutput (snd (projr (forwardPropWithBatch bn_net [[1], [2], [3], [4]])) ! 0 ! 0) =
     [1, 2, 3, 4] \<and>
   batchOutput (batchNormalization ((bn_net ! 0 ! 0)\<lparr>batchOutput := [1, 2, 3, 4]\<rparr>)) \<noteq>
     [1, 2, 3, 4]"
proof -
  have ok: "\<not> isl (forwardPropWithBatch bn_net [[1], [2], [3], [4]])"
    by (subst bn_net_ok) simp
  define v :: real where "v = (1 - 5/2) / sqrt (5/4 + 1 / 10 ^ 8)"
  have hdv: "hd (batchOutput (batchNormalization
                 ((bn_net ! 0 ! 0)\<lparr>batchOutput := [1, 2, 3, 4]\<rparr>))) = v"
    unfolding v_def
    by (simp add: bn_net_def new_Node_def batchNormalization_def Let_def power2_eq_square)
  have "v < 0" unfolding v_def by (simp add: field_simps)
  then have "v \<noteq> 1" by linarith
  have "batchOutput (batchNormalization ((bn_net ! 0 ! 0)\<lparr>batchOutput := [1, 2, 3, 4]\<rparr>)) \<noteq>
     [1, 2, 3, 4]"
  proof
    assume "batchOutput (batchNormalization ((bn_net ! 0 ! 0)\<lparr>batchOutput := [1, 2, 3, 4]\<rparr>)) =
      [1, 2, 3, 4]"
    then have "hd (batchOutput (batchNormalization
                 ((bn_net ! 0 ! 0)\<lparr>batchOutput := [1, 2, 3, 4]\<rparr>))) = 1"
      by (simp only: list.sel)
    with hdv \<open>v \<noteq> 1\<close> show False by (simp only:)
  qed
  with ok show ?thesis
    by (simp add: bn_net_input) (simp add: bn_net_def)
qed

text \<open>
  The \<^verbatim>\<open>batchOutput\<close> arrays are never shortened. After a batch of two vectors, a batch of
  one vector returns two outputs: the input node holds the new input 3 and the old input 2,
  the hidden node has two slots, and its statistics are taken over both. This is the case
  the condition on the lengths of the arrays leaves out.
\<close>

lemma forwardPropWithBatch_keeps_old_slots:
  "length (fst (projr (forwardPropWithBatch
                    (snd (projr (forwardPropWithBatch bn_net [[1], [2]]))) [[3]]))) = 2 \<and>
   batchOutput
     (snd (projr (forwardPropWithBatch
                    (snd (projr (forwardPropWithBatch bn_net [[1], [2]]))) [[3]])) ! 0 ! 0) = [3, 2] \<and>
   length (batchOutput
     (snd (projr (forwardPropWithBatch
                    (snd (projr (forwardPropWithBatch bn_net [[1], [2]]))) [[3]])) ! 1 ! 0)) = 2"
  by (simp add: bn_net_def bn_link_def batch_eval)

theorem forwardPropWithBatch_always_normalizes_witness:
  "wf_network bn_net \<and> length bn_net = 3 \<and>
   batchOutput (snd (projr (forwardPropWithBatch bn_net [[1], [2], [3], [4]])) ! 0 ! 0) =
     [1, 2, 3, 4] \<and>
   batchOutput (snd (projr (forwardPropWithBatch bn_net [[1], [2], [3], [4]])) ! 1 ! 0) =
     batchOutput (batchNormalization ((bn_net ! 1 ! 0)\<lparr>batchOutput := [1, 2, 3, 4]\<rparr>)) \<and>
   snd (forwardProp bn_net [1] ''Layer'') ! 1 =
     layerNormalization (map (updateOutput (snd (forwardProp bn_net [1] ''Layer'') ! 0)) (bn_net ! 1)) \<and>
   snd (forwardProp bn_net [1] ''none'') ! 1 =
     map (updateOutput (snd (forwardProp bn_net [1] ''none'') ! 0)) (bn_net ! 1)"
proof -
  have wf: "wf_network bn_net"
    by (auto simp: wf_network_def bn_net_def bn_link_def new_Node_def new_Link_def
          nth_Cons' less_Suc_eq)
  have fresh: "\<forall>layer \<in> set bn_net. \<forall>node \<in> set layer.
                 length (batchOutput node) \<le> length [[1], [2], [3], [4 :: real]]"
    by (simp add: bn_net_def new_Node_def)
  have len: "1 < length bn_net - 1" "0 < length (bn_net ! 1)" "length bn_net = 3"
    "0 < length bn_net - 1" "0 < length (bn_net ! 0)"
    "length [1 :: real] = length (bn_net ! 0)"
    by (simp_all add: bn_net_def)
  have raw: "[1, 2, 3, 4] =
      map (\<lambda>k. activation_output (activation (bn_net ! 1 ! 0))
                 (bias (bn_net ! 1 ! 0) + (\<Sum>link\<leftarrow>inputLinks (bn_net ! 1 ! 0).
                    weight link *
                    (batchOutput (snd (projr (forwardPropWithBatch bn_net [[1], [2], [3], [4]]))
                                    ! (1 - 1) ! source link) ! k))))
          [0..<length [[1], [2], [3], [4 :: real]]]"
  proof -
    have node: "inputLinks (bn_net ! Suc 0 ! 0) = [bn_link]" "bias (bn_net ! Suc 0 ! 0) = 0"
      "activation (bn_net ! Suc 0 ! 0) = LINEAR" "source bn_link = 0" "weight bn_link = 1"
      by (simp_all add: bn_net_def bn_link_def new_Node_def new_Link_def)
    show ?thesis
      by (simp add: node bn_net_input upt_rec)
  qed
  note hidden = forwardPropWithBatch_always_normalizes
                  [OF bn_net_ok wf fresh len(1,2) refl raw len(6) refl]
  note input = forwardPropWithBatch_always_normalizes
                  [OF bn_net_ok wf fresh len(4,5) refl refl len(6) refl, of "''none''"]
  from input have i: "batchOutput (snd (projr (forwardPropWithBatch bn_net [[1], [2], [3], [4]])) ! 0 ! 0) =
     map (\<lambda>input. input ! 0) [[1], [2], [3], [4]]"
    by blast
  have ne: "''none'' \<noteq> ''Layer''" by simp
  from hidden [of "''Layer''"] hidden [of "''none''"] ne
  have h: "batchOutput (snd (projr (forwardPropWithBatch bn_net [[1], [2], [3], [4]])) ! 1 ! 0) =
     batchOutput (batchNormalization ((bn_net ! 1 ! 0)\<lparr>batchOutput := [1, 2, 3, 4]\<rparr>))"
    "snd (forwardProp bn_net [1] ''Layer'') ! 1 =
     layerNormalization (map (updateOutput (snd (forwardProp bn_net [1] ''Layer'') ! (1 - 1))) (bn_net ! 1))"
    "snd (forwardProp bn_net [1] ''none'') ! 1 =
     map (updateOutput (snd (forwardProp bn_net [1] ''none'') ! (1 - 1))) (bn_net ! 1)"
    by blast+
  have z: "(1 :: nat) - 1 = 0" by simp
  from h [unfolded z] i wf len(3)
  show ?thesis by simp
qed

text \<open>
  The claim says that batch normalization is applied to every node of every layer but the
  output layer. The nodes of the input layer are not normalized: on the network with two
  input nodes and one output node and the batch \<open>[[1, 2], [3, 4]]\<close>, the first input node
  ends with \<open>[1, 3]\<close>, which batch normalization would change.
\<close>

theorem forwardPropWithBatch_input_layer_counterexample:
  "length net21 = 2 \<and>
   \<not> isl (forwardPropWithBatch net21 [[1, 2], [3, 4]]) \<and>
   batchOutput (snd (projr (forwardPropWithBatch net21 [[1, 2], [3, 4]])) ! 0 ! 0) = [1, 3] \<and>
   batchOutput (batchNormalization ((net21 ! 0 ! 0)\<lparr>batchOutput := [1, 3]\<rparr>)) \<noteq> [1, 3]"
proof -
  have "- 1 / sqrt (1 + 1 / 10 ^ 8) \<noteq> (1 :: real)"
  proof -
    have "0 < sqrt (1 + 1 / 10 ^ 8 :: real)" by simp
    then have "- 1 / sqrt (1 + 1 / 10 ^ 8 :: real) < 0" by (simp add: field_simps)
    then show ?thesis by linarith
  qed
  then have "batchOutput (batchNormalization ((net21 ! 0 ! 0)\<lparr>batchOutput := [1, 3]\<rparr>)) \<noteq> [1, 3]"
    by (simp add: net21_def buildNetwork_def batch_eval)
  then show ?thesis
    by (simp add: net21_def buildNetwork_def batch_eval)
qed

end
